theory Spec2Isabelle
  imports Main "HOL-Library.Word"
begin

unbundle bit_operations_syntax

section \<open>Bytes and the digest primitive\<close>

text \<open>
  A Go \<^verbatim>\<open>[]byte\<close> is a list of 8-bit words. The hasher is built on
  \<^verbatim>\<open>crypto/sha256\<close> of the Go standard library, which is not part of the
  repository; \<open>Sum256\<close> below is SHA-256 as \<^verbatim>\<open>sha256.Sum256\<close> computes it
  (padding as in \<^verbatim>\<open>checkSum\<close>, the compression function as in
  \<^verbatim>\<open>blockGeneric\<close>), on 32-bit words.
\<close>

type_synonym byte = "8 word"
type_synonym uint32 = "32 word"
type_synonym uint64 = "64 word"

definition K256 :: "uint32 list" where
  "K256 = concat [
    [0x428a2f98, 0x71374491, 0xb5c0fbcf, 0xe9b5dba5, 0x3956c25b, 0x59f111f1, 0x923f82a4, 0xab1c5ed5],
    [0xd807aa98, 0x12835b01, 0x243185be, 0x550c7dc3, 0x72be5d74, 0x80deb1fe, 0x9bdc06a7, 0xc19bf174],
    [0xe49b69c1, 0xefbe4786, 0x0fc19dc6, 0x240ca1cc, 0x2de92c6f, 0x4a7484aa, 0x5cb0a9dc, 0x76f988da],
    [0x983e5152, 0xa831c66d, 0xb00327c8, 0xbf597fc7, 0xc6e00bf3, 0xd5a79147, 0x06ca6351, 0x14292967],
    [0x27b70a85, 0x2e1b2138, 0x4d2c6dfc, 0x53380d13, 0x650a7354, 0x766a0abb, 0x81c2c92e, 0x92722c85],
    [0xa2bfe8a1, 0xa81a664b, 0xc24b8b70, 0xc76c51a3, 0xd192e819, 0xd6990624, 0xf40e3585, 0x106aa070],
    [0x19a4c116, 0x1e376c08, 0x2748774c, 0x34b0bcb5, 0x391c0cb3, 0x4ed8aa4a, 0x5b9cca4f, 0x682e6ff3],
    [0x748f82ee, 0x78a5636f, 0x84c87814, 0x8cc70208, 0x90befffa, 0xa4506ceb, 0xbef9a3f7, 0xc67178f2]]"

definition init256 :: "uint32 list" where
  "init256 = [0x6A09E667, 0xBB67AE85, 0x3C6EF372, 0xA54FF53A] @
             [0x510E527F, 0x9B05688C, 0x1F83D9AB, 0x5BE0CD19]"

text \<open>\<^verbatim>\<open>bits.RotateLeft32(x, -n)\<close>: rotation to the right by \<open>n\<close> bits.\<close>

definition rotr :: "nat \<Rightarrow> uint32 \<Rightarrow> uint32" where
  "rotr n x = drop_bit n x OR push_bit (32 - n) x"

text \<open>Big-endian reading of four bytes, and big-endian writing of the low \<open>n\<close> bytes of a word.\<close>

definition be32 :: "byte list \<Rightarrow> uint32" where
  "be32 bs = foldl (\<lambda>a b. push_bit 8 a OR ucast b) 0 (take 4 bs)"

fun words_of :: "nat \<Rightarrow> byte list \<Rightarrow> uint32 list" where
  "words_of 0 bs = []"
| "words_of (Suc n) bs = be32 bs # words_of n (drop 4 bs)"

definition be_bytes :: "nat \<Rightarrow> 'a::len word \<Rightarrow> byte list" where
  "be_bytes n x = map (\<lambda>i. ucast (drop_bit (8 * i) x)) (rev [0..<n])"

text \<open>
  The message schedule. The list holds the words computed so far, the newest first, so
  that \<open>w ! 1\<close> is \<^verbatim>\<open>w[i-2]\<close>, \<open>w ! 14\<close> is \<^verbatim>\<open>w[i-15]\<close>, \<open>w ! 6\<close> is
  \<^verbatim>\<open>w[i-7]\<close> and \<open>w ! 15\<close> is \<^verbatim>\<open>w[i-16]\<close>.
\<close>

fun schedule256 :: "nat \<Rightarrow> uint32 list \<Rightarrow> uint32 list" where
  "schedule256 0 w = w"
| "schedule256 (Suc n) w =
    (let v1 = w ! 1; t1 = rotr 17 v1 XOR rotr 19 v1 XOR drop_bit 10 v1;
         v2 = w ! 14; t2 = rotr 7 v2 XOR rotr 18 v2 XOR drop_bit 3 v2
     in schedule256 n ((t1 + w ! 6 + t2 + w ! 15) # w))"

definition round256 :: "uint32 list \<Rightarrow> uint32 \<times> uint32 \<Rightarrow> uint32 list" where
  "round256 s kw =
    (let a = s ! 0; b = s ! 1; c = s ! 2; d = s ! 3; e = s ! 4; f = s ! 5; g = s ! 6; h = s ! 7;
         t1 = h + (rotr 6 e XOR rotr 11 e XOR rotr 25 e) + ((e AND f) XOR (NOT e AND g))
                + fst kw + snd kw;
         t2 = (rotr 2 a XOR rotr 13 a XOR rotr 22 a) + ((a AND b) XOR (a AND c) XOR (b AND c))
     in [t1 + t2, a, b, c, d + t1, e, f, g])"

definition block256 :: "uint32 list \<Rightarrow> byte list \<Rightarrow> uint32 list" where
  "block256 h p =
    (let w = rev (schedule256 48 (rev (words_of 16 p)))
     in map2 (+) h (foldl round256 h (zip K256 w)))"

function blocks256 :: "uint32 list \<Rightarrow> byte list \<Rightarrow> uint32 list" where
  "blocks256 h p =
    (if length p < 64 then h else blocks256 (block256 h (take 64 p)) (drop 64 p))"
  by pat_completeness auto
termination
  by (relation "measure (\<lambda>(h, p). length p)") auto

declare blocks256.simps [simp del]

definition pad256 :: "byte list \<Rightarrow> byte list" where
  "pad256 m =
    (let r = length m mod 64;
         t = (if r < 56 then 56 - r else 64 + 56 - r)
     in m @ 0x80 # replicate (t - 1) 0
          @ be_bytes 8 (push_bit 3 (of_nat (length m) :: uint64)))"

definition Sum256 :: "byte list \<Rightarrow> byte list" where
  "Sum256 m = concat (map (be_bytes 4) (blocks256 init256 (pad256 m)))"

section \<open>The hasher\<close>

definition Size :: nat where
  "Size = 32 + 1"

definition BlockSize :: nat where
  "BlockSize = 2 * 1024 * 1024"

definition PageSize :: nat where
  "PageSize = 64 * 1024"

definition pagesPerBlock :: nat where
  "pagesPerBlock = BlockSize div PageSize"

definition seed :: "byte list" where
  "seed = map of_char ''VSO Content Identifier Seed''"

text \<open>
  The state of a \<^verbatim>\<open>vsoHash\<close> as the calling goroutine sees it, with every page
  taken by value. A page handle (\<^verbatim>\<open><-chan [sha256.Size]byte\<close>) has capacity one and
  exactly one sender, the worker that took the page's task in \<^verbatim>\<open>run\<close>, which sends
  \<^verbatim>\<open>sha256.Sum256(task.Input)\<close>; \<^verbatim>\<open>finishBlock\<close> blocks until that value
  arrives. A handle is recorded here as the digest of the bytes the page held when it was
  submitted. That is what the handle delivers as long as nothing writes the page between
  \<^verbatim>\<open>writePage\<close> and the worker's \<^verbatim>\<open>sha256.Sum256\<close>. The section on the worker pool
  models the channels, the goroutines and the memory of the pages: there a task holds the
  slice it was given, a worker hashes what the slice holds when it gets to it, and the
  hasher of this section is shown to be what the pool computes while the caller's arrays
  are left alone, and shown not to be when they are written.
\<close>

record vsoHash =
  buffer :: "byte list"
  pageHashes :: "byte list list"
  blobID :: "byte list"

text \<open>
  The panics of the code and of the runtime functions it calls, and the fatal error of
  the Go runtime when every goroutine is blocked on a channel.
\<close>

datatype error =
  ParallelismNotPositive
  | MakechanSizeOutOfRange
  | SliceBoundsOutOfRange
  | Deadlock

text \<open>Go's builtin \<^verbatim>\<open>copy(dst, src)\<close>: overwrites the first \<open>min (len dst) (len src)\<close> bytes.\<close>

definition copy :: "'a list \<Rightarrow> 'a list \<Rightarrow> 'a list" where
  "copy dst src = take (length dst) src @ drop (length src) dst"

text \<open>
  \<^verbatim>\<open>make(chan hashTask, parallelism)\<close> is \<^verbatim>\<open>runtime.makechan\<close>, which panics with
  \<^verbatim>\<open>makechan: size out of range\<close> when the channel's buffer cannot be addressed:
  \<^verbatim>\<open>mem, overflow := math.MulUintptr(elem.Size_, uintptr(size))\<close> and then
  \<^verbatim>\<open>if overflow || mem > maxAlloc-hchanSize || size < 0\<close>. The numbers are those of
  the Go runtime on 64-bit Linux, the platform of the repository's benchmark: a
  \<^verbatim>\<open>hashTask\<close> is a slice header of three words and a channel pointer of one,
  \<^verbatim>\<open>maxAlloc\<close> is \<open>2 ^ 48\<close> and \<^verbatim>\<open>hchanSize\<close> is 96 bytes. Another platform or
  release moves the limit \<open>maxChanCap\<close>; on every one of them it is below the largest
  \<^verbatim>\<open>int\<close>. \<open>makechan\<close> returns the capacity of the channel. Running out of memory
  below the limit is a fatal error that depends on the machine and is not modelled.
\<close>

definition hashTaskSize :: int where
  "hashTaskSize = 3 * 8 + 8"

definition maxAlloc :: int where
  "maxAlloc = 2 ^ 48"

definition hchanSize :: int where
  "hchanSize = 96"

definition makechan :: "int \<Rightarrow> error + nat" where
  "makechan n =
    (if 2 ^ 64 \<le> hashTaskSize * n \<or> maxAlloc - hchanSize < hashTaskSize * n \<or> n < 0
     then Inl MakechanSizeOutOfRange
     else Inr (nat n))"

definition maxChanCap :: int where
  "maxChanCap = (maxAlloc - hchanSize) div hashTaskSize"

text \<open>
  \<open>parallelism\<close> is a Go \<^verbatim>\<open>int\<close>. The goroutines that \<^verbatim>\<open>NewParallel\<close> starts
  are those of the worker pool below.
\<close>

definition NewParallel :: "int \<Rightarrow> error + vsoHash" where
  "NewParallel parallelism =
    (if parallelism \<le> 0 then Inl ParallelismNotPositive
     else
       (case makechan parallelism of
          Inl e \<Rightarrow> Inl e
        | Inr cap \<Rightarrow> Inr \<lparr>buffer = [], pageHashes = [], blobID = []\<rparr>))"

text \<open>\<open>gomaxprocs\<close> is what \<^verbatim>\<open>runtime.GOMAXPROCS(0)\<close> returns.\<close>

definition New :: "int \<Rightarrow> error + vsoHash" where
  "New gomaxprocs = NewParallel gomaxprocs"

definition updateBlobID :: "vsoHash \<Rightarrow> byte list \<Rightarrow> vsoHash" where
  "updateBlobID v h =
    (if length (blobID v) = 0 then v\<lparr>blobID := (blobID v @ seed) @ h\<rparr>
     else
       let b0 = blobID v @ [0];
           sum = Sum256 b0
       in v\<lparr>blobID := ([] @ sum) @ h\<rparr>)"

definition finishBlock :: "vsoHash \<Rightarrow> vsoHash" where
  "finishBlock v =
    (let buf = foldl (\<lambda>buf b. buf @ b) [] (pageHashes v);
         v1 = v\<lparr>pageHashes := []\<rparr>;
         h = Sum256 buf
     in updateBlobID v1 h)"

definition writePage :: "vsoHash \<Rightarrow> byte list \<Rightarrow> vsoHash" where
  "writePage v page =
    (let v1 = v\<lparr>pageHashes := pageHashes v @ [Sum256 page]\<rparr>
     in if length (pageHashes v1) = pagesPerBlock then finishBlock v1 else v1)"

text \<open>
  \<^verbatim>\<open>Write\<close> returns \<^verbatim>\<open>len(in), nil\<close> where \<^verbatim>\<open>in\<close> is the loop variable, which
  the loop re-slices. \<^verbatim>\<open>in[:n]\<close> panics for a negative \<open>n\<close>, that is when the buffer
  holds more than a page. Lengths are natural numbers: the length of a slice stays below
  the range of Go's \<^verbatim>\<open>int\<close>, so no sum of two of them wraps around.
\<close>

function Write :: "vsoHash \<Rightarrow> byte list \<Rightarrow> error + (nat \<times> vsoHash)" where
  "Write v inp =
    (if length inp + length (buffer v) < PageSize then
       Inr (length inp, v\<lparr>buffer := buffer v @ inp\<rparr>)
     else if length (buffer v) > 0 then
       (if PageSize < length (buffer v) then Inl SliceBoundsOutOfRange
        else
          let n = PageSize - length (buffer v);
              v1 = v\<lparr>buffer := buffer v @ take n inp\<rparr>;
              inp1 = drop n inp;
              b = copy (replicate PageSize 0) (buffer v1);
              v2 = writePage v1 b
          in Write (v2\<lparr>buffer := []\<rparr>) inp1)
     else Write (writePage v (take PageSize inp)) (drop PageSize inp))"
  by pat_completeness auto

lemma buffer_updateBlobID [simp]: "buffer (updateBlobID v h) = buffer v"
  by (simp add: updateBlobID_def Let_def)

lemma buffer_finishBlock [simp]: "buffer (finishBlock v) = buffer v"
  by (simp add: finishBlock_def Let_def)

lemma buffer_writePage [simp]: "buffer (writePage v page) = buffer v"
  by (simp add: writePage_def Let_def)

lemma PageSize_pos [simp]: "0 < PageSize"
  by (simp add: PageSize_def)

lemma less_PageSize_diff: "\<not> n < PageSize \<Longrightarrow> n - PageSize < n"
  using PageSize_pos by arith

termination Write
  by (relation "measure (\<lambda>(v, inp). 2 * length inp + (if buffer v = [] then 0 else 1))")
     (auto simp: Let_def less_PageSize_diff)

declare Write.simps [simp del]

definition sum_vso :: "vsoHash \<Rightarrow> byte list \<times> vsoHash" where
  "sum_vso v =
    (let v1 = (if length (buffer v) \<noteq> 0 then writePage v (buffer v) else v);
         v2 = (if length (pageHashes v1) > 0 \<or> length (blobID v1) = 0 then finishBlock v1 else v1);
         v3 = v2\<lparr>blobID := blobID v2 @ [1]\<rparr>;
         b = Sum256 (blobID v3);
         ret = copy (replicate Size 0) b;
         ret1 = ret[Size - 1 := 0]
     in (ret1, v3))"

text \<open>The method \<^verbatim>\<open>(*vsoHash).Sum\<close>.\<close>

definition vsoHash_Sum :: "vsoHash \<Rightarrow> byte list \<Rightarrow> byte list \<times> vsoHash" where
  "vsoHash_Sum v b = (let (s, v1) = sum_vso v in (b @ s, v1))"

definition Reset :: "vsoHash \<Rightarrow> vsoHash" where
  "Reset v = v\<lparr>pageHashes := [], blobID := [], buffer := []\<rparr>"

text \<open>The package function \<^verbatim>\<open>Sum\<close>; it drops what \<^verbatim>\<open>Write\<close> returns.\<close>

definition Sum :: "int \<Rightarrow> byte list \<Rightarrow> error + byte list" where
  "Sum gomaxprocs inp =
    (case New gomaxprocs of
       Inl e \<Rightarrow> Inl e
     | Inr h \<Rightarrow>
         (case Write h inp of
            Inl e \<Rightarrow> Inl e
          | Inr (n, h1) \<Rightarrow> Inr (fst (sum_vso h1))))"

section \<open>Drivers\<close>

text \<open>
  The incremental path of the public surface: \<^verbatim>\<open>Write\<close> called on each chunk in
  order, then \<^verbatim>\<open>sum\<close>. \<open>written\<close> keeps the state of what \<^verbatim>\<open>Write\<close> returns.
\<close>

fun writes :: "vsoHash \<Rightarrow> byte list list \<Rightarrow> error + vsoHash" where
  "writes v [] = Inr v"
| "writes v (c # cs) = (case Write v c of Inl e \<Rightarrow> Inl e | Inr (n, v1) \<Rightarrow> writes v1 cs)"

definition finish_after :: "vsoHash \<Rightarrow> byte list list \<Rightarrow> error + byte list" where
  "finish_after v chunks =
    (case writes v chunks of Inl e \<Rightarrow> Inl e | Inr v1 \<Rightarrow> Inr (fst (sum_vso v1)))"

definition incremental :: "int \<Rightarrow> byte list list \<Rightarrow> error + byte list" where
  "incremental parallelism chunks =
    (case NewParallel parallelism of Inl e \<Rightarrow> Inl e | Inr h \<Rightarrow> finish_after h chunks)"

definition written :: "error + (nat \<times> vsoHash) \<Rightarrow> error + vsoHash" where
  "written r = map_sum id snd r"

section \<open>The worker pool\<close>

text \<open>
  The same hasher with its channels, its goroutines and the memory of its pages explicit.
  \<open>tasks\<close> is the buffered channel \<^verbatim>\<open>v.tasks\<close> of capacity \<open>tasks_cap\<close>, \<open>workers\<close>
  has one entry for each goroutine running \<^verbatim>\<open>run\<close> (\<open>None\<close> while it waits in
  \<^verbatim>\<open>range v.tasks\<close>, the task while it holds one), and \<open>outputs\<close> are the channels of
  capacity one that \<^verbatim>\<open>writePage\<close> makes, by index. A worker takes the first queued
  task, or sends the digest of the task it holds to the task's channel. The calling
  goroutine blocks in \<open>await\<close> until its channel operation can go ahead; meanwhile, and
  whenever the schedule says so, workers run. \<open>schedule\<close> is the order the Go scheduler
  picks; when it is used up the caller goes ahead as soon as it can, and the first worker
  that can step runs otherwise. With no worker able to step and the caller blocked, the
  program is dead.

  A \<^verbatim>\<open>[]byte\<close> is a window \<open>lo ..< hi\<close> on an array \<open>arr\<close> of the memory \<open>mem\<close>, which
  maps each array of the caller to its contents. \<^verbatim>\<open>s[:n]\<close> and \<^verbatim>\<open>s[n:]\<close> are
  windows on the same array, and \<open>bytes_of\<close> reads what a window holds now. The input of
  a task is the slice that \<^verbatim>\<open>writePage\<close> was given. It is \<open>Borrowed\<close> when the slice
  is a window on an array of the caller (\<^verbatim>\<open>v.writePage(in[:PageSize])\<close>), and the worker
  then hashes what the array holds when it computes the digest. It is \<open>Copied\<close> with its
  bytes when nothing else can write the array behind it: the fresh array \<^verbatim>\<open>b\<close> of
  \<^verbatim>\<open>Write\<close>, and in \<^verbatim>\<open>sum\<close> the bytes of \<^verbatim>\<open>v.buffer\<close>, whose digest
  \<^verbatim>\<open>finishBlock\<close> receives before \<^verbatim>\<open>sum\<close> returns.
\<close>

datatype choice = Driver | Worker nat

record byteSlice =
  arr :: nat
  lo :: nat
  hi :: nat

definition len_slice :: "byteSlice \<Rightarrow> nat" where
  "len_slice s = hi s - lo s"

definition slice_to :: "byteSlice \<Rightarrow> nat \<Rightarrow> byteSlice" where
  "slice_to s n = s\<lparr>hi := lo s + n\<rparr>"

definition slice_from :: "byteSlice \<Rightarrow> nat \<Rightarrow> byteSlice" where
  "slice_from s n = s\<lparr>lo := lo s + n\<rparr>"

definition bytes_of :: "(nat \<Rightarrow> byte list) \<Rightarrow> byteSlice \<Rightarrow> byte list" where
  "bytes_of m s = take (hi s - lo s) (drop (lo s) (m (arr s)))"

datatype page = Copied "byte list" | Borrowed byteSlice

fun page_bytes :: "(nat \<Rightarrow> byte list) \<Rightarrow> page \<Rightarrow> byte list" where
  "page_bytes m (Copied b) = b"
| "page_bytes m (Borrowed s) = bytes_of m s"

record hashTask =
  Input :: page
  Output :: nat

record pooled =
  p_buffer :: "byte list"
  p_pageHashes :: "nat list"
  p_blobID :: "byte list"
  tasks :: "hashTask list"
  tasks_cap :: nat
  workers :: "hashTask option list"
  outputs :: "byte list option list"
  schedule :: "choice list"
  mem :: "nat \<Rightarrow> byte list"

definition can_step :: "pooled \<Rightarrow> nat \<Rightarrow> bool" where
  "can_step s w \<longleftrightarrow> w < length (workers s) \<and> (workers s ! w \<noteq> None \<or> tasks s \<noteq> [])"

definition worker_step :: "pooled \<Rightarrow> nat \<Rightarrow> pooled" where
  "worker_step s w =
    (case workers s ! w of
       None \<Rightarrow>
         (case tasks s of
            [] \<Rightarrow> s
          | t # ts \<Rightarrow> s\<lparr>tasks := ts, workers := (workers s)[w := Some t]\<rparr>)
     | Some t \<Rightarrow>
         s\<lparr>outputs := (outputs s)[Output t := Some (Sum256 (page_bytes (mem s) (Input t)))],
           workers := (workers s)[w := None]\<rparr>)"

fun held :: "hashTask option list \<Rightarrow> hashTask list" where
  "held [] = []"
| "held (None # ws) = held ws"
| "held (Some t # ws) = t # held ws"

definition in_flight :: "pooled \<Rightarrow> hashTask list" where
  "in_flight s = tasks s @ held (workers s)"

definition work_left :: "pooled \<Rightarrow> nat" where
  "work_left s = length (schedule s) + 2 * length (tasks s) + length (held (workers s))"

lemma held_append [simp]: "held (xs @ ys) = held xs @ held ys"
  by (induction xs rule: held.induct) simp_all

lemma held_idle:
  assumes "w < length ws" and "ws ! w = Some t"
  shows "held ws = held (take w ws) @ t # held (drop (Suc w) ws)"
    and "held (ws[w := None]) = held (take w ws) @ held (drop (Suc w) ws)"
proof -
  have "ws = take w ws @ Some t # drop (Suc w) ws"
    by (simp only: assms(2) [symmetric]) (rule id_take_nth_drop [OF assms(1)])
  then have "held ws = held (take w ws @ Some t # drop (Suc w) ws)"
    by simp
  then show "held ws = held (take w ws) @ t # held (drop (Suc w) ws)"
    by simp
  have "ws[w := None] = take w ws @ None # drop (Suc w) ws"
    using assms by (simp add: upd_conv_take_nth_drop)
  then show "held (ws[w := None]) = held (take w ws) @ held (drop (Suc w) ws)"
    by simp
qed

lemma held_take:
  assumes "w < length ws" and "ws ! w = None"
  shows "held ws = held (take w ws) @ held (drop (Suc w) ws)"
    and "held (ws[w := Some t]) = held (take w ws) @ t # held (drop (Suc w) ws)"
proof -
  have "ws = take w ws @ None # drop (Suc w) ws"
    by (simp only: assms(2) [symmetric]) (rule id_take_nth_drop [OF assms(1)])
  then have "held ws = held (take w ws @ None # drop (Suc w) ws)"
    by simp
  then show "held ws = held (take w ws) @ held (drop (Suc w) ws)"
    by simp
  have "ws[w := Some t] = take w ws @ Some t # drop (Suc w) ws"
    using assms by (simp add: upd_conv_take_nth_drop)
  then show "held (ws[w := Some t]) = held (take w ws) @ t # held (drop (Suc w) ws)"
    by simp
qed

lemma work_left_worker_step:
  assumes "can_step s w"
  shows "work_left (worker_step s w) < work_left s"
proof (cases "workers s ! w")
  case None
  with assms obtain t ts where "tasks s = t # ts"
    by (cases "tasks s") (auto simp add: can_step_def)
  with None assms show ?thesis
    by (simp add: can_step_def worker_step_def work_left_def held_take)
next
  case (Some t)
  with assms show ?thesis
    by (simp add: can_step_def worker_step_def work_left_def held_idle)
qed

lemma schedule_worker_step [simp]: "schedule (worker_step s w) = schedule s"
  by (simp add: worker_step_def split: option.splits list.splits)

lemma work_left_skip: "schedule s = c # cs \<Longrightarrow> work_left (s\<lparr>schedule := cs\<rparr>) < work_left s"
  by (simp add: work_left_def)

lemma work_left_scheduled:
  assumes "can_step s w" and "schedule s = c # cs"
  shows "work_left (worker_step (s\<lparr>schedule := cs\<rparr>) w) < work_left s"
proof -
  have "can_step (s\<lparr>schedule := cs\<rparr>) w"
    using assms(1) by (simp add: can_step_def)
  then have "work_left (worker_step (s\<lparr>schedule := cs\<rparr>) w) < work_left (s\<lparr>schedule := cs\<rparr>)"
    by (rule work_left_worker_step)
  also have "\<dots> < work_left s"
    using assms(2) by (rule work_left_skip)
  finally show ?thesis .
qed

lemma work_left_default:
  assumes "filter (can_step s) [0..<length (workers s)] = w # ws"
  shows "work_left (worker_step s w) < work_left s"
proof -
  have "w \<in> set (filter (can_step s) [0..<length (workers s)])"
    using assms by simp
  then have "can_step s w"
    by simp
  then show ?thesis
    by (rule work_left_worker_step)
qed

function await :: "(pooled \<Rightarrow> bool) \<Rightarrow> pooled \<Rightarrow> error + pooled" where
  "await ready s =
    (case schedule s of
       Driver # cs \<Rightarrow>
         if ready s then Inr (s\<lparr>schedule := cs\<rparr>) else await ready (s\<lparr>schedule := cs\<rparr>)
     | Worker w # cs \<Rightarrow>
         if can_step s w then await ready (worker_step (s\<lparr>schedule := cs\<rparr>) w)
         else await ready (s\<lparr>schedule := cs\<rparr>)
     | [] \<Rightarrow>
         if ready s then Inr s
         else
           (case filter (can_step s) [0..<length (workers s)] of
              [] \<Rightarrow> Inl Deadlock
            | w # ws \<Rightarrow> await ready (worker_step s w)))"
  by pat_completeness auto


termination
  by (relation "measure (\<lambda>(ready, s). work_left s)")
     (auto simp add: work_left_skip work_left_scheduled work_left_default)

declare await.simps [simp del]


definition send :: "pooled \<Rightarrow> hashTask \<Rightarrow> error + pooled" where
  "send s t =
    (case await (\<lambda>s. length (tasks s) < tasks_cap s) s of
       Inl e \<Rightarrow> Inl e
     | Inr s1 \<Rightarrow> Inr (s1\<lparr>tasks := tasks s1 @ [t]\<rparr>))"

definition ready_at :: "nat \<Rightarrow> pooled \<Rightarrow> bool" where
  "ready_at c s \<longleftrightarrow> c < length (outputs s) \<and> outputs s ! c \<noteq> None"

definition recv :: "pooled \<Rightarrow> nat \<Rightarrow> error + (byte list \<times> pooled)" where
  "recv s c =
    (case await (ready_at c) s of
       Inl e \<Rightarrow> Inl e
     | Inr s1 \<Rightarrow> Inr (the (outputs s1 ! c), s1\<lparr>outputs := (outputs s1)[c := None]\<rparr>))"

definition NewParallel_pool :: "int \<Rightarrow> choice list \<Rightarrow> (nat \<Rightarrow> byte list) \<Rightarrow> error + pooled" where
  "NewParallel_pool parallelism sched m =
    (if parallelism \<le> 0 then Inl ParallelismNotPositive
     else
       (case makechan parallelism of
          Inl e \<Rightarrow> Inl e
        | Inr cap \<Rightarrow>
            Inr \<lparr>p_buffer = [], p_pageHashes = [], p_blobID = [],
                 tasks = [], tasks_cap = cap,
                 workers = replicate (nat parallelism) None,
                 outputs = [], schedule = sched, mem = m\<rparr>))"

definition updateBlobID_pool :: "pooled \<Rightarrow> byte list \<Rightarrow> pooled" where
  "updateBlobID_pool v h =
    (if length (p_blobID v) = 0 then v\<lparr>p_blobID := (p_blobID v @ seed) @ h\<rparr>
     else
       let b0 = p_blobID v @ [0];
           sum = Sum256 b0
       in v\<lparr>p_blobID := ([] @ sum) @ h\<rparr>)"

fun recv_all :: "pooled \<Rightarrow> nat list \<Rightarrow> byte list \<Rightarrow> error + (byte list \<times> pooled)" where
  "recv_all v [] buf = Inr (buf, v)"
| "recv_all v (page # pages) buf =
    (case recv v page of
       Inl e \<Rightarrow> Inl e
     | Inr (b, v1) \<Rightarrow> recv_all v1 pages (buf @ b))"

definition finishBlock_pool :: "pooled \<Rightarrow> error + pooled" where
  "finishBlock_pool v =
    (case recv_all v (p_pageHashes v) [] of
       Inl e \<Rightarrow> Inl e
     | Inr (buf, v1) \<Rightarrow>
         let v2 = v1\<lparr>p_pageHashes := []\<rparr>;
             h = Sum256 buf
         in Inr (updateBlobID_pool v2 h))"

definition writePage_pool :: "pooled \<Rightarrow> page \<Rightarrow> error + pooled" where
  "writePage_pool v page =
    (let ch = length (outputs v);
         v0 = v\<lparr>outputs := outputs v @ [None]\<rparr>
     in case send v0 \<lparr>Input = page, Output = ch\<rparr> of
          Inl e \<Rightarrow> Inl e
        | Inr v1 \<Rightarrow>
            let v2 = v1\<lparr>p_pageHashes := p_pageHashes v1 @ [ch]\<rparr>
            in if length (p_pageHashes v2) = pagesPerBlock then finishBlock_pool v2 else Inr v2)"

function Write_pool :: "pooled \<Rightarrow> byteSlice \<Rightarrow> error + (nat \<times> pooled)" where
  "Write_pool v inp =
    (if len_slice inp + length (p_buffer v) < PageSize then
       Inr (len_slice inp, v\<lparr>p_buffer := p_buffer v @ bytes_of (mem v) inp\<rparr>)
     else if length (p_buffer v) > 0 then
       (if PageSize < length (p_buffer v) then Inl SliceBoundsOutOfRange
        else
          let n = PageSize - length (p_buffer v);
              v1 = v\<lparr>p_buffer := p_buffer v @ bytes_of (mem v) (slice_to inp n)\<rparr>;
              inp1 = slice_from inp n;
              b = copy (replicate PageSize 0) (p_buffer v1)
          in case writePage_pool v1 (Copied b) of
               Inl e \<Rightarrow> Inl e
             | Inr v2 \<Rightarrow> Write_pool (v2\<lparr>p_buffer := []\<rparr>) inp1)
     else
       (case writePage_pool v (Borrowed (slice_to inp PageSize)) of
          Inl e \<Rightarrow> Inl e
        | Inr v1 \<Rightarrow> Write_pool v1 (slice_from inp PageSize)))"
  by pat_completeness auto
termination
proof (relation "measure (\<lambda>(v, inp). 2 * len_slice inp + (if p_buffer v = [] then 0 else 1))",
    goal_cases)
  case 1
  show ?case by simp
next
  case (2 v inp n v1 inp1 b v2)
  then show ?case by (simp add: len_slice_def slice_from_def)
next
  case (3 v inp v1)
  then have "PageSize \<le> len_slice inp"
    by simp
  with PageSize_pos have "2 * (len_slice inp - PageSize) + 1 < 2 * len_slice inp"
    by arith
  then show ?case
    by (simp add: len_slice_def slice_from_def)
qed

declare Write_pool.simps [simp del]

definition sum_pool :: "pooled \<Rightarrow> error + (byte list \<times> pooled)" where
  "sum_pool v =
    (case (if length (p_buffer v) \<noteq> 0 then writePage_pool v (Copied (p_buffer v)) else Inr v) of
       Inl e \<Rightarrow> Inl e
     | Inr v1 \<Rightarrow>
        (case (if length (p_pageHashes v1) > 0 \<or> length (p_blobID v1) = 0
               then finishBlock_pool v1 else Inr v1) of
           Inl e \<Rightarrow> Inl e
         | Inr v2 \<Rightarrow>
            let v3 = v2\<lparr>p_blobID := p_blobID v2 @ [1]\<rparr>;
                b = Sum256 (p_blobID v3);
                ret = copy (replicate Size 0) b;
                ret1 = ret[Size - 1 := 0]
            in Inr (ret1, v3)))"


text \<open>
  Two callers of the incremental path on the pool. The first holds every chunk in an
  array of its own, chunk \<open>i\<close> in array \<open>i\<close>, and writes nothing after it has filled
  them. The second streams the chunks through one array as a read loop does: when it
  gets its turn (workers run before that, as the schedule says) it copies the next chunk
  into the array (\<^verbatim>\<open>copy(buf, chunk)\<close>) and passes the filled part
  (\<^verbatim>\<open>h.Write(buf[:len(chunk)])\<close>, which panics for a chunk longer than the array), then
  goes on to the next chunk; \<open>buf\<close> is what the array holds at first.
\<close>

fun writes_pool :: "pooled \<Rightarrow> nat \<Rightarrow> nat list \<Rightarrow> error + pooled" where
  "writes_pool v a [] = Inr v"
| "writes_pool v a (n # ns) =
    (case Write_pool v \<lparr>arr = a, lo = 0, hi = n\<rparr> of
       Inl e \<Rightarrow> Inl e
     | Inr (k, v1) \<Rightarrow> writes_pool v1 (a + 1) ns)"

definition incremental_pool :: "int \<Rightarrow> choice list \<Rightarrow> byte list list \<Rightarrow> error + byte list" where
  "incremental_pool parallelism sched chunks =
    (case NewParallel_pool parallelism sched
            (\<lambda>a. if a < length chunks then chunks ! a else []) of
       Inl e \<Rightarrow> Inl e
     | Inr h \<Rightarrow>
         (case writes_pool h 0 (map length chunks) of
            Inl e \<Rightarrow> Inl e
          | Inr h1 \<Rightarrow>
              (case sum_pool h1 of
                 Inl e \<Rightarrow> Inl e
               | Inr (ident, h2) \<Rightarrow> Inr ident)))"

fun writes_reusing :: "pooled \<Rightarrow> byte list list \<Rightarrow> error + pooled" where
  "writes_reusing v [] = Inr v"
| "writes_reusing v (c # cs) =
    (case await (\<lambda>s. True) v of
       Inl e \<Rightarrow> Inl e
     | Inr v0 \<Rightarrow>
         let v1 = v0\<lparr>mem := (mem v0)(0 := copy (mem v0 0) c)\<rparr>
         in if length (mem v1 0) < length c then Inl SliceBoundsOutOfRange
            else
              (case Write_pool v1 \<lparr>arr = 0, lo = 0, hi = length c\<rparr> of
                 Inl e \<Rightarrow> Inl e
               | Inr (k, v2) \<Rightarrow> writes_reusing v2 cs))"

definition incremental_reusing ::
    "int \<Rightarrow> choice list \<Rightarrow> byte list \<Rightarrow> byte list list \<Rightarrow> error + byte list" where
  "incremental_reusing parallelism sched buf chunks =
    (case NewParallel_pool parallelism sched ((\<lambda>a. [])(0 := buf)) of
       Inl e \<Rightarrow> Inl e
     | Inr h \<Rightarrow>
         (case writes_reusing h chunks of
            Inl e \<Rightarrow> Inl e
          | Inr h1 \<Rightarrow>
              (case sum_pool h1 of
                 Inl e \<Rightarrow> Inl e
               | Inr (ident, h2) \<Rightarrow> Inr ident)))"

section \<open>Basic facts\<close>

lemma length_round256 [simp]: "length (round256 s kw) = 8"
  by (simp add: round256_def Let_def)

lemma length_foldl_round256: "length h = 8 \<Longrightarrow> length (foldl round256 h xs) = 8"
  by (induction xs arbitrary: h) simp_all

lemma length_block256: "length h = 8 \<Longrightarrow> length (block256 h p) = 8"
  by (simp add: block256_def Let_def length_foldl_round256)

lemma length_blocks256: "length h = 8 \<Longrightarrow> length (blocks256 h p) = 8"
proof (induction h p rule: blocks256.induct)
  case (1 h p)
  then show ?case
    by (subst blocks256.simps) (simp add: length_block256)
qed

lemma length_be_bytes [simp]: "length (be_bytes n x) = n"
  by (simp add: be_bytes_def)

lemma length_concat_be_bytes: "length (concat (map (be_bytes k) ws)) = k * length ws"
  by (induction ws) simp_all

text \<open>A digest has \<^verbatim>\<open>sha256.Size\<close> bytes.\<close>

lemma length_Sum256 [simp]: "length (Sum256 m) = 32"
proof -
  have "length (blocks256 init256 (pad256 m)) = 8"
    by (rule length_blocks256) (simp add: init256_def)
  then show ?thesis
    by (simp add: Sum256_def length_concat_be_bytes)
qed

lemma copy_Size: "length b = 32 \<Longrightarrow> (copy (replicate Size 0) b)[Size - 1 := 0] = b @ [0]"
  by (simp add: copy_def Size_def list_update_append)

lemma copy_page: "length b = PageSize \<Longrightarrow> copy (replicate PageSize 0) b = b"
  by (simp add: copy_def)

lemma foldl_append_concat: "foldl (\<lambda>buf b. buf @ b) acc xs = acc @ concat xs"
  by (induction xs arbitrary: acc) simp_all

lemma Sum256_nonempty [simp]: "Sum256 m \<noteq> []"
proof
  assume "Sum256 m = []"
  then have "length (Sum256 m) = 0"
    by simp
  then show False
    by simp
qed

lemma pagesPerBlock_eq: "pagesPerBlock = 32"
  by (simp add: pagesPerBlock_def BlockSize_def PageSize_def)

lemma maxChanCap_eq: "maxChanCap = 8796093022205"
  by (simp add: maxChanCap_def maxAlloc_def hchanSize_def hashTaskSize_def)

lemma makechan_eq:
  "makechan n =
     (if 0 \<le> n \<and> n \<le> maxChanCap then Inr (nat n) else Inl MakechanSizeOutOfRange)"
  unfolding maxChanCap_eq by (simp add: makechan_def maxAlloc_def hchanSize_def hashTaskSize_def)

lemma NewParallel_eq:
  "NewParallel parallelism =
     (if parallelism \<le> 0 then Inl ParallelismNotPositive
      else if maxChanCap < parallelism then Inl MakechanSizeOutOfRange
      else Inr \<lparr>buffer = [], pageHashes = [], blobID = []\<rparr>)"
  by (simp add: NewParallel_def makechan_eq)

lemma NewParallel_pool_eq:
  "NewParallel_pool parallelism sched m =
     (if parallelism \<le> 0 then Inl ParallelismNotPositive
      else if maxChanCap < parallelism then Inl MakechanSizeOutOfRange
      else Inr \<lparr>p_buffer = [], p_pageHashes = [], p_blobID = [],
                tasks = [], tasks_cap = nat parallelism,
                workers = replicate (nat parallelism) None,
                outputs = [], schedule = sched, mem = m\<rparr>)"
  by (simp add: NewParallel_pool_def makechan_eq)

section \<open>The chain accumulator\<close>

text \<open>
  C2 (chain fold rule). \<open>finishBlock\<close> folds the digest of the concatenated page digests
  into the accumulator \<open>blobID\<close> with \<open>updateBlobID\<close>. Folding a digest \<open>h\<close> into an empty
  accumulator gives the seed literal followed by \<open>h\<close>; folding into a non-empty one gives
  the digest of the old accumulator followed by one zero byte, followed by \<open>h\<close>. The
  block digest has 32 bytes, and nothing else of the state changes.
\<close>

theorem updateBlobID_fold:
  "updateBlobID v h =
     v\<lparr>blobID :=
         (if blobID v = [] then map of_char ''VSO Content Identifier Seed'' @ h
          else Sum256 (blobID v @ [0x00]) @ h)\<rparr>
   \<and> finishBlock v = updateBlobID (v\<lparr>pageHashes := []\<rparr>) (Sum256 (concat (pageHashes v)))
   \<and> length (Sum256 (concat (pageHashes v))) = 32"
  by (simp add: updateBlobID_def finishBlock_def seed_def Let_def foldl_append_concat)

section \<open>Finalization\<close>

lemma length_sum_vso: "length (fst (sum_vso v)) = 33"
  by (simp add: sum_vso_def Let_def copy_Size [simplified])

text \<open>
  C3 (finalization). For every state, \<open>sum_vso\<close> submits the partial page when the
  buffer is not empty: the digest of the buffer joins the pending page digests \<open>hs\<close>. It
  finishes the last block when page digests are pending or the accumulator is still
  empty: the digest of the concatenated \<open>hs\<close> is folded into the accumulator, after the
  seed when the accumulator is empty, after the digest of the accumulator and one 0x00
  byte otherwise, and no page digest is left pending. With \<open>acc\<close> the accumulator so
  obtained, the result is the digest of \<open>acc\<close> followed by one 0x01 byte, followed by the
  constant byte 0x00: 33 bytes, the last of which is zero. The hasher is left with its
  buffer as it was, no pending page and the accumulator \<open>acc\<close> followed by 0x01.
\<close>

theorem sum_vso_final:
  "sum_vso v =
     (let hs = pageHashes v @ (if buffer v = [] then [] else [Sum256 (buffer v)]);
          acc = (if 0 < length hs \<or> blobID v = []
                 then (if blobID v = [] then seed else Sum256 (blobID v @ [0x00]))
                        @ Sum256 (concat hs)
                 else blobID v)
      in (Sum256 (acc @ [0x01]) @ [0x00],
          \<lparr>buffer = buffer v, pageHashes = [], blobID = acc @ [0x01]\<rparr>))
   \<and> length (fst (sum_vso v)) = 33
   \<and> fst (sum_vso v) ! 32 = 0x00
   \<and> last (fst (sum_vso v)) = 0x00"
proof -
  have seed: "seed \<noteq> []"
    by (simp add: seed_def)
  have main: "sum_vso v =
     (let hs = pageHashes v @ (if buffer v = [] then [] else [Sum256 (buffer v)]);
          acc = (if 0 < length hs \<or> blobID v = []
                 then (if blobID v = [] then seed else Sum256 (blobID v @ [0x00]))
                        @ Sum256 (concat hs)
                 else blobID v)
      in (Sum256 (acc @ [0x01]) @ [0x00],
          \<lparr>buffer = buffer v, pageHashes = [], blobID = acc @ [0x01]\<rparr>))"
    by (cases v)
      (simp add: sum_vso_def writePage_def finishBlock_def updateBlobID_def Let_def
        foldl_append_concat copy_Size [simplified] seed)
  have tag: "fst (sum_vso v) ! 32 = 0x00" "last (fst (sum_vso v)) = 0x00"
    by (simp_all add: sum_vso_def Let_def copy_Size [simplified] nth_append)
  show ?thesis
    by (intro conjI main length_sum_vso tag)
qed

section \<open>Construction\<close>




section \<open>The page accumulator\<close>

text \<open>One iteration of the loop of \<^verbatim>\<open>Write\<close>, by the branch it takes.\<close>

lemma writePage_buffer_update: "writePage (v\<lparr>buffer := x\<rparr>) p = (writePage v p)\<lparr>buffer := x\<rparr>"
  by (simp add: writePage_def finishBlock_def updateBlobID_def Let_def)

lemma Write_small:
  "length inp + length (buffer v) < PageSize \<Longrightarrow>
     Write v inp = Inr (length inp, v\<lparr>buffer := buffer v @ inp\<rparr>)"
  by (simp add: Write.simps [of v inp])

lemma Write_panic:
  "\<not> length inp + length (buffer v) < PageSize \<Longrightarrow> PageSize < length (buffer v) \<Longrightarrow>
     Write v inp = Inl SliceBoundsOutOfRange"
  using PageSize_pos by (auto simp add: Write.simps [of v inp])

lemma Write_flush:
  assumes "\<not> length inp + length (buffer v) < PageSize" and "buffer v \<noteq> []"
    and "length (buffer v) \<le> PageSize"
  shows "Write v inp =
     Write ((writePage v (buffer v @ take (PageSize - length (buffer v)) inp))\<lparr>buffer := []\<rparr>)
       (drop (PageSize - length (buffer v)) inp)"
proof -
  have "length (buffer v @ take (PageSize - length (buffer v)) inp) = PageSize"
    using assms by simp
  then have "copy (replicate PageSize 0) (buffer v @ take (PageSize - length (buffer v)) inp)
      = buffer v @ take (PageSize - length (buffer v)) inp"
    by (rule copy_page)
  with assms show ?thesis
    by (simp add: Write.simps [of v inp] Let_def writePage_buffer_update)
qed

lemma Write_direct:
  "\<not> length inp + length (buffer v) < PageSize \<Longrightarrow> buffer v = [] \<Longrightarrow>
     Write v inp = Write (writePage v (take PageSize inp)) (drop PageSize inp)"
  by (simp add: Write.simps [of v inp])

lemma Write_ok:
  "length (buffer v) \<le> PageSize \<Longrightarrow>
     \<exists>n v1. Write v inp = Inr (n, v1) \<and> length (buffer v1) < PageSize"
proof (induction v inp rule: Write.induct)
  case (1 v inp)
  show ?case
  proof (cases "length inp + length (buffer v) < PageSize")
    case True
    then show ?thesis by (simp add: Write_small)
  next
    case over: False
    show ?thesis
    proof (cases "buffer v = []")
      case False
      with over "1.prems" have "\<exists>n v1. Write
          (writePage (v\<lparr>buffer := buffer v @ take (PageSize - length (buffer v)) inp\<rparr>)
             (copy (replicate PageSize 0)
                (buffer (v\<lparr>buffer := buffer v @ take (PageSize - length (buffer v)) inp\<rparr>)))
           \<lparr>buffer := []\<rparr>)
          (drop (PageSize - length (buffer v)) inp) = Inr (n, v1) \<and> length (buffer v1) < PageSize"
        by (intro "1.IH"(1)) simp_all
      with over False "1.prems" show ?thesis
        by (simp add: Write.simps [of v inp] Let_def)
    next
      case True
      with over have "\<exists>n v1. Write (writePage v (take PageSize inp)) (drop PageSize inp) = Inr (n, v1)
          \<and> length (buffer v1) < PageSize"
        by (intro "1.IH"(2)) simp_all
      with over True show ?thesis
        by (simp add: Write_direct)
    qed
  qed
qed

lemma Write_fits:
  assumes fits: "length a + length (buffer v) < PageSize"
  shows "written (Write v (a @ b)) = written (Write (v\<lparr>buffer := buffer v @ a\<rparr>) b)"
proof (cases "length b + (length (buffer v) + length a) < PageSize")
  case True
  then show ?thesis
    by (simp add: Write_small written_def add.commute add.left_commute)
next
  case over: False
  show ?thesis
  proof (cases "a = []")
    case True
    then show ?thesis by simp
  next
    case False
    let ?n = "PageSize - (length (buffer v) + length a)"
    let ?v1 = "v\<lparr>buffer := buffer v @ a\<rparr>"
    have t: "take (PageSize - length (buffer v)) (a @ b) = a @ take ?n b"
      "drop (PageSize - length (buffer v)) (a @ b) = drop ?n b"
      using fits by simp_all
    have r: "Write ?v1 b =
        Write ((writePage v (buffer v @ a @ take ?n b))\<lparr>buffer := []\<rparr>) (drop ?n b)"
      using over fits False by (subst Write_flush) (simp_all add: writePage_buffer_update)
    show ?thesis
    proof (cases "buffer v = []")
      case True
      have w: "Write v (a @ b) = Write (writePage v (take PageSize (a @ b))) (drop PageSize (a @ b))"
        using over True by (intro Write_direct) simp_all
      have noreset: "(writePage v p) \<lparr>buffer := []\<rparr> = writePage v p" for p
        using True by simp
      show ?thesis
        using r t True by (simp add: w noreset)
    next
      case nonempty: False
      have "Write v (a @ b) =
        Write ((writePage v (buffer v @ take (PageSize - length (buffer v)) (a @ b)))\<lparr>buffer := []\<rparr>)
         (drop (PageSize - length (buffer v)) (a @ b))"
        using over fits nonempty by (intro Write_flush) simp_all
      then show ?thesis
        using r t by simp
    qed
  qed
qed

lemma Write_append:
  "written (Write v (a @ b)) =
     (case written (Write v a) of Inl e \<Rightarrow> Inl e | Inr v1 \<Rightarrow> written (Write v1 b))"
proof (induction v a rule: Write.induct)
  case (1 v a)
  show ?case
  proof (cases "length a + length (buffer v) < PageSize")
    case True
    then show ?thesis by (simp add: Write_fits) (simp add: Write_small written_def)
  next
    case over: False
    then have over': "\<not> length (a @ b) + length (buffer v) < PageSize"
      by simp
    show ?thesis
    proof (cases "buffer v = []")
      case nonempty: False
      show ?thesis
      proof (cases "PageSize < length (buffer v)")
        case True
        then show ?thesis
          by (simp add: Write_panic [OF over] Write_panic [OF over'] written_def)
      next
        case False
        let ?n = "PageSize - length (buffer v)"
        let ?v1 = "(writePage v (buffer v @ take ?n a))\<lparr>buffer := []\<rparr>"
        have n: "?n \<le> length a" using over by simp
        have ih: "written (Write ?v1 (drop ?n a @ b)) =
          (case written (Write ?v1 (drop ?n a)) of Inl e \<Rightarrow> Inl e | Inr v1 \<Rightarrow> written (Write v1 b))"
          using "1.IH"(1) [OF over _ _ refl refl refl refl refl] nonempty False n
          by (simp add: copy_page writePage_buffer_update)
        have "Write v a = Write ?v1 (drop ?n a)"
          using over nonempty False by (intro Write_flush) simp_all
        moreover have "Write v (a @ b) = Write ?v1 (drop ?n a @ b)"
          using Write_flush [OF over' nonempty] False n by simp
        ultimately show ?thesis using ih by simp
      qed
    next
      case True
      have n: "PageSize \<le> length a" using over True by simp
      have "Write v a = Write (writePage v (take PageSize a)) (drop PageSize a)"
        using over True by (rule Write_direct)
      moreover have "Write v (a @ b) = Write (writePage v (take PageSize a)) (drop PageSize a @ b)"
        using Write_direct [OF over' True] n by simp
      ultimately show ?thesis
        using "1.IH"(2) [OF over] True by simp
    qed
  qed
qed


lemma writes_concat:
  "length (buffer v) < PageSize \<Longrightarrow> writes v cs = written (Write v (concat cs))"
proof (induction cs arbitrary: v)
  case Nil
  then show ?case by (simp add: Write_small written_def)
next
  case (Cons c cs)
  from Cons.prems obtain n v1 where w: "Write v c = Inr (n, v1)" "length (buffer v1) < PageSize"
    using Write_ok [of v c] by auto
  then have "writes v1 cs = written (Write v1 (concat cs))"
    by (intro Cons.IH)
  with w show ?case
    by (simp add: Write_append) (simp add: written_def)
qed

lemma pageHashes_writePage:
  "pageHashes (writePage v page) =
     (if length (pageHashes v) + 1 = pagesPerBlock then [] else pageHashes v @ [Sum256 page])"
  by (simp add: writePage_def finishBlock_def updateBlobID_def Let_def)

lemma pending_writePage:
  "length (pageHashes v) < pagesPerBlock \<Longrightarrow> length (pageHashes (writePage v page)) < pagesPerBlock"
  by (auto simp add: pageHashes_writePage)

lemma pending_Write:
  "length (pageHashes v) < pagesPerBlock \<Longrightarrow> Write v inp = Inr (n, v1) \<Longrightarrow>
     length (pageHashes v1) < pagesPerBlock"
proof (induction v inp rule: Write.induct)
  case (1 v inp)
  show ?case
  proof (cases "length inp + length (buffer v) < PageSize")
    case True
    with "1.prems" show ?thesis by (auto simp add: Write_small)
  next
    case over: False
    show ?thesis
    proof (cases "buffer v = []")
      case True
      with over "1.prems" "1.IH"(2) show ?thesis
        by (simp add: Write_direct pending_writePage)
    next
      case nonempty: False
      show ?thesis
      proof (cases "PageSize < length (buffer v)")
        case True
        with over "1.prems" show ?thesis by (simp add: Write_panic)
      next
        case False
        let ?n = "PageSize - length (buffer v)"
        let ?v1 = "(writePage v (buffer v @ take ?n inp))\<lparr>buffer := []\<rparr>"
        have "Write v inp = Write ?v1 (drop ?n inp)"
          using over nonempty False by (intro Write_flush) simp_all
        moreover have "length (pageHashes ?v1) < pagesPerBlock"
          using "1.prems"(1) by (simp add: pending_writePage)
        ultimately show ?thesis
          using "1.IH"(1) [OF over _ _ refl refl refl refl refl] nonempty False "1.prems"(2) over
          by (simp add: copy_page writePage_buffer_update)
      qed
    qed
  qed
qed

lemma pending_writes:
  "length (pageHashes v) < pagesPerBlock \<Longrightarrow> writes v cs = Inr v1 \<Longrightarrow>
     length (pageHashes v1) < pagesPerBlock"
proof (induction cs arbitrary: v)
  case Nil
  then show ?case by simp
next
  case (Cons c cs)
  then show ?case
    by (auto split: sum.splits dest: pending_Write)
qed

text \<open>
  With every page taken by value, writing the chunks in order to a fresh hasher and
  finishing gives what the one-shot \<open>Sum\<close> gives on their concatenation, a 33-byte
  identifier.
\<close>

lemma chunking_by_value:
  assumes "0 < gomaxprocs" and "gomaxprocs \<le> maxChanCap"
    and "0 < parallelism" and "parallelism \<le> maxChanCap"
  shows "incremental parallelism chunks = Sum gomaxprocs (concat chunks)
    \<and> (\<exists>ident. Sum gomaxprocs (concat chunks) = Inr ident \<and> length ident = 33)"
proof -
  let ?h = "\<lparr>buffer = [], pageHashes = [], blobID = []\<rparr>"
  obtain n v1 where w: "Write ?h (concat chunks) = Inr (n, v1)"
    using Write_ok [of ?h "concat chunks"] by auto
  have "writes ?h chunks = Inr v1"
    using w by (simp add: writes_concat written_def)
  with assms w show ?thesis
    by (simp add: incremental_def finish_after_def Sum_def New_def NewParallel_eq
        sum_vso_def Let_def copy_Size [simplified])
qed

section \<open>The block boundary\<close>

text \<open>Whole pages written to a hasher with an empty buffer, short of a block.\<close>

lemma Write_pages:
  "length hs + n < pagesPerBlock \<Longrightarrow>
     Write \<lparr>buffer = [], pageHashes = hs, blobID = a\<rparr> (replicate (n * PageSize) x) =
       Inr (0, \<lparr>buffer = [],
                 pageHashes = hs @ replicate n (Sum256 (replicate PageSize x)), blobID = a\<rparr>)"
proof (induction n arbitrary: hs)
  case 0
  then show ?case
    by (simp add: Write_small)
next
  case (Suc n)
  let ?v = "\<lparr>buffer = [], pageHashes = hs, blobID = a\<rparr>"
  let ?d = "Sum256 (replicate PageSize x)"
  have "Write ?v (replicate (Suc n * PageSize) x) =
      Write (writePage ?v (take PageSize (replicate (Suc n * PageSize) x)))
        (drop PageSize (replicate (Suc n * PageSize) x))"
    by (rule Write_direct) simp_all
  also have "writePage ?v (take PageSize (replicate (Suc n * PageSize) x)) =
      \<lparr>buffer = [], pageHashes = hs @ [?d], blobID = a\<rparr>"
    using Suc.prems by (simp add: writePage_def Let_def)
  also have "drop PageSize (replicate (Suc n * PageSize) x) = replicate (n * PageSize) x"
    by simp
  also have "Write \<lparr>buffer = [], pageHashes = hs @ [?d], blobID = a\<rparr> (replicate (n * PageSize) x) =
      Inr (0, \<lparr>buffer = [], pageHashes = (hs @ [?d]) @ replicate n ?d, blobID = a\<rparr>)"
    using Suc.prems by (intro Suc.IH) simp
  finally show ?case
    by (simp add: replicate_app_Cons_same)
qed

lemma replicate_32: "replicate 31 x @ [x] = replicate 32 x"
  by (simp add: numeral_eq_Suc)

lemma writePage_eq:
  "writePage v page =
     (if length (pageHashes v) + 1 = pagesPerBlock
      then v\<lparr>pageHashes := [],
             blobID := (if blobID v = [] then seed else Sum256 (blobID v @ [0x00]))
                         @ Sum256 (concat (pageHashes v @ [Sum256 page]))\<rparr>
      else v\<lparr>pageHashes := pageHashes v @ [Sum256 page]\<rparr>)"
  by (simp add: writePage_def finishBlock_def updateBlobID_def Let_def foldl_append_concat)

text \<open>
  C9 (block-boundary invariant). \<open>pagesPerBlock\<close> is 32. \<open>writePage\<close> appends the handle
  of the page. When that brings the number of pending handles to \<open>pagesPerBlock\<close> it
  finishes the block before it returns: the digest of the 32 concatenated page digests,
  the new one last, is folded into the accumulator \<open>blobID\<close> (after the seed when the
  accumulator is empty, after the digest of the accumulator and one 0x00 byte otherwise)
  and the list of pending handles is emptied. Otherwise the accumulator is left as it
  is. So fewer than \<open>pagesPerBlock\<close> handles are pending after every \<open>writePage\<close>, after
  every \<open>Write\<close> and after every sequence of writes to a fresh hasher. The digest of a
  page is here the digest of the bytes submitted; \<open>pending_writePage_pool\<close> and \<open>sim_mem\<close>
  below give the bound on the pool, where a page can be overwritten before it is hashed.
\<close>

theorem pending_bound:
  "pagesPerBlock = 32
   \<and> writePage v page =
       (if length (pageHashes v) + 1 = pagesPerBlock
        then v\<lparr>pageHashes := [],
               blobID := (if blobID v = [] then seed else Sum256 (blobID v @ [0x00]))
                           @ Sum256 (concat (pageHashes v @ [Sum256 page]))\<rparr>
        else v\<lparr>pageHashes := pageHashes v @ [Sum256 page]\<rparr>)
   \<and> (length (pageHashes v) < pagesPerBlock \<longrightarrow>
        length (pageHashes (writePage v page)) < pagesPerBlock)
   \<and> (\<forall>n v1. length (pageHashes v) < pagesPerBlock \<longrightarrow> Write v inp = Inr (n, v1) \<longrightarrow>
        length (pageHashes v1) < pagesPerBlock)
   \<and> (\<forall>h v1. NewParallel parallelism = Inr h \<longrightarrow> writes h chunks = Inr v1 \<longrightarrow>
        length (pageHashes v1) < pagesPerBlock)"
proof (intro conjI allI impI)
  show "pagesPerBlock = 32"
    by (rule pagesPerBlock_eq)
  show "writePage v page =
       (if length (pageHashes v) + 1 = pagesPerBlock
        then v\<lparr>pageHashes := [],
               blobID := (if blobID v = [] then seed else Sum256 (blobID v @ [0x00]))
                           @ Sum256 (concat (pageHashes v @ [Sum256 page]))\<rparr>
        else v\<lparr>pageHashes := pageHashes v @ [Sum256 page]\<rparr>)"
    by (rule writePage_eq)
  show "length (pageHashes (writePage v page)) < pagesPerBlock"
    if "length (pageHashes v) < pagesPerBlock"
    using that by (rule pending_writePage)
  show "length (pageHashes v1) < pagesPerBlock"
    if "length (pageHashes v) < pagesPerBlock" "Write v inp = Inr (n, v1)" for n v1
    using that by (rule pending_Write)
  show "length (pageHashes v1) < pagesPerBlock"
    if "NewParallel parallelism = Inr h" "writes h chunks = Inr v1" for h v1
  proof -
    from that(1) have "length (pageHashes h) < pagesPerBlock"
      by (auto simp add: NewParallel_eq pagesPerBlock_eq split: if_splits)
    then show ?thesis using that(2) by (rule pending_writes)
  qed
qed

text \<open>
  The bound at the end of a block. A fresh hasher that is written 31 pages of zero bytes
  holds 31 pending handles and an empty accumulator; the next page finishes the block,
  which folds the digest of the 32 page digests after the seed and leaves no handle
  pending. The same 32 pages written as two chunks leave the same state.
\<close>

theorem pending_bound_witness:
  "Write \<lparr>buffer = [], pageHashes = [], blobID = []\<rparr> (replicate (31 * 65536) 0) =
     Inr (0, \<lparr>buffer = [], pageHashes = replicate 31 (Sum256 (replicate 65536 0)), blobID = []\<rparr>)
   \<and> length (pageHashes
        \<lparr>buffer = [], pageHashes = replicate 31 (Sum256 (replicate 65536 0)), blobID = []\<rparr>) = 31
   \<and> writePage
        \<lparr>buffer = [], pageHashes = replicate 31 (Sum256 (replicate 65536 0)), blobID = []\<rparr>
        (replicate 65536 0) =
       \<lparr>buffer = [], pageHashes = [],
          blobID = seed @ Sum256 (concat (replicate 32 (Sum256 (replicate 65536 0))))\<rparr>
   \<and> NewParallel 1 = Inr \<lparr>buffer = [], pageHashes = [], blobID = []\<rparr>
   \<and> writes \<lparr>buffer = [], pageHashes = [], blobID = []\<rparr>
        [replicate (31 * 65536) 0, replicate 65536 0] =
       Inr \<lparr>buffer = [], pageHashes = [],
            blobID = seed @ Sum256 (concat (replicate 32 (Sum256 (replicate 65536 0))))\<rparr>
   \<and> length (pageHashes
        \<lparr>buffer = [], pageHashes = [],
           blobID = seed @ Sum256 (concat (replicate 32 (Sum256 (replicate 65536 0))))\<rparr>)
        < pagesPerBlock"
proof -
  let ?h = "\<lparr>buffer = [], pageHashes = [], blobID = []\<rparr>"
  let ?d = "Sum256 (replicate 65536 0)"
  let ?v = "\<lparr>buffer = [], pageHashes = replicate 31 ?d, blobID = []\<rparr>"
  let ?e = "\<lparr>buffer = [], pageHashes = [], blobID = seed @ Sum256 (concat (replicate 32 ?d))\<rparr>"
  have w31: "Write ?h (replicate (31 * 65536) 0) = Inr (0, ?v)"
    using Write_pages [of "[]" 31 "[]" 0] by (simp add: pagesPerBlock_eq PageSize_def)
  have fresh: "length (pageHashes ?h) < pagesPerBlock"
    by (simp add: pagesPerBlock_eq)
  have l31: "length (pageHashes ?v) = 31"
    by simp
  have r: "replicate 31 ?d @ [?d] = replicate 32 ?d"
    by (rule replicate_32)
  have "writePage ?v (replicate 65536 0) =
       (if length (pageHashes ?v) + 1 = pagesPerBlock
        then ?v\<lparr>pageHashes := [],
               blobID := (if blobID ?v = [] then seed else Sum256 (blobID ?v @ [0x00]))
                           @ Sum256 (concat (pageHashes ?v @ [?d]))\<rparr>
        else ?v\<lparr>pageHashes := pageHashes ?v @ [?d]\<rparr>)"
    using pending_bound [of ?v "replicate 65536 0" "[]" 1 "[]"] by (rule conjunct1 [OF conjunct2])
  then have wp: "writePage ?v (replicate 65536 0) = ?e"
    by (simp add: pagesPerBlock_eq r del: replicate_append_same)
  have w: "Write ?v (replicate 65536 0) = Inr (0, ?e)"
  proof -
    have "Write ?v (replicate 65536 0) =
        Write (writePage ?v (take PageSize (replicate 65536 0))) (drop PageSize (replicate 65536 0))"
      by (rule Write_direct) (simp_all add: PageSize_def)
    also have "\<dots> = Write ?e []"
      by (simp add: PageSize_def wp)
    also have "\<dots> = Inr (0, ?e)"
      by (simp add: Write_small)
    finally show ?thesis .
  qed
  have n: "NewParallel 1 = Inr ?h"
    by (simp add: NewParallel_eq maxChanCap_eq)
  have ws: "writes ?h [replicate (31 * 65536) 0, replicate 65536 0] = Inr ?e"
    using w31 w by simp
  have "length (pageHashes ?v) < pagesPerBlock"
    using pending_bound [of ?h "[]" "replicate (31 * 65536) 0" 1 "[]"] fresh w31 by blast
  moreover have "length (pageHashes ?e) < pagesPerBlock"
    using pending_bound [of ?h "[]" "[]" 1 "[replicate (31 * 65536) 0, replicate 65536 0]"] n ws
    by blast
  ultimately show ?thesis
    using w31 l31 wp n ws by (intro conjI)
qed

section \<open>Reset\<close>

lemma Reset_eq: "Reset v = \<lparr>buffer = [], pageHashes = [], blobID = []\<rparr>"
  by (cases v) (simp add: Reset_def)

text \<open>
  C10 (reset restores the initial state). For every state, also one left by \<open>sum_vso\<close>,
  \<open>Reset\<close> empties the page buffer, the list of pending page handles and the chain
  accumulator; writing any chunks to the reset hasher and finishing gives what the same
  chunks give on a freshly constructed hasher. \<open>NewParallel\<close> constructs one for every
  parallelism from 1 to \<open>maxChanCap\<close>, and the reset hasher is in the state of the hasher
  it returns.
\<close>

theorem Reset_fresh:
  "buffer (Reset v) = [] \<and> pageHashes (Reset v) = [] \<and> blobID (Reset v) = []
   \<and> (0 < parallelism \<and> parallelism \<le> maxChanCap \<longrightarrow>
        finish_after (Reset v) chunks = incremental parallelism chunks)
   \<and> (\<forall>h. NewParallel parallelism = Inr h \<longrightarrow>
        Reset v = h \<and> finish_after (Reset v) chunks = finish_after h chunks)"
  by (auto simp add: Reset_eq incremental_def NewParallel_eq split: if_splits)

theorem Reset_fresh_witness:
  "finish_after (Reset (snd (sum_vso \<lparr>buffer = [1], pageHashes = [], blobID = []\<rparr>))) [[1], [2, 3]]
     = incremental 1 [[1], [2, 3]]
   \<and> NewParallel 1 = Inr \<lparr>buffer = [], pageHashes = [], blobID = []\<rparr>
   \<and> Reset (snd (sum_vso \<lparr>buffer = [1], pageHashes = [], blobID = []\<rparr>)) =
       \<lparr>buffer = [], pageHashes = [], blobID = []\<rparr>"
proof -
  have p: "(0 :: int) < 1 \<and> 1 \<le> maxChanCap"
    by (simp add: maxChanCap_eq)
  have n: "NewParallel 1 = Inr \<lparr>buffer = [], pageHashes = [], blobID = []\<rparr>"
    by (simp add: NewParallel_eq maxChanCap_eq)
  from Reset_fresh [of "snd (sum_vso \<lparr>buffer = [1], pageHashes = [], blobID = []\<rparr>)" 1 "[[1], [2, 3]]"]
    p n show ?thesis
    by blast
qed

section \<open>Determinism of the worker pool\<close>

text \<open>
  Whatever the schedule, a blocked caller is woken: \<open>await\<close> returns once the caller can
  go ahead, provided that some worker can step whenever it cannot.
\<close>

lemma can_step_schedule [simp]: "can_step (s\<lparr>schedule := cs\<rparr>) w = can_step s w"
  by (simp add: can_step_def)

lemma await_total:
  assumes "P s"
    and "\<And>s w. P s \<Longrightarrow> can_step s w \<Longrightarrow> P (worker_step s w)"
    and "\<And>s cs. P s \<Longrightarrow> P (s\<lparr>schedule := cs\<rparr>)"
    and "\<And>s. P s \<Longrightarrow> \<not> ready s \<Longrightarrow> \<exists>w. can_step s w"
    and "\<And>s cs. ready (s\<lparr>schedule := cs\<rparr>) = ready s"
  shows "\<exists>s'. await ready s = Inr s' \<and> P s' \<and> ready s'"
  using assms
proof (induction ready s rule: await.induct)
  case (1 ready s)
  note step = "1.prems"(2) and sched = "1.prems"(3) and progress = "1.prems"(4)
    and ready_sched = "1.prems"(5)
  show ?case
  proof (cases "schedule s")
    case Nil
    show ?thesis
    proof (cases "ready s")
      case True
      with Nil "1.prems"(1) show ?thesis
        by (simp add: await.simps [of ready s])
    next
      case False
      with progress "1.prems"(1) obtain w where w: "can_step s w"
        by blast
      then have "w \<in> set (filter (can_step s) [0..<length (workers s)])"
        by (simp add: can_step_def)
      then obtain w' ws where f: "filter (can_step s) [0..<length (workers s)] = w' # ws"
        by (cases "filter (can_step s) [0..<length (workers s)]") auto
      then have "w' \<in> set (filter (can_step s) [0..<length (workers s)])"
        by simp
      then have "can_step s w'"
        by simp
      with "1.prems"(1) have "P (worker_step s w')"
        by (rule step)
      then have "\<exists>s'. await ready (worker_step s w') = Inr s' \<and> P s' \<and> ready s'"
        using "1.IH"(1) [OF Nil False f] step sched progress ready_sched by blast
      with Nil False f show ?thesis
        by (simp add: await.simps [of ready s])
    qed
  next
    case (Cons c cs)
    have P': "P (s\<lparr>schedule := cs\<rparr>)"
      using "1.prems"(1) by (rule sched)
    show ?thesis
    proof (cases c)
      case Driver
      show ?thesis
      proof (cases "ready s")
        case True
        with Cons Driver P' ready_sched show ?thesis
          by (simp add: await.simps [of ready s])
      next
        case False
        have "\<exists>s'. await ready (s\<lparr>schedule := cs\<rparr>) = Inr s' \<and> P s' \<and> ready s'"
          using "1.IH"(2) [OF Cons Driver False P'] step sched progress ready_sched by blast
        with Cons Driver False show ?thesis
          by (simp add: await.simps [of ready s])
      qed
    next
      case (Worker w)
      show ?thesis
      proof (cases "can_step s w")
        case True
        then have "P (worker_step (s\<lparr>schedule := cs\<rparr>) w)"
          using P' by (intro step) simp_all
        then have "\<exists>s'. await ready (worker_step (s\<lparr>schedule := cs\<rparr>) w) = Inr s' \<and> P s' \<and> ready s'"
          using "1.IH"(3) [OF Cons Worker True] step sched progress ready_sched by blast
        with Cons Worker True show ?thesis
          by (simp add: await.simps [of ready s])
      next
        case False
        have "\<exists>s'. await ready (s\<lparr>schedule := cs\<rparr>) = Inr s' \<and> P s' \<and> ready s'"
          using "1.IH"(4) [OF Cons Worker False P'] step sched progress ready_sched by blast
        with Cons Worker False show ?thesis
          by (simp add: await.simps [of ready s])
      qed
    qed
  qed
qed

text \<open>
  The pool is well formed when it has as many workers as the capacity of \<open>tasks\<close>, at
  least one, and the tasks in flight write to distinct channels that are still empty.
  A handle resolves to a digest when its channel holds it or a task in flight will send
  it, the memory being what it is now. \<open>sim\<close> relates the pooled hasher to the hasher of
  the first sections.
\<close>

definition pool_ok :: "pooled \<Rightarrow> bool" where
  "pool_ok s \<longleftrightarrow>
     0 < tasks_cap s \<and> length (workers s) = tasks_cap s \<and>
     distinct (map Output (in_flight s)) \<and>
     (\<forall>t \<in> set (in_flight s). Output t < length (outputs s) \<and> outputs s ! Output t = None)"

definition resolves :: "pooled \<Rightarrow> nat \<Rightarrow> byte list \<Rightarrow> bool" where
  "resolves s c d \<longleftrightarrow>
     c < length (outputs s) \<and>
     (outputs s ! c = Some d \<or>
      (\<exists>t \<in> set (in_flight s). Output t = c \<and> Sum256 (page_bytes (mem s) (Input t)) = d))"

definition sim :: "pooled \<Rightarrow> vsoHash \<Rightarrow> bool" where
  "sim s v \<longleftrightarrow>
     pool_ok s \<and> p_buffer s = buffer v \<and> p_blobID s = blobID v \<and>
     distinct (p_pageHashes s) \<and> list_all2 (resolves s) (p_pageHashes s) (pageHashes v)"

text \<open>What no worker touches: the fields of the calling goroutine, and the memory.\<close>

definition driver_eq :: "pooled \<Rightarrow> pooled \<Rightarrow> bool" where
  "driver_eq s s' \<longleftrightarrow>
     p_buffer s' = p_buffer s \<and> p_pageHashes s' = p_pageHashes s \<and> p_blobID s' = p_blobID s \<and>
     tasks_cap s' = tasks_cap s \<and> length (outputs s') = length (outputs s) \<and> mem s' = mem s"

lemma worker_take:
  assumes "w < length (workers s)" and "workers s ! w = None" and "tasks s = t # ts"
  shows "worker_step s w = s\<lparr>tasks := ts, workers := (workers s)[w := Some t]\<rparr>"
    and "\<exists>A B. in_flight s = t # ts @ A @ B \<and> in_flight (worker_step s w) = ts @ A @ t # B"
proof -
  show e: "worker_step s w = s\<lparr>tasks := ts, workers := (workers s)[w := Some t]\<rparr>"
    using assms by (simp add: worker_step_def)
  have "in_flight s = t # ts @ held (take w (workers s)) @ held (drop (Suc w) (workers s))"
    using assms held_take(1) [of w "workers s"] by (simp add: in_flight_def)
  moreover have "in_flight (worker_step s w) =
      ts @ held (take w (workers s)) @ t # held (drop (Suc w) (workers s))"
    using assms held_take(2) [of w "workers s" t] by (simp add: e in_flight_def)
  ultimately show "\<exists>A B. in_flight s = t # ts @ A @ B \<and> in_flight (worker_step s w) = ts @ A @ t # B"
    by blast
qed

lemma worker_deliver:
  assumes "w < length (workers s)" and "workers s ! w = Some t"
  shows "worker_step s w =
      s\<lparr>outputs := (outputs s)[Output t := Some (Sum256 (page_bytes (mem s) (Input t)))],
        workers := (workers s)[w := None]\<rparr>"
    and "\<exists>A B. in_flight s = A @ t # B \<and> in_flight (worker_step s w) = A @ B"
proof -
  show e: "worker_step s w =
      s\<lparr>outputs := (outputs s)[Output t := Some (Sum256 (page_bytes (mem s) (Input t)))],
        workers := (workers s)[w := None]\<rparr>"
    using assms by (simp add: worker_step_def)
  have "in_flight s = (tasks s @ held (take w (workers s))) @ t # held (drop (Suc w) (workers s))"
    using assms held_idle(1) [of w "workers s" t] by (simp add: in_flight_def)
  moreover have "in_flight (worker_step s w) =
      (tasks s @ held (take w (workers s))) @ held (drop (Suc w) (workers s))"
    using assms held_idle(2) [of w "workers s" t] by (simp add: e in_flight_def)
  ultimately show "\<exists>A B. in_flight s = A @ t # B \<and> in_flight (worker_step s w) = A @ B"
    by blast
qed

lemma driver_eq_worker_step: "driver_eq s (worker_step s w)"
  by (simp add: driver_eq_def worker_step_def split: option.splits list.splits)

lemma driver_eq_refl [simp]: "driver_eq s s"
  by (simp add: driver_eq_def)

lemma driver_eq_trans: "driver_eq s s1 \<Longrightarrow> driver_eq s1 s2 \<Longrightarrow> driver_eq s s2"
  by (simp add: driver_eq_def)

lemma pool_ok_worker_step:
  assumes "pool_ok s" and "can_step s w"
  shows "pool_ok (worker_step s w)"
proof (cases "workers s ! w")
  case None
  with assms obtain t ts where ts: "tasks s = t # ts"
    by (cases "tasks s") (auto simp add: can_step_def)
  from assms(2) have w: "w < length (workers s)"
    by (simp add: can_step_def)
  from worker_take(2) [OF w None ts] obtain A B where
    f: "in_flight s = t # ts @ A @ B" "in_flight (worker_step s w) = ts @ A @ t # B"
    by blast
  have o: "outputs (worker_step s w) = outputs s" "tasks_cap (worker_step s w) = tasks_cap s"
    "length (workers (worker_step s w)) = length (workers s)"
    by (simp_all add: worker_take(1) [OF w None ts])
  from assms(1) show ?thesis
    unfolding pool_ok_def o f by auto
next
  case (Some t)
  from assms(2) have w: "w < length (workers s)"
    by (simp add: can_step_def)
  from worker_deliver(2) [OF w Some] obtain A B where
    f: "in_flight s = A @ t # B" "in_flight (worker_step s w) = A @ B"
    by blast
  have o: "outputs (worker_step s w) =
      (outputs s)[Output t := Some (Sum256 (page_bytes (mem s) (Input t)))]"
    "tasks_cap (worker_step s w) = tasks_cap s"
    "length (workers (worker_step s w)) = length (workers s)"
    by (simp_all add: worker_deliver(1) [OF w Some])
  from assms(1) show ?thesis
    unfolding pool_ok_def o f by (auto simp add: nth_list_update)
qed

lemma resolves_worker_step:
  assumes "pool_ok s" and "can_step s w" and "resolves s c d"
  shows "resolves (worker_step s w) c d"
proof (cases "workers s ! w")
  case None
  with assms obtain t ts where ts: "tasks s = t # ts"
    by (cases "tasks s") (auto simp add: can_step_def)
  from assms(2) have w: "w < length (workers s)"
    by (simp add: can_step_def)
  from worker_take(2) [OF w None ts] obtain A B where
    f: "in_flight s = t # ts @ A @ B" "in_flight (worker_step s w) = ts @ A @ t # B"
    by blast
  have o: "outputs (worker_step s w) = outputs s" "mem (worker_step s w) = mem s"
    by (simp_all add: worker_take(1) [OF w None ts])
  from assms(3) show ?thesis
    unfolding resolves_def o f by auto
next
  case (Some t)
  from assms(2) have w: "w < length (workers s)"
    by (simp add: can_step_def)
  from worker_deliver(2) [OF w Some] obtain A B where
    f: "in_flight s = A @ t # B" "in_flight (worker_step s w) = A @ B"
    by blast
  have o: "outputs (worker_step s w) =
      (outputs s)[Output t := Some (Sum256 (page_bytes (mem s) (Input t)))]"
    "mem (worker_step s w) = mem s"
    by (simp_all add: worker_deliver(1) [OF w Some])
  from assms(1) have t: "Output t < length (outputs s)" "outputs s ! Output t = None"
    unfolding pool_ok_def f by auto
  from assms(3) t show ?thesis
    unfolding resolves_def o f by (auto simp add: nth_list_update)
qed

lemma in_flight_worker_step:
  assumes "can_step s w"
  shows "set (in_flight (worker_step s w)) \<subseteq> set (in_flight s)"
proof (cases "workers s ! w")
  case None
  with assms obtain t ts where ts: "tasks s = t # ts"
    by (cases "tasks s") (auto simp add: can_step_def)
  from assms have w: "w < length (workers s)"
    by (simp add: can_step_def)
  from worker_take(2) [OF w None ts] show ?thesis
    by auto
next
  case (Some t)
  from assms have w: "w < length (workers s)"
    by (simp add: can_step_def)
  from worker_deliver(2) [OF w Some] show ?thesis
    by auto
qed

lemma outputs_worker_step:
  assumes "can_step s w" and "\<forall>t \<in> set (in_flight s). Output t \<noteq> c"
  shows "outputs (worker_step s w) ! c = outputs s ! c"
proof (cases "workers s ! w")
  case None
  then show ?thesis
    by (simp add: worker_step_def split: list.splits)
next
  case (Some t)
  from assms have w: "w < length (workers s)"
    by (simp add: can_step_def)
  from worker_deliver(2) [OF w Some] have "t \<in> set (in_flight s)"
    by auto
  with assms(2) have "Output t \<noteq> c"
    by blast
  then show ?thesis
    by (simp add: worker_deliver(1) [OF w Some])
qed

lemma in_flight_schedule [simp]: "in_flight (s\<lparr>schedule := cs\<rparr>) = in_flight s"
  by (simp add: in_flight_def)

lemma pool_ok_schedule [simp]: "pool_ok (s\<lparr>schedule := cs\<rparr>) = pool_ok s"
  by (simp add: pool_ok_def)

lemma resolves_schedule [simp]: "resolves (s\<lparr>schedule := cs\<rparr>) = resolves s"
  by (simp add: resolves_def fun_eq_iff)

lemma driver_eq_schedule [simp]: "driver_eq s (s'\<lparr>schedule := cs\<rparr>) = driver_eq s s'"
  by (simp add: driver_eq_def)

lemma worker_can_step:
  assumes "pool_ok s" and "tasks s \<noteq> []"
  shows "can_step s 0"
  using assms by (auto simp add: pool_ok_def can_step_def)

lemma held_nth: "t \<in> set (held ws) \<Longrightarrow> \<exists>w < length ws. ws ! w = Some t"
proof (induction ws rule: held.induct)
  case 1
  then show ?case by simp
next
  case (2 ws)
  then obtain w where "w < length ws" "ws ! w = Some t"
    by auto
  then have "Suc w < length (None # ws) \<and> (None # ws) ! Suc w = Some t"
    by simp
  then show ?case by blast
next
  case (3 t' ws)
  show ?case
  proof (cases "t = t'")
    case True
    then have "0 < length (Some t' # ws) \<and> (Some t' # ws) ! 0 = Some t"
      by simp
    then show ?thesis by blast
  next
    case False
    with 3 obtain w where "w < length ws" "ws ! w = Some t"
      by auto
    then have "Suc w < length (Some t' # ws) \<and> (Some t' # ws) ! Suc w = Some t"
      by simp
    then show ?thesis by blast
  qed
qed

lemma in_flight_can_step:
  assumes "pool_ok s" and "t \<in> set (in_flight s)"
  shows "\<exists>w. can_step s w"
proof (cases "tasks s = []")
  case False
  with assms(1) have "can_step s 0"
    by (rule worker_can_step)
  then show ?thesis ..
next
  case True
  with assms(2) have "t \<in> set (held (workers s))"
    by (simp add: in_flight_def)
  then obtain w where "w < length (workers s)" "workers s ! w = Some t"
    using held_nth by blast
  then have "can_step s w"
    by (simp add: can_step_def)
  then show ?thesis ..
qed

lemma send_ok:
  assumes ok: "pool_ok s"
    and fresh: "\<forall>t \<in> set (in_flight s). Output t \<noteq> Output t0"
    and ch: "Output t0 < length (outputs s)" "outputs s ! Output t0 = None"
  shows "\<exists>s'. send s t0 = Inr s' \<and> pool_ok s' \<and> driver_eq s s' \<and>
           (\<forall>c d. resolves s c d \<longrightarrow> resolves s' c d) \<and>
           resolves s' (Output t0) (Sum256 (page_bytes (mem s) (Input t0)))"
proof -
  define P where "P s1 \<longleftrightarrow> pool_ok s1 \<and> driver_eq s s1 \<and>
      (\<forall>t \<in> set (in_flight s1). Output t \<noteq> Output t0) \<and> outputs s1 ! Output t0 = None \<and>
      (\<forall>c d. resolves s c d \<longrightarrow> resolves s1 c d)" for s1
  have "\<exists>s1. await (\<lambda>s. length (tasks s) < tasks_cap s) s = Inr s1 \<and> P s1 \<and>
      length (tasks s1) < tasks_cap s1"
  proof (rule await_total)
    show "P s"
      using ok fresh ch by (simp add: P_def)
  next
    fix s1 w
    assume p: "P s1" and c: "can_step s1 w"
    have "driver_eq s (worker_step s1 w)"
      using p driver_eq_worker_step [of s1 w] unfolding P_def by (blast intro: driver_eq_trans)
    moreover have "\<forall>t \<in> set (in_flight (worker_step s1 w)). Output t \<noteq> Output t0"
      using p in_flight_worker_step [OF c] unfolding P_def by blast
    moreover have "outputs (worker_step s1 w) ! Output t0 = None"
      using p outputs_worker_step [OF c, of "Output t0"] unfolding P_def by simp
    ultimately show "P (worker_step s1 w)"
      using p c unfolding P_def by (simp add: pool_ok_worker_step resolves_worker_step)
  next
    fix s1 cs
    assume "P s1"
    then show "P (s1\<lparr>schedule := cs\<rparr>)"
      by (simp add: P_def)
  next
    fix s1
    assume p: "P s1" and n: "\<not> length (tasks s1) < tasks_cap s1"
    then have "tasks s1 \<noteq> []"
      by (auto simp add: P_def pool_ok_def)
    with p have "can_step s1 0"
      unfolding P_def by (blast intro: worker_can_step)
    then show "\<exists>w. can_step s1 w" ..
  next
    fix s1 :: pooled and cs
    show "(length (tasks (s1\<lparr>schedule := cs\<rparr>)) < tasks_cap (s1\<lparr>schedule := cs\<rparr>))
        = (length (tasks s1) < tasks_cap s1)"
      by simp
  qed
  then obtain s1 where a: "await (\<lambda>s. length (tasks s) < tasks_cap s) s = Inr s1" and p: "P s1"
    by blast
  let ?s' = "s1\<lparr>tasks := tasks s1 @ [t0]\<rparr>"
  have f: "in_flight ?s' = tasks s1 @ t0 # held (workers s1)"
    "in_flight s1 = tasks s1 @ held (workers s1)"
    by (simp_all add: in_flight_def)
  have d: "driver_eq s s1"
    using p by (simp add: P_def)
  have "pool_ok ?s'"
    using p ch d unfolding P_def pool_ok_def f by (auto simp add: driver_eq_def)
  moreover have "driver_eq s ?s'"
    using d by (simp add: driver_eq_def)
  moreover have "resolves ?s' c d" if "resolves s c d" for c d
  proof -
    from that p have "resolves s1 c d"
      by (simp add: P_def)
    then show ?thesis
      unfolding resolves_def f by auto
  qed
  moreover have "resolves ?s' (Output t0) (Sum256 (page_bytes (mem s) (Input t0)))"
    using ch d unfolding resolves_def f by (auto simp add: driver_eq_def)
  ultimately show ?thesis
    using a by (simp add: send_def)
qed

lemma nth_update_None: "xs ! j = None \<Longrightarrow> j < length xs \<Longrightarrow> (xs[i := None]) ! j = None"
  by (cases "i = j") simp_all

lemma recv_ok:
  assumes ok: "pool_ok s" and r: "resolves s c d"
  shows "\<exists>s'. recv s c = Inr (d, s') \<and> pool_ok s' \<and> driver_eq s s' \<and>
           (\<forall>c' d'. c' \<noteq> c \<longrightarrow> resolves s c' d' \<longrightarrow> resolves s' c' d')"
proof -
  define P where "P s1 \<longleftrightarrow> pool_ok s1 \<and> driver_eq s s1 \<and>
      (\<forall>c d. resolves s c d \<longrightarrow> resolves s1 c d)" for s1
  have "\<exists>s1. await (ready_at c) s = Inr s1 \<and> P s1 \<and> ready_at c s1"
  proof (rule await_total)
    show "P s"
      using ok by (simp add: P_def)
  next
    fix s1 w
    assume p: "P s1" and c: "can_step s1 w"
    have "driver_eq s (worker_step s1 w)"
      using p driver_eq_worker_step [of s1 w] unfolding P_def by (blast intro: driver_eq_trans)
    then show "P (worker_step s1 w)"
      using p c unfolding P_def by (simp add: pool_ok_worker_step resolves_worker_step)
  next
    fix s1 cs
    assume "P s1"
    then show "P (s1\<lparr>schedule := cs\<rparr>)"
      by (simp add: P_def)
  next
    fix s1
    assume p: "P s1" and n: "\<not> ready_at c s1"
    from p r have "resolves s1 c d"
      by (simp add: P_def)
    with n obtain t where "t \<in> set (in_flight s1)"
      by (auto simp add: resolves_def ready_at_def)
    with p show "\<exists>w. can_step s1 w"
      unfolding P_def by (blast intro: in_flight_can_step)
  next
    fix s1 :: pooled and cs
    show "ready_at c (s1\<lparr>schedule := cs\<rparr>) = ready_at c s1"
      by (simp add: ready_at_def)
  qed
  then obtain s1 where a: "await (ready_at c) s = Inr s1" and p: "P s1" and rdy: "ready_at c s1"
    by blast
  let ?s' = "s1\<lparr>outputs := (outputs s1)[c := None]\<rparr>"
  have f: "in_flight ?s' = in_flight s1"
    by (simp add: in_flight_def)
  from p r have r1: "resolves s1 c d" and ok1: "pool_ok s1" and d: "driver_eq s s1"
    by (simp_all add: P_def)
  from r1 rdy ok1 have v: "outputs s1 ! c = Some d"
    by (auto simp add: resolves_def ready_at_def pool_ok_def)
  have "pool_ok ?s'"
    using ok1 unfolding pool_ok_def f by (auto simp add: nth_update_None)
  moreover have "driver_eq s ?s'"
    using d by (simp add: driver_eq_def)
  moreover have "resolves ?s' c' d'" if "c' \<noteq> c" "resolves s c' d'" for c' d'
  proof -
    from that p have "resolves s1 c' d'"
      by (simp add: P_def)
    with that(1) show ?thesis
      unfolding resolves_def f by auto
  qed
  ultimately show ?thesis
    using a v by (simp add: recv_def)
qed

lemma in_flight_driver [simp]:
  "in_flight (s\<lparr>p_buffer := b\<rparr>) = in_flight s"
  "in_flight (s\<lparr>p_pageHashes := hs\<rparr>) = in_flight s"
  "in_flight (s\<lparr>p_blobID := a\<rparr>) = in_flight s"
  by (simp_all add: in_flight_def)

lemma pool_ok_driver [simp]:
  "pool_ok (s\<lparr>p_buffer := b\<rparr>) = pool_ok s"
  "pool_ok (s\<lparr>p_pageHashes := hs\<rparr>) = pool_ok s"
  "pool_ok (s\<lparr>p_blobID := a\<rparr>) = pool_ok s"
  by (simp_all add: pool_ok_def)

lemma resolves_driver [simp]:
  "resolves (s\<lparr>p_buffer := b\<rparr>) = resolves s"
  "resolves (s\<lparr>p_pageHashes := hs\<rparr>) = resolves s"
  "resolves (s\<lparr>p_blobID := a\<rparr>) = resolves s"
  by (simp_all add: resolves_def fun_eq_iff)

lemma recv_all_ok:
  assumes "pool_ok s" and "distinct cs" and "list_all2 (resolves s) cs ds"
  shows "\<exists>s'. recv_all s cs buf = Inr (buf @ concat ds, s') \<and> pool_ok s' \<and> driver_eq s s' \<and>
           (\<forall>c d. c \<notin> set cs \<longrightarrow> resolves s c d \<longrightarrow> resolves s' c d)"
  using assms
proof (induction cs arbitrary: s ds buf)
  case Nil
  then show ?case by simp
next
  case (Cons c cs)
  from Cons.prems(3) obtain d ds' where ds: "ds = d # ds'" "resolves s c d"
    "list_all2 (resolves s) cs ds'"
    by (auto simp add: list_all2_Cons1)
  from recv_ok [OF Cons.prems(1) ds(2)] obtain s1 where
    s1: "recv s c = Inr (d, s1)" "pool_ok s1" "driver_eq s s1"
      "\<And>c' d'. c' \<noteq> c \<Longrightarrow> resolves s c' d' \<Longrightarrow> resolves s1 c' d'"
    by blast
  from Cons.prems(2) have dc: "distinct cs" "c \<notin> set cs"
    by simp_all
  have "list_all2 (resolves s1) cs ds'"
    using ds(3)
  proof (rule list.rel_mono_strong)
    fix c' d'
    assume "c' \<in> set cs" "resolves s c' d'"
    with dc(2) show "resolves s1 c' d'"
      by (intro s1(4)) auto
  qed
  from Cons.IH [OF s1(2) dc(1) this, of "buf @ d"] obtain s' where
    s': "recv_all s1 cs (buf @ d) = Inr ((buf @ d) @ concat ds', s')" "pool_ok s'"
      "driver_eq s1 s'" "\<And>c' d'. c' \<notin> set cs \<Longrightarrow> resolves s1 c' d' \<Longrightarrow> resolves s' c' d'"
    by blast
  have "driver_eq s s'"
    using s1(3) s'(3) by (rule driver_eq_trans)
  moreover have "resolves s' c' d'" if "c' \<notin> set (c # cs)" "resolves s c' d'" for c' d'
    using that by (intro s'(4) s1(4)) auto
  ultimately show ?case
    using s1(1) s'(1,2) ds(1) by simp
qed

lemma updateBlobID_pool_sim:
  assumes "sim s v"
  shows "sim (updateBlobID_pool s h) (updateBlobID v h)"
  using assms by (simp add: sim_def updateBlobID_pool_def updateBlobID_def Let_def)

lemma mem_updateBlobID_pool [simp]: "mem (updateBlobID_pool s h) = mem s"
  by (simp add: updateBlobID_pool_def Let_def)

lemma finishBlock_pool_sim:
  assumes "sim s v"
  shows "\<exists>s'. finishBlock_pool s = Inr s' \<and> sim s' (finishBlock v) \<and> mem s' = mem s"
proof -
  from assms have "pool_ok s" "distinct (p_pageHashes s)"
    "list_all2 (resolves s) (p_pageHashes s) (pageHashes v)"
    by (simp_all add: sim_def)
  from recv_all_ok [OF this, of "[]"] obtain s1 where
    s1: "recv_all s (p_pageHashes s) [] = Inr (concat (pageHashes v), s1)" "pool_ok s1"
      "driver_eq s s1"
    by auto
  have "sim (s1\<lparr>p_pageHashes := []\<rparr>) (v\<lparr>pageHashes := []\<rparr>)"
    using assms s1(2,3) by (simp add: sim_def driver_eq_def)
  then have "sim (updateBlobID_pool (s1\<lparr>p_pageHashes := []\<rparr>) (Sum256 (concat (pageHashes v))))
      (updateBlobID (v\<lparr>pageHashes := []\<rparr>) (Sum256 (concat (pageHashes v))))"
    by (rule updateBlobID_pool_sim)
  moreover have "mem s1 = mem s"
    using s1(3) by (simp add: driver_eq_def)
  ultimately show ?thesis
    using s1(1) by (simp add: finishBlock_pool_def finishBlock_def Let_def foldl_append_concat)
qed

lemma writePage_pool_sim:
  assumes "sim s v"
  shows "\<exists>s'. writePage_pool s page = Inr s' \<and> sim s' (writePage v (page_bytes (mem s) page))
           \<and> mem s' = mem s"
proof -
  let ?ch = "length (outputs s)"
  let ?s0 = "s\<lparr>outputs := outputs s @ [None]\<rparr>"
  let ?t = "\<lparr>Input = page, Output = ?ch\<rparr>"
  let ?d = "Sum256 (page_bytes (mem s) page)"
  from assms have ok: "pool_ok s"
    by (simp add: sim_def)
  have f0: "in_flight ?s0 = in_flight s"
    by (simp add: in_flight_def)
  have m0: "mem ?s0 = mem s"
    by simp
  have ok0: "pool_ok ?s0"
    using ok unfolding pool_ok_def f0 by (auto simp add: nth_append)
  have fresh: "\<forall>t \<in> set (in_flight ?s0). Output t \<noteq> Output ?t"
    using ok unfolding pool_ok_def f0 by auto
  have r0: "resolves ?s0 c d" if "resolves s c d" for c d
    using that unfolding resolves_def f0 m0 by (auto simp add: nth_append)
  from send_ok [OF ok0 fresh] obtain s1 where
    s1: "send ?s0 ?t = Inr s1" "pool_ok s1" "driver_eq ?s0 s1"
      "\<And>c d. resolves ?s0 c d \<Longrightarrow> resolves s1 c d"
      "resolves s1 ?ch ?d"
    by auto
  let ?s2 = "s1\<lparr>p_pageHashes := p_pageHashes s1 @ [?ch]\<rparr>"
  let ?v1 = "v\<lparr>pageHashes := pageHashes v @ [?d]\<rparr>"
  have hs: "p_pageHashes s1 = p_pageHashes s"
    using s1(3) by (simp add: driver_eq_def)
  have m1: "mem s1 = mem s"
    using s1(3) by (simp add: driver_eq_def)
  have old: "list_all2 (resolves s1) (p_pageHashes s) (pageHashes v)"
    using assms unfolding sim_def by (blast intro: list_all2_mono r0 s1(4))
  have "\<forall>c \<in> set (p_pageHashes s). c < ?ch"
    using assms unfolding sim_def by (auto simp add: resolves_def list_all2_conv_all_nth in_set_conv_nth)
  then have "?ch \<notin> set (p_pageHashes s)"
    by auto
  then have sim2: "sim ?s2 ?v1"
    using assms s1(2,3,5) old hs
    by (simp add: sim_def driver_eq_def list_all2_appendI)
  have len: "length (p_pageHashes ?s2) = length (pageHashes ?v1)"
    using sim2 by (auto simp add: sim_def dest: list_all2_lengthD)
  show ?thesis
  proof (cases "length (pageHashes ?v1) = pagesPerBlock")
    case True
    from finishBlock_pool_sim [OF sim2] obtain s' where
      "finishBlock_pool ?s2 = Inr s'" "sim s' (finishBlock ?v1)" "mem s' = mem ?s2"
      by blast
    with True len s1(1) m1 show ?thesis
      by (simp add: writePage_pool_def writePage_def Let_def)
  next
    case False
    with len s1(1) sim2 m1 show ?thesis
      by (simp add: writePage_pool_def writePage_def Let_def)
  qed
qed

lemma sim_buffer:
  "sim s v \<Longrightarrow> sim (s\<lparr>p_buffer := b\<rparr>) (v\<lparr>buffer := b\<rparr>)"
  by (simp add: sim_def)

text \<open>Windows on an array that holds them.\<close>

lemma slice_fields [simp]:
  "arr (slice_to sl n) = arr sl" "lo (slice_to sl n) = lo sl" "hi (slice_to sl n) = lo sl + n"
  "arr (slice_from sl n) = arr sl" "lo (slice_from sl n) = lo sl + n" "hi (slice_from sl n) = hi sl"
  by (simp_all add: slice_to_def slice_from_def)

lemma length_bytes_of:
  "lo sl \<le> hi sl \<Longrightarrow> hi sl \<le> length (m (arr sl)) \<Longrightarrow> length (bytes_of m sl) = len_slice sl"
  by (simp add: bytes_of_def len_slice_def)

lemma bytes_of_slice_to:
  "n \<le> len_slice sl \<Longrightarrow> bytes_of m (slice_to sl n) = take n (bytes_of m sl)"
  by (simp add: bytes_of_def len_slice_def min_def)

lemma bytes_of_slice_from:
  "bytes_of m (slice_from sl n) = drop n (bytes_of m sl)"
  by (simp add: bytes_of_def drop_take add.commute)

lemma bytes_of_whole: "bytes_of m \<lparr>arr = a, lo = 0, hi = length (m a)\<rparr> = m a"
  by (simp add: bytes_of_def)

lemma Write_pool_sim:
  assumes "sim s v" and "inp = bytes_of (mem s) sl"
    and "lo sl \<le> hi sl" and "hi sl \<le> length (mem s (arr sl))"
  shows "rel_sum (=) (\<lambda>(n, s') (m, v'). n = m \<and> sim s' v' \<and> mem s' = mem s)
           (Write_pool s sl) (Write v inp)"
  using assms
proof (induction v inp arbitrary: s sl rule: Write.induct)
  case (1 v inp)
  note sim = "1.prems"(1) and inp = "1.prems"(2) and wf = "1.prems"(3,4)
  from sim have b: "p_buffer s = buffer v"
    by (simp add: sim_def)
  have l: "len_slice sl = length inp"
    unfolding inp using wf by (simp add: length_bytes_of)
  show ?case
  proof (cases "length inp + length (buffer v) < PageSize")
    case True
    with b l sim inp show ?thesis
      by (simp add: Write_small Write_pool.simps [of s sl] sim_buffer)
  next
    case over: False
    show ?thesis
    proof (cases "buffer v = []")
      case True
      have n: "PageSize \<le> len_slice sl"
        using over True l by simp
      have pg: "page_bytes (mem s) (Borrowed (slice_to sl PageSize)) = take PageSize inp"
        using n by (simp add: bytes_of_slice_to inp)
      from writePage_pool_sim [OF sim, of "Borrowed (slice_to sl PageSize)"] obtain s1 where
        s1: "writePage_pool s (Borrowed (slice_to sl PageSize)) = Inr s1"
          "sim s1 (writePage v (take PageSize inp))" "mem s1 = mem s"
        unfolding pg by blast
      have "rel_sum (=) (\<lambda>(n, s') (m, v'). n = m \<and> sim s' v' \<and> mem s' = mem s1)
          (Write_pool s1 (slice_from sl PageSize))
          (Write (writePage v (take PageSize inp)) (drop PageSize inp))"
      proof (rule "1.IH"(2))
        show "\<not> length inp + length (buffer v) < PageSize"
          by (rule over)
        show "\<not> 0 < length (buffer v)"
          using True by simp
        show "sim s1 (writePage v (take PageSize inp))"
          by (rule s1(2))
        show "drop PageSize inp = bytes_of (mem s1) (slice_from sl PageSize)"
          by (simp add: s1(3) bytes_of_slice_from inp)
        show "lo (slice_from sl PageSize) \<le> hi (slice_from sl PageSize)"
          using n wf by (simp add: len_slice_def)
        show "hi (slice_from sl PageSize) \<le> length (mem s1 (arr (slice_from sl PageSize)))"
          using wf by (simp add: s1(3))
      qed
      with over True b l s1(1,3) show ?thesis
        by (simp add: Write_direct Write_pool.simps [of s sl])
    next
      case nonempty: False
      show ?thesis
      proof (cases "PageSize < length (buffer v)")
        case True
        with over nonempty b l show ?thesis
          by (simp add: Write_panic Write_pool.simps [of s sl])
      next
        case False
        let ?n = "PageSize - length (buffer v)"
        let ?page = "buffer v @ take ?n inp"
        have n: "?n \<le> len_slice sl"
          using over l by simp
        have len: "length ?page = PageSize"
          using over False by simp
        have tk: "bytes_of (mem s) (slice_to sl ?n) = take ?n inp"
          using n by (simp add: bytes_of_slice_to inp)
        have "sim (s\<lparr>p_buffer := ?page\<rparr>) (v\<lparr>buffer := ?page\<rparr>)"
          using sim by (rule sim_buffer)
        from writePage_pool_sim [OF this, of "Copied ?page"] obtain s2 where
          s2: "writePage_pool (s\<lparr>p_buffer := ?page\<rparr>) (Copied ?page) = Inr s2"
            "sim s2 (writePage (v\<lparr>buffer := ?page\<rparr>) ?page)" "mem s2 = mem s"
          by auto
        let ?v2 = "(writePage v ?page)\<lparr>buffer := []\<rparr>"
        have sim2: "sim (s2\<lparr>p_buffer := []\<rparr>) ?v2"
          using sim_buffer [OF s2(2), of "[]"] by (simp add: writePage_buffer_update)
        have "rel_sum (=) (\<lambda>(n, s') (m, v'). n = m \<and> sim s' v' \<and> mem s' = mem (s2\<lparr>p_buffer := []\<rparr>))
            (Write_pool (s2\<lparr>p_buffer := []\<rparr>) (slice_from sl ?n))
            (Write ((writePage (v\<lparr>buffer := ?page\<rparr>)
                (copy (replicate PageSize 0) (buffer (v\<lparr>buffer := ?page\<rparr>))))\<lparr>buffer := []\<rparr>)
               (drop ?n inp))"
        proof (rule "1.IH"(1) [OF over _ _ refl refl refl refl refl])
          show "0 < length (buffer v)"
            using nonempty by simp
          show "\<not> PageSize < length (buffer v)"
            by (rule False)
          show "sim (s2\<lparr>p_buffer := []\<rparr>)
              ((writePage (v\<lparr>buffer := ?page\<rparr>)
                (copy (replicate PageSize 0) (buffer (v\<lparr>buffer := ?page\<rparr>))))\<lparr>buffer := []\<rparr>)"
            using sim2 len by (simp add: copy_page writePage_buffer_update)
          show "drop ?n inp = bytes_of (mem (s2\<lparr>p_buffer := []\<rparr>)) (slice_from sl ?n)"
            by (simp add: s2(3) bytes_of_slice_from inp)
          show "lo (slice_from sl ?n) \<le> hi (slice_from sl ?n)"
            using n wf by (simp add: len_slice_def)
          show "hi (slice_from sl ?n) \<le> length (mem (s2\<lparr>p_buffer := []\<rparr>) (arr (slice_from sl ?n)))"
            using wf by (simp add: s2(3))
        qed
        then have "rel_sum (=) (\<lambda>(n, s') (m, v'). n = m \<and> sim s' v' \<and> mem s' = mem s)
            (Write_pool (s2\<lparr>p_buffer := []\<rparr>) (slice_from sl ?n)) (Write ?v2 (drop ?n inp))"
          using len by (simp add: copy_page writePage_buffer_update s2(3))
        moreover have "Write v inp = Write ?v2 (drop ?n inp)"
          using over nonempty False by (intro Write_flush) simp_all
        moreover have "Write_pool s sl = Write_pool (s2\<lparr>p_buffer := []\<rparr>) (slice_from sl ?n)"
          using over nonempty False b l s2(1) len tk
          by (simp add: Write_pool.simps [of s sl] Let_def copy_page)
        ultimately show ?thesis
          by simp
      qed
    qed
  qed
qed

lemma sum_pool_sim:
  assumes "sim s v"
  shows "\<exists>s'. sum_pool s = Inr (fst (sum_vso v), s') \<and> sim s' (snd (sum_vso v))"
proof -
  define v1 where "v1 = (if length (buffer v) \<noteq> 0 then writePage v (buffer v) else v)"
  define v2 where
    "v2 = (if length (pageHashes v1) > 0 \<or> length (blobID v1) = 0 then finishBlock v1 else v1)"
  have sv: "sum_vso v =
      ((copy (replicate Size 0) (Sum256 (blobID v2 @ [1])))[Size - 1 := 0],
       v2\<lparr>blobID := blobID v2 @ [1]\<rparr>)"
    by (simp add: sum_vso_def Let_def v1_def v2_def)
  from assms have b: "p_buffer s = buffer v"
    by (simp add: sim_def)
  have "\<exists>s1. (if length (p_buffer s) \<noteq> 0 then writePage_pool s (Copied (p_buffer s)) else Inr s)
        = Inr s1 \<and> sim s1 v1"
    using writePage_pool_sim [OF assms, of "Copied (buffer v)"] assms b by (auto simp add: v1_def)
  then obtain s1 where
    s1: "(if length (p_buffer s) \<noteq> 0 then writePage_pool s (Copied (p_buffer s)) else Inr s)
        = Inr s1"
      "sim s1 v1"
    by blast
  from s1(2) have c: "length (p_pageHashes s1) = length (pageHashes v1)" "p_blobID s1 = blobID v1"
    by (auto simp add: sim_def dest: list_all2_lengthD)
  have "\<exists>s2. (if length (p_pageHashes s1) > 0 \<or> length (p_blobID s1) = 0
        then finishBlock_pool s1 else Inr s1) = Inr s2 \<and> sim s2 v2"
    using finishBlock_pool_sim [OF s1(2)] s1(2) unfolding c by (auto simp add: v2_def)
  then obtain s2 where
    s2: "(if length (p_pageHashes s1) > 0 \<or> length (p_blobID s1) = 0
        then finishBlock_pool s1 else Inr s1) = Inr s2" "sim s2 v2"
    by blast
  from s2(2) have e: "p_blobID s2 = blobID v2"
    by (simp add: sim_def)
  have sp: "sum_pool s =
      Inr ((copy (replicate Size 0) (Sum256 (p_blobID s2 @ [1])))[Size - 1 := 0],
       s2\<lparr>p_blobID := p_blobID s2 @ [1]\<rparr>)"
    unfolding sum_pool_def s1(1) using s2(1) by (simp add: Let_def)
  have "sim (s2\<lparr>p_blobID := p_blobID s2 @ [1]\<rparr>) (v2\<lparr>blobID := blobID v2 @ [1]\<rparr>)"
    using s2(2) by (simp add: sim_def)
  then show ?thesis
    unfolding sp sv e by simp
qed

text \<open>
  The bound on the pending handles, on the pool: \<^verbatim>\<open>writePage\<close> returns, whatever the
  schedule, with fewer than \<open>pagesPerBlock\<close> handles pending. A pool that the hasher by
  value describes is still described by one, with as many pending handles, after the
  caller has written its arrays: this changes the digests that tasks in flight will
  deliver, not the handles.
\<close>

lemma sim_pending: "sim s v \<Longrightarrow> length (p_pageHashes s) = length (pageHashes v)"
  by (auto simp add: sim_def dest: list_all2_lengthD)

lemma pending_writePage_pool:
  assumes "sim s v" and "length (p_pageHashes s) < pagesPerBlock"
  shows "\<exists>s'. writePage_pool s page = Inr s' \<and> length (p_pageHashes s') < pagesPerBlock"
proof -
  from writePage_pool_sim [OF assms(1), of page] obtain s' where
    s': "writePage_pool s page = Inr s'" "sim s' (writePage v (page_bytes (mem s) page))"
    by blast
  have "length (pageHashes v) < pagesPerBlock"
    using assms by (simp add: sim_pending)
  then have "length (pageHashes (writePage v (page_bytes (mem s) page))) < pagesPerBlock"
    by (rule pending_writePage)
  with s' show ?thesis
    by (auto simp add: sim_pending)
qed

lemma list_all2_choice: "\<forall>c \<in> set cs. \<exists>d. R c d \<Longrightarrow> \<exists>ds. list_all2 R cs ds"
proof (induction cs)
  case Nil
  then show ?case by simp
next
  case (Cons c cs)
  then obtain d ds where "R c d" "list_all2 R cs ds"
    by auto
  then have "list_all2 R (c # cs) (d # ds)"
    by simp
  then show ?case ..
qed

lemma sim_mem:
  assumes "sim s v"
  shows "\<exists>v'. sim (s\<lparr>mem := m\<rparr>) v' \<and> buffer v' = buffer v \<and> blobID v' = blobID v
           \<and> length (pageHashes v') = length (pageHashes v)"
proof -
  have f: "in_flight (s\<lparr>mem := m\<rparr>) = in_flight s"
    by (simp add: in_flight_def)
  have ok: "pool_ok (s\<lparr>mem := m\<rparr>)"
    using assms by (simp add: sim_def pool_ok_def f)
  have "\<exists>d. resolves (s\<lparr>mem := m\<rparr>) c d" if "c \<in> set (p_pageHashes s)" for c
  proof -
    from assms that obtain d where "resolves s c d"
      by (auto simp add: sim_def list_all2_conv_all_nth in_set_conv_nth)
    then show ?thesis
      unfolding resolves_def f by auto
  qed
  then obtain ds where ds: "list_all2 (resolves (s\<lparr>mem := m\<rparr>)) (p_pageHashes s) ds"
    using list_all2_choice [of "p_pageHashes s" "resolves (s\<lparr>mem := m\<rparr>)"] by blast
  let ?v = "v\<lparr>pageHashes := ds\<rparr>"
  have "sim (s\<lparr>mem := m\<rparr>) ?v"
    using assms ok ds by (simp add: sim_def)
  moreover have "length ds = length (p_pageHashes s)"
    using ds by (simp add: list_all2_lengthD)
  then have "length (pageHashes ?v) = length (pageHashes v)"
    using assms by (simp add: sim_pending)
  ultimately show ?thesis
    by (intro exI [of _ ?v]) simp
qed

lemma held_replicate [simp]: "held (replicate n None) = []"
  by (induction n) simp_all

lemma NewParallel_pool_sim:
  assumes "0 < parallelism" and "parallelism \<le> maxChanCap"
  shows "\<exists>s. NewParallel_pool parallelism sched m = Inr s \<and>
           sim s \<lparr>buffer = [], pageHashes = [], blobID = []\<rparr> \<and> mem s = m"
  using assms by (simp add: NewParallel_pool_eq sim_def pool_ok_def in_flight_def)






section \<open>Chunking invariance and the pages the hasher keeps\<close>

text \<open>
  On the pool as well, a caller that leaves the arrays of its chunks alone gets from the
  incremental path what the hasher by value gives, whatever the schedule.
\<close>

lemma writes_pool_sim:
  assumes "sim s v" and "\<forall>i < length cs. mem s (a + i) = cs ! i"
  shows "rel_sum (=) (\<lambda>s' v'. sim s' v') (writes_pool s a (map length cs)) (writes v cs)"
  using assms
proof (induction cs arbitrary: s v a)
  case Nil
  then show ?case by simp
next
  case (Cons c cs)
  let ?sl = "\<lparr>arr = a, lo = 0, hi = length c\<rparr>"
  from Cons.prems(2) have c: "mem s a = c"
    by auto
  have r: "rel_sum (=) (\<lambda>(n, s') (m, v'). n = m \<and> sim s' v' \<and> mem s' = mem s)
      (Write_pool s ?sl) (Write v c)"
    using Cons.prems(1) by (rule Write_pool_sim) (simp_all add: c bytes_of_def)
  show ?case
  proof (cases "Write v c")
    case (Inl e)
    with r show ?thesis
      by (cases "Write_pool s ?sl") auto
  next
    case (Inr r1)
    obtain n v1 where r1: "r1 = (n, v1)"
      by (cases r1)
    with r Inr obtain s1 where s1: "Write_pool s ?sl = Inr (n, s1)" "sim s1 v1" "mem s1 = mem s"
      by (cases "Write_pool s ?sl") auto
    have "\<forall>i < length cs. mem s1 (a + 1 + i) = cs ! i"
      using Cons.prems(2) by (auto simp add: s1(3))
    with s1(2) have "rel_sum (=) (\<lambda>s' v'. sim s' v') (writes_pool s1 (a + 1) (map length cs))
        (writes v1 cs)"
      by (rule Cons.IH)
    with Inr r1 s1(1) show ?thesis
      by simp
  qed
qed

lemma incremental_pool_incremental:
  assumes "0 < parallelism" and "parallelism \<le> maxChanCap"
  shows "incremental_pool parallelism sched chunks = incremental parallelism chunks"
proof -
  let ?h = "\<lparr>buffer = [], pageHashes = [], blobID = []\<rparr>"
  let ?m = "\<lambda>a. if a < length chunks then chunks ! a else []"
  from NewParallel_pool_sim [OF assms] obtain s where
    s: "NewParallel_pool parallelism sched ?m = Inr s" "sim s ?h" "mem s = ?m"
    by blast
  have r: "rel_sum (=) (\<lambda>s' v'. sim s' v') (writes_pool s 0 (map length chunks)) (writes ?h chunks)"
    using s(2) by (rule writes_pool_sim) (simp add: s(3))
  show ?thesis
  proof (cases "writes ?h chunks")
    case (Inl e)
    with r have "writes_pool s 0 (map length chunks) = Inl e"
      by (cases "writes_pool s 0 (map length chunks)") auto
    with Inl assms s(1) show ?thesis
      by (simp add: incremental_pool_def incremental_def finish_after_def NewParallel_eq)
  next
    case (Inr v1)
    with r obtain s1 where s1: "writes_pool s 0 (map length chunks) = Inr s1" "sim s1 v1"
      by (cases "writes_pool s 0 (map length chunks)") auto
    from sum_pool_sim [OF s1(2)] obtain s2 where
      "sum_pool s1 = Inr (fst (sum_vso v1), s2)"
      by blast
    with Inr assms s(1) s1(1) show ?thesis
      by (simp add: incremental_pool_def incremental_def finish_after_def NewParallel_eq)
  qed
qed

lemma incremental_pool_Sum:
  assumes "0 < parallelism" and "parallelism \<le> maxChanCap"
    and "0 < gomaxprocs" and "gomaxprocs \<le> maxChanCap"
  shows "incremental_pool parallelism sched chunks = Sum gomaxprocs (concat chunks)"
  using assms chunking_by_value [of gomaxprocs parallelism chunks]
  by (simp add: incremental_pool_incremental)

text \<open>The caller's wait, by the head of the schedule.\<close>

lemma await_empty:
  "schedule s = [] \<Longrightarrow> await ready s =
     (if ready s then Inr s
      else (case filter (can_step s) [0..<length (workers s)] of
              [] \<Rightarrow> Inl Deadlock
            | w # ws \<Rightarrow> await ready (worker_step s w)))"
  by (simp add: await.simps [of ready s])

lemma await_Driver:
  "schedule s = Driver # cs \<Longrightarrow> await ready s =
     (if ready s then Inr (s\<lparr>schedule := cs\<rparr>) else await ready (s\<lparr>schedule := cs\<rparr>))"
  by (simp add: await.simps [of ready s])

lemma await_Worker:
  "schedule s = Worker w # cs \<Longrightarrow> await ready s =
     (if can_step s w then await ready (worker_step (s\<lparr>schedule := cs\<rparr>) w)
      else await ready (s\<lparr>schedule := cs\<rparr>))"
  by (simp add: await.simps [of ready s])

lemmas pool_eval =
  incremental_reusing_def NewParallel_pool_eq maxChanCap_eq Write_pool.simps writePage_pool_def
  send_def recv_def ready_at_def can_step_def worker_step_def finishBlock_pool_def
  updateBlobID_pool_def sum_pool_def await_empty await_Driver await_Worker
  len_slice_def slice_to_def slice_from_def bytes_of_def copy_def
  PageSize_def pagesPerBlock_eq Size_def Let_def list_update_append

lemmas value_eval =
  Sum_def New_def NewParallel_eq maxChanCap_eq Write.simps writePage_def sum_vso_def
  finishBlock_def updateBlobID_def copy_def
  PageSize_def pagesPerBlock_eq Size_def Let_def list_update_append

text \<open>
  C1 (chunking invariance) fails on the code when the caller reuses the array of a chunk.
  With an empty buffer and at least a page of input, \<^verbatim>\<open>Write\<close> queues the caller's own
  slice \<^verbatim>\<open>in[:PageSize]\<close> and returns; the worker reads the slice when it computes the
  digest, which may be after the caller has filled the array again. The other branch of
  \<^verbatim>\<open>Write\<close> copies the page first, for this reason by its own comment.

  A fresh hasher of parallelism 1 is written two chunks of one page through one array of
  65536 bytes: 65536 bytes 0x01, then 65536 bytes 0x02. When the worker gets no turn
  before the second \<^verbatim>\<open>Write\<close> blocks (the empty schedule), both page digests are the
  digest of the second chunk, and the identifier is the one \<open>Sum\<close> gives for the second
  chunk written twice. When the worker runs between the two writes, the identifier is
  the one \<open>Sum\<close> gives for the input. So the incremental path need not give what \<open>Sum\<close>
  gives on the concatenation of the chunks, and what it gives depends on the schedule.
\<close>

theorem retained_page_rehashed:
  "incremental_reusing 1 [] (replicate 65536 0) [replicate 65536 0x01, replicate 65536 0x02] =
     Inr (Sum256 (seed
            @ Sum256 (Sum256 (replicate 65536 0x02) @ Sum256 (replicate 65536 0x02)) @ [0x01])
          @ [0x00])
   \<and> Sum 1 (replicate 65536 0x02 @ replicate 65536 0x02) =
     Inr (Sum256 (seed
            @ Sum256 (Sum256 (replicate 65536 0x02) @ Sum256 (replicate 65536 0x02)) @ [0x01])
          @ [0x00])
   \<and> Sum 1 (replicate 65536 0x01 @ replicate 65536 0x02) =
     Inr (Sum256 (seed
            @ Sum256 (Sum256 (replicate 65536 0x01) @ Sum256 (replicate 65536 0x02)) @ [0x01])
          @ [0x00])
   \<and> incremental_reusing 1 [Driver, Driver, Worker 0, Worker 0] (replicate 65536 0)
        [replicate 65536 0x01, replicate 65536 0x02] =
     Inr (Sum256 (seed
            @ Sum256 (Sum256 (replicate 65536 0x01) @ Sum256 (replicate 65536 0x02)) @ [0x01])
          @ [0x00])"
proof (intro conjI)
  show "incremental_reusing 1 [] (replicate 65536 0) [replicate 65536 0x01, replicate 65536 0x02] =
     Inr (Sum256 (seed
            @ Sum256 (Sum256 (replicate 65536 0x02) @ Sum256 (replicate 65536 0x02)) @ [0x01])
          @ [0x00])"
    by (simp add: pool_eval)
  show "Sum 1 (replicate 65536 0x02 @ replicate 65536 0x02) =
     Inr (Sum256 (seed
            @ Sum256 (Sum256 (replicate 65536 0x02) @ Sum256 (replicate 65536 0x02)) @ [0x01])
          @ [0x00])"
    by (simp add: value_eval)
  show "Sum 1 (replicate 65536 0x01 @ replicate 65536 0x02) =
     Inr (Sum256 (seed
            @ Sum256 (Sum256 (replicate 65536 0x01) @ Sum256 (replicate 65536 0x02)) @ [0x01])
          @ [0x00])"
    by (simp add: value_eval)
  show "incremental_reusing 1 [Driver, Driver, Worker 0, Worker 0] (replicate 65536 0)
        [replicate 65536 0x01, replicate 65536 0x02] =
     Inr (Sum256 (seed
            @ Sum256 (Sum256 (replicate 65536 0x01) @ Sum256 (replicate 65536 0x02)) @ [0x01])
          @ [0x00])"
    by (simp add: pool_eval)
qed

section \<open>Evaluating the digest\<close>

text \<open>
  The known identifiers are checked by rewriting. \<open>W\<close> and \<open>B\<close> mark a 32-bit word and a
  byte given by a natural number, so that the arithmetic of \<open>Sum256\<close> on concrete words
  becomes arithmetic on numerals modulo \<open>2 ^ 32\<close>.
\<close>

definition W :: "nat \<Rightarrow> uint32" where
  "W n = of_nat n"

definition B :: "nat \<Rightarrow> byte" where
  "B n = of_nat n"

lemma W_mod: "W (a mod 4294967296) = W a"
  unfolding W_def by (simp add: word_of_nat_eq_iff take_bit_eq_mod)

lemma W_add: "W a + W b = W ((a + b) mod 4294967296)"
  unfolding W_mod by (simp add: W_def)

lemma W_xor: "W a XOR W b = W (a XOR b)"
  by (simp add: W_def of_nat_xor_eq)

lemma W_and: "W a AND W b = W (a AND b)"
  by (simp add: W_def of_nat_and_eq)

lemma W_or: "W a OR W b = W (a OR b)"
  by (simp add: W_def of_nat_or_eq)

lemma W_push_bit: "push_bit n (W a) = W ((a * 2 ^ n) mod 4294967296)"
  unfolding W_mod by (simp add: W_def push_bit_eq_mult)

lemma W_drop_bit: "drop_bit n (W a) = W ((a mod 4294967296) div 2 ^ n)"
proof -
  have "(a mod 4294967296) div 2 ^ n \<le> a mod 4294967296"
    by (rule div_le_dividend)
  also have "\<dots> < 4294967296"
    by simp
  finally have "((a mod 4294967296) div 2 ^ n) mod 4294967296 = (a mod 4294967296) div 2 ^ n"
    by simp
  then have "unat (W ((a mod 4294967296) div 2 ^ n)) = (a mod 4294967296) div 2 ^ n"
    unfolding W_def by (simp add: unat_of_nat)
  moreover have "unat (drop_bit n (W a)) = drop_bit n (unat (W a))"
    by (rule unat_drop_bit_eq)
  moreover have "unat (W a) = a mod 4294967296"
    unfolding W_def by (simp add: unat_of_nat)
  ultimately have "unat (drop_bit n (W a)) = unat (W ((a mod 4294967296) div 2 ^ n))"
    by (simp only: drop_bit_eq_div)
  then show ?thesis
    by (simp only: word_unat_eq_iff)
qed

lemma W_not: "NOT (W a) = W (4294967295 - a mod 4294967296)"
proof -
  have "a mod 4294967296 \<le> 4294967295"
    by (simp add: Suc_leI less_Suc_eq_le [symmetric])
  then have "W (4294967295 - a mod 4294967296) = of_nat 4294967295 - W (a mod 4294967296)"
    unfolding W_def by (simp only: of_nat_diff)
  also have "\<dots> = - 1 - W a"
    by (simp add: W_mod)
  finally show ?thesis
    by (simp add: not_eq_complement)
qed

lemma B_ucast: "(ucast (B b) :: uint32) = W (b mod 256)"
  unfolding W_def B_def by (simp add: unsigned_of_nat take_bit_eq_mod)

lemma W_ucast: "(ucast (W a) :: byte) = B (a mod 256)"
  unfolding W_def B_def
  by (simp add: unsigned_of_nat take_bit_eq_mod word_of_nat_eq_iff mod_mod_cancel)

lemmas W_kit = W_add W_xor W_and W_or W_not W_push_bit W_drop_bit B_ucast W_ucast

lemma words_of_num: "words_of (numeral k) bs = be32 bs # words_of (pred_numeral k) (drop 4 bs)"
  by (simp add: numeral_eq_Suc)

lemma schedule256_num:
  "schedule256 (numeral k) w =
    (let v1 = w ! 1; t1 = rotr 17 v1 XOR rotr 19 v1 XOR drop_bit 10 v1;
         v2 = w ! 14; t2 = rotr 7 v2 XOR rotr 18 v2 XOR drop_bit 3 v2
     in schedule256 (pred_numeral k) ((t1 + w ! 6 + t2 + w ! 15) # w))"
  by (simp add: numeral_eq_Suc)

lemma replicate_num: "replicate (numeral k) x = x # replicate (pred_numeral k) x"
  by (simp add: numeral_eq_Suc)

lemma be_bytes_4:
  "be_bytes 4 x = [ucast (drop_bit 24 x), ucast (drop_bit 16 x), ucast (drop_bit 8 x), ucast x]"
proof -
  have "[0..<4] = [0, 1, 2, 3]"
    by (simp add: numeral_eq_Suc upt_rec)
  then show ?thesis
    by (simp add: be_bytes_def)
qed

lemma be_bytes_8:
  "be_bytes 8 x =
    [ucast (drop_bit 56 x), ucast (drop_bit 48 x), ucast (drop_bit 40 x), ucast (drop_bit 32 x),
     ucast (drop_bit 24 x), ucast (drop_bit 16 x), ucast (drop_bit 8 x), ucast x]"
proof -
  have "[0..<8] = [0, 1, 2, 3, 4, 5, 6, 7]"
    by (simp add: numeral_eq_Suc upt_rec)
  then show ?thesis
    by (simp add: be_bytes_def)
qed

lemma blocks256_one: "length p = 64 \<Longrightarrow> blocks256 h p = block256 h p"
  by (simp add: blocks256.simps [of h p] blocks256.simps [of _ "[]"])

lemma blocks256_two:
  "length p = 128 \<Longrightarrow> blocks256 h p = block256 (block256 h (take 64 p)) (drop 64 p)"
  by (simp add: blocks256.simps [of h p] blocks256.simps [of _ "drop 64 p"]
      blocks256.simps [of _ "[]"])

lemma K256_W:
  "K256 =
     [W 1116352408, W 1899447441, W 3049323471, W 3921009573, W 961987163, W 1508970993,
     W 2453635748, W 2870763221, W 3624381080, W 310598401, W 607225278, W 1426881987,
     W 1925078388, W 2162078206, W 2614888103, W 3248222580, W 3835390401, W 4022224774,
     W 264347078, W 604807628, W 770255983, W 1249150122, W 1555081692, W 1996064986,
     W 2554220882, W 2821834349, W 2952996808, W 3210313671, W 3336571891, W 3584528711,
     W 113926993, W 338241895, W 666307205, W 773529912, W 1294757372, W 1396182291,
     W 1695183700, W 1986661051, W 2177026350, W 2456956037, W 2730485921, W 2820302411,
     W 3259730800, W 3345764771, W 3516065817, W 3600352804, W 4094571909, W 275423344,
     W 430227734, W 506948616, W 659060556, W 883997877, W 958139571, W 1322822218,
     W 1537002063, W 1747873779, W 1955562222, W 2024104815, W 2227730452, W 2361852424,
     W 2428436474, W 2756734187, W 3204031479, W 3329325298]"
  by (simp add: K256_def W_def)

lemma init256_W:
  "init256 =
     [W 1779033703, W 3144134277, W 1013904242, W 2773480762, W 1359893119, W 2600822924,
     W 528734635, W 1541459225]"
  by (simp add: init256_def W_def)

lemma block256_empty:
  "block256
     [W 1779033703, W 3144134277, W 1013904242, W 2773480762, W 1359893119, W 2600822924,
     W 528734635, W 1541459225]
     [B 128, B 0, B 0, B 0, B 0, B 0, B 0, B 0, B 0, B 0, B 0, B 0, B 0, B 0, B 0, B 0, B 0,
     B 0, B 0, B 0, B 0, B 0, B 0, B 0, B 0, B 0, B 0, B 0, B 0, B 0, B 0, B 0, B 0, B 0, B 0,
     B 0, B 0, B 0, B 0, B 0, B 0, B 0, B 0, B 0, B 0, B 0, B 0, B 0, B 0, B 0, B 0, B 0, B 0,
     B 0, B 0, B 0, B 0, B 0, B 0, B 0, B 0, B 0, B 0, B 0] =
     [W 3820012610, W 2566659092, W 2600203464, W 2574235940, W 665731556, W 1687917388,
     W 2761267483, W 2018687061]"
proof -
  have ws: "words_of 16
      [B 128, B 0, B 0, B 0, B 0, B 0, B 0, B 0, B 0, B 0, B 0, B 0, B 0, B 0, B 0, B 0, B 0,
      B 0, B 0, B 0, B 0, B 0, B 0, B 0, B 0, B 0, B 0, B 0, B 0, B 0, B 0, B 0, B 0, B 0, B 0,
      B 0, B 0, B 0, B 0, B 0, B 0, B 0, B 0, B 0, B 0, B 0, B 0, B 0, B 0, B 0, B 0, B 0, B 0,
      B 0, B 0, B 0, B 0, B 0, B 0, B 0, B 0, B 0, B 0, B 0] =
      [W 2147483648, W 0, W 0, W 0, W 0, W 0, W 0, W 0, W 0, W 0, W 0, W 0, W 0, W 0, W 0, W 0]"
    by (simp add: words_of_num be32_def W_kit)
  have sch: "schedule256 48
      [W 0, W 0, W 0, W 0, W 0, W 0, W 0, W 0, W 0, W 0, W 0, W 0, W 0, W 0, W 0, W 2147483648] =
      [W 996066459, W 1153231965, W 1581412744, W 3704256008, W 4161330627, W 133517113,
      W 1967544444, W 43741191, W 3526495142, W 907775968, W 195877528, W 369937616, W 30329261,
      W 1008022316, W 748767245, W 3741240933, W 1575308336, W 3297584367, W 614207615,
      W 3286092305, W 2975250741, W 1562224585, W 62000258, W 2561075048, W 2165675682,
      W 2813755136, W 4274181962, W 1904000662, W 2742808854, W 109604294, W 676112230,
      W 3287351444, W 3374850048, W 3594910044, W 337794312, W 3592562048, W 1711282176,
      W 1451269, W 4235264, W 1476919296, W 2147483648, W 84448578, W 0, W 570427392, W 0,
      W 2117632, W 0, W 2147483648, W 0, W 0, W 0, W 0, W 0, W 0, W 0, W 0, W 0, W 0, W 0, W 0,
      W 0, W 0, W 0, W 2147483648]"
    by (simp add: schedule256_num Let_def rotr_def W_kit cong: let_weak_cong)
  have r0: "foldl round256
      [W 1779033703, W 3144134277, W 1013904242, W 2773480762, W 1359893119, W 2600822924,
      W 528734635, W 1541459225]
      [(W 1116352408, W 2147483648), (W 1899447441, W 0), (W 3049323471, W 0),
      (W 3921009573, W 0), (W 961987163, W 0), (W 1508970993, W 0), (W 2453635748, W 0),
      (W 2870763221, W 0)] =
      [W 2060825014, W 4028650896, W 690895682, W 1130821424, W 1408847307, W 2196627567,
      W 1332035834, W 3889194014]"
    by (simp add: round256_def Let_def rotr_def W_kit cong: let_weak_cong)
  have r8: "foldl round256
      [W 2060825014, W 4028650896, W 690895682, W 1130821424, W 1408847307, W 2196627567,
      W 1332035834, W 3889194014]
      [(W 3624381080, W 0), (W 310598401, W 0), (W 607225278, W 0), (W 1426881987, W 0),
      (W 1925078388, W 0), (W 2162078206, W 0), (W 2614888103, W 0), (W 3248222580, W 0)] =
      [W 3019933109, W 3096116699, W 1170215847, W 553833165, W 1555621987, W 483372089,
      W 725774998, W 3455974994]"
    by (simp add: round256_def Let_def rotr_def W_kit cong: let_weak_cong)
  have r16: "foldl round256
      [W 3019933109, W 3096116699, W 1170215847, W 553833165, W 1555621987, W 483372089,
      W 725774998, W 3455974994]
      [(W 3835390401, W 2147483648), (W 4022224774, W 0), (W 264347078, W 2117632),
      (W 604807628, W 0), (W 770255983, W 570427392), (W 1249150122, W 0),
      (W 1555081692, W 84448578), (W 1996064986, W 2147483648)] =
      [W 2556161365, W 1078820948, W 2577845017, W 1976037592, W 741081741, W 2976200464,
      W 3263666206, W 966081741]"
    by (simp add: round256_def Let_def rotr_def W_kit cong: let_weak_cong)
  have r24: "foldl round256
      [W 2556161365, W 1078820948, W 2577845017, W 1976037592, W 741081741, W 2976200464,
      W 3263666206, W 966081741]
      [(W 2554220882, W 1476919296), (W 2821834349, W 4235264), (W 2952996808, W 1451269),
      (W 3210313671, W 1711282176), (W 3336571891, W 3592562048), (W 3584528711, W 337794312),
      (W 113926993, W 3594910044), (W 338241895, W 3374850048)] =
      [W 300352095, W 2696613087, W 1926471693, W 1690082844, W 3151463532, W 1447716390,
      W 2957685293, W 2506713973]"
    by (simp add: round256_def Let_def rotr_def W_kit cong: let_weak_cong)
  have r32: "foldl round256
      [W 300352095, W 2696613087, W 1926471693, W 1690082844, W 3151463532, W 1447716390,
      W 2957685293, W 2506713973]
      [(W 666307205, W 3287351444), (W 773529912, W 676112230), (W 1294757372, W 109604294),
      (W 1396182291, W 2742808854), (W 1695183700, W 1904000662), (W 1986661051, W 4274181962),
      (W 2177026350, W 2813755136), (W 2456956037, W 2165675682)] =
      [W 1234768305, W 2656625711, W 1457773646, W 2694206301, W 1902882853, W 2242319396,
      W 3892832895, W 4206914285]"
    by (simp add: round256_def Let_def rotr_def W_kit cong: let_weak_cong)
  have r40: "foldl round256
      [W 1234768305, W 2656625711, W 1457773646, W 2694206301, W 1902882853, W 2242319396,
      W 3892832895, W 4206914285]
      [(W 2730485921, W 2561075048), (W 2820302411, W 62000258), (W 3259730800, W 1562224585),
      (W 3345764771, W 2975250741), (W 3516065817, W 3286092305), (W 3600352804, W 614207615),
      (W 4094571909, W 3297584367), (W 275423344, W 1575308336)] =
      [W 911881421, W 1419259244, W 855262251, W 2752082644, W 3417569515, W 2322236082,
      W 3531982457, W 2855016464]"
    by (simp add: round256_def Let_def rotr_def W_kit cong: let_weak_cong)
  have r48: "foldl round256
      [W 911881421, W 1419259244, W 855262251, W 2752082644, W 3417569515, W 2322236082,
      W 3531982457, W 2855016464]
      [(W 430227734, W 3741240933), (W 506948616, W 748767245), (W 659060556, W 1008022316),
      (W 883997877, W 30329261), (W 958139571, W 369937616), (W 1322822218, W 195877528),
      (W 1537002063, W 907775968), (W 1747873779, W 3526495142)] =
      [W 23298068, W 749689034, W 974034039, W 2981272720, W 2918796810, W 3850954136,
      W 4254700398, W 1134943992]"
    by (simp add: round256_def Let_def rotr_def W_kit cong: let_weak_cong)
  have r56: "foldl round256
      [W 23298068, W 749689034, W 974034039, W 2981272720, W 2918796810, W 3850954136,
      W 4254700398, W 1134943992]
      [(W 1955562222, W 43741191), (W 2024104815, W 1967544444), (W 2227730452, W 133517113),
      (W 2361852424, W 4161330627), (W 2428436474, W 3704256008), (W 2756734187, W 1581412744),
      (W 3204031479, W 1153231965), (W 3329325298, W 996066459)] =
      [W 2040978907, W 3717492111, W 1586299222, W 4095722474, W 3600805733, W 3382061760,
      W 2232532848, W 477227836]"
    by (simp add: round256_def Let_def rotr_def W_kit cong: let_weak_cong)
  have z: "zip K256
      [W 2147483648, W 0, W 0, W 0, W 0, W 0, W 0, W 0, W 0, W 0, W 0, W 0, W 0, W 0, W 0, W 0,
      W 2147483648, W 0, W 2117632, W 0, W 570427392, W 0, W 84448578, W 2147483648,
      W 1476919296, W 4235264, W 1451269, W 1711282176, W 3592562048, W 337794312, W 3594910044,
      W 3374850048, W 3287351444, W 676112230, W 109604294, W 2742808854, W 1904000662,
      W 4274181962, W 2813755136, W 2165675682, W 2561075048, W 62000258, W 1562224585,
      W 2975250741, W 3286092305, W 614207615, W 3297584367, W 1575308336, W 3741240933,
      W 748767245, W 1008022316, W 30329261, W 369937616, W 195877528, W 907775968,
      W 3526495142, W 43741191, W 1967544444, W 133517113, W 4161330627, W 3704256008,
      W 1581412744, W 1153231965, W 996066459] =
      [(W 1116352408, W 2147483648), (W 1899447441, W 0), (W 3049323471, W 0),
      (W 3921009573, W 0), (W 961987163, W 0), (W 1508970993, W 0), (W 2453635748, W 0),
      (W 2870763221, W 0)] @
      [(W 3624381080, W 0), (W 310598401, W 0), (W 607225278, W 0), (W 1426881987, W 0),
      (W 1925078388, W 0), (W 2162078206, W 0), (W 2614888103, W 0), (W 3248222580, W 0)] @
      [(W 3835390401, W 2147483648), (W 4022224774, W 0), (W 264347078, W 2117632),
      (W 604807628, W 0), (W 770255983, W 570427392), (W 1249150122, W 0),
      (W 1555081692, W 84448578), (W 1996064986, W 2147483648)] @
      [(W 2554220882, W 1476919296), (W 2821834349, W 4235264), (W 2952996808, W 1451269),
      (W 3210313671, W 1711282176), (W 3336571891, W 3592562048), (W 3584528711, W 337794312),
      (W 113926993, W 3594910044), (W 338241895, W 3374850048)] @
      [(W 666307205, W 3287351444), (W 773529912, W 676112230), (W 1294757372, W 109604294),
      (W 1396182291, W 2742808854), (W 1695183700, W 1904000662), (W 1986661051, W 4274181962),
      (W 2177026350, W 2813755136), (W 2456956037, W 2165675682)] @
      [(W 2730485921, W 2561075048), (W 2820302411, W 62000258), (W 3259730800, W 1562224585),
      (W 3345764771, W 2975250741), (W 3516065817, W 3286092305), (W 3600352804, W 614207615),
      (W 4094571909, W 3297584367), (W 275423344, W 1575308336)] @
      [(W 430227734, W 3741240933), (W 506948616, W 748767245), (W 659060556, W 1008022316),
      (W 883997877, W 30329261), (W 958139571, W 369937616), (W 1322822218, W 195877528),
      (W 1537002063, W 907775968), (W 1747873779, W 3526495142)] @
      [(W 1955562222, W 43741191), (W 2024104815, W 1967544444), (W 2227730452, W 133517113),
      (W 2361852424, W 4161330627), (W 2428436474, W 3704256008), (W 2756734187, W 1581412744),
      (W 3204031479, W 1153231965), (W 3329325298, W 996066459)]"
    by (simp add: K256_W)
  have rounds: "foldl round256
      [W 1779033703, W 3144134277, W 1013904242, W 2773480762, W 1359893119, W 2600822924,
      W 528734635, W 1541459225]
      (zip K256
      [W 2147483648, W 0, W 0, W 0, W 0, W 0, W 0, W 0, W 0, W 0, W 0, W 0, W 0, W 0, W 0, W 0,
      W 2147483648, W 0, W 2117632, W 0, W 570427392, W 0, W 84448578, W 2147483648,
      W 1476919296, W 4235264, W 1451269, W 1711282176, W 3592562048, W 337794312, W 3594910044,
      W 3374850048, W 3287351444, W 676112230, W 109604294, W 2742808854, W 1904000662,
      W 4274181962, W 2813755136, W 2165675682, W 2561075048, W 62000258, W 1562224585,
      W 2975250741, W 3286092305, W 614207615, W 3297584367, W 1575308336, W 3741240933,
      W 748767245, W 1008022316, W 30329261, W 369937616, W 195877528, W 907775968,
      W 3526495142, W 43741191, W 1967544444, W 133517113, W 4161330627, W 3704256008,
      W 1581412744, W 1153231965, W 996066459]) =
      [W 2040978907, W 3717492111, W 1586299222, W 4095722474, W 3600805733, W 3382061760,
      W 2232532848, W 477227836]"
    by (simp only: z foldl_append r0 r8 r16 r24 r32 r40 r48 r56)
  have "rev (schedule256 48 (rev (words_of 16
      [B 128, B 0, B 0, B 0, B 0, B 0, B 0, B 0, B 0, B 0, B 0, B 0, B 0, B 0, B 0, B 0, B 0,
      B 0, B 0, B 0, B 0, B 0, B 0, B 0, B 0, B 0, B 0, B 0, B 0, B 0, B 0, B 0, B 0, B 0, B 0,
      B 0, B 0, B 0, B 0, B 0, B 0, B 0, B 0, B 0, B 0, B 0, B 0, B 0, B 0, B 0, B 0, B 0, B 0,
      B 0, B 0, B 0, B 0, B 0, B 0, B 0, B 0, B 0, B 0, B 0]))) =
      [W 2147483648, W 0, W 0, W 0, W 0, W 0, W 0, W 0, W 0, W 0, W 0, W 0, W 0, W 0, W 0, W 0,
      W 2147483648, W 0, W 2117632, W 0, W 570427392, W 0, W 84448578, W 2147483648,
      W 1476919296, W 4235264, W 1451269, W 1711282176, W 3592562048, W 337794312, W 3594910044,
      W 3374850048, W 3287351444, W 676112230, W 109604294, W 2742808854, W 1904000662,
      W 4274181962, W 2813755136, W 2165675682, W 2561075048, W 62000258, W 1562224585,
      W 2975250741, W 3286092305, W 614207615, W 3297584367, W 1575308336, W 3741240933,
      W 748767245, W 1008022316, W 30329261, W 369937616, W 195877528, W 907775968,
      W 3526495142, W 43741191, W 1967544444, W 133517113, W 4161330627, W 3704256008,
      W 1581412744, W 1153231965, W 996066459]"
    by (simp add: ws sch)
  then show ?thesis
    by (simp add: block256_def Let_def rounds W_kit)
qed

lemma block256_first_1:
  "block256
     [W 1779033703, W 3144134277, W 1013904242, W 2773480762, W 1359893119, W 2600822924,
     W 528734635, W 1541459225]
     [B 86, B 83, B 79, B 32, B 67, B 111, B 110, B 116, B 101, B 110, B 116, B 32, B 73, B 100,
     B 101, B 110, B 116, B 105, B 102, B 105, B 101, B 114, B 32, B 83, B 101, B 101, B 100,
     B 227, B 176, B 196, B 66, B 152, B 252, B 28, B 20, B 154, B 251, B 244, B 200, B 153,
     B 111, B 185, B 36, B 39, B 174, B 65, B 228, B 100, B 155, B 147, B 76, B 164, B 149,
     B 153, B 27, B 120, B 82, B 184, B 85, B (Suc 0), B 128, B 0, B 0, B 0] =
     [W 497978297, W 937497625, W 701352008, W 2730694870, W 806750858, W 2876853270,
     W 3204291021, W 3207868344]"
proof -
  have ws: "words_of 16
      [B 86, B 83, B 79, B 32, B 67, B 111, B 110, B 116, B 101, B 110, B 116, B 32, B 73,
      B 100, B 101, B 110, B 116, B 105, B 102, B 105, B 101, B 114, B 32, B 83, B 101, B 101,
      B 100, B 227, B 176, B 196, B 66, B 152, B 252, B 28, B 20, B 154, B 251, B 244, B 200,
      B 153, B 111, B 185, B 36, B 39, B 174, B 65, B 228, B 100, B 155, B 147, B 76, B 164,
      B 149, B 153, B 27, B 120, B 82, B 184, B 85, B (Suc 0), B 128, B 0, B 0, B 0] =
      [W 1448300320, W 1131376244, W 1701737504, W 1231316334, W 1953064553, W 1701978195,
      W 1701143779, W 2965652120, W 4229698714, W 4227123353, W 1874404391, W 2923553892,
      W 2610121892, W 2509839224, W 1387812097, W 2147483648]"
    by (simp add: words_of_num be32_def W_kit)
  have sch: "schedule256 48
      [W 2147483648, W 1387812097, W 2509839224, W 2610121892, W 2923553892, W 1874404391,
      W 4227123353, W 4229698714, W 2965652120, W 1701143779, W 1701978195, W 1953064553,
      W 1231316334, W 1701737504, W 1131376244, W 1448300320] =
      [W 2706297046, W 1410506426, W 375253603, W 1621720889, W 1412478925, W 4020334526,
      W 527273916, W 2787786570, W 4039121968, W 857187799, W 241948322, W 2532505133,
      W 1540182221, W 1374045398, W 2303039915, W 4262843068, W 2686084214, W 1922038828,
      W 3967564539, W 3544244707, W 1633222969, W 4240885535, W 775834123, W 1970105669,
      W 2181907262, W 796682725, W 3282675323, W 958695531, W 360543146, W 2464615444,
      W 358958290, W 3600125054, W 204682048, W 909865468, W 4186435837, W 994540415,
      W 337857596, W 579787294, W 49012108, W 3070660216, W 2141475302, W 1990207131,
      W 1143571452, W 1191035408, W 1986630755, W 1510305439, W 2226646482, W 2918344864,
      W 2147483648, W 1387812097, W 2509839224, W 2610121892, W 2923553892, W 1874404391,
      W 4227123353, W 4229698714, W 2965652120, W 1701143779, W 1701978195, W 1953064553,
      W 1231316334, W 1701737504, W 1131376244, W 1448300320]"
    by (simp add: schedule256_num Let_def rotr_def W_kit cong: let_weak_cong)
  have r0: "foldl round256
      [W 1779033703, W 3144134277, W 1013904242, W 2773480762, W 1359893119, W 2600822924,
      W 528734635, W 1541459225]
      [(W 1116352408, W 1448300320), (W 1899447441, W 1131376244), (W 3049323471, W 1701737504),
      (W 3921009573, W 1231316334), (W 961987163, W 1953064553), (W 1508970993, W 1701978195),
      (W 2453635748, W 1701143779), (W 2870763221, W 2965652120)] =
      [W 1525039554, W 3593132511, W 1630301930, W 2059839042, W 3279232616, W 44854131,
      W 248471894, W 3444626955]"
    by (simp add: round256_def Let_def rotr_def W_kit cong: let_weak_cong)
  have r8: "foldl round256
      [W 1525039554, W 3593132511, W 1630301930, W 2059839042, W 3279232616, W 44854131,
      W 248471894, W 3444626955]
      [(W 3624381080, W 4229698714), (W 310598401, W 4227123353), (W 607225278, W 1874404391),
      (W 1426881987, W 2923553892), (W 1925078388, W 2610121892), (W 2162078206, W 2509839224),
      (W 2614888103, W 1387812097), (W 3248222580, W 2147483648)] =
      [W 2279644150, W 3449964153, W 552665318, W 3391773512, W 3571729906, W 2212612187,
      W 3035527860, W 1942198037]"
    by (simp add: round256_def Let_def rotr_def W_kit cong: let_weak_cong)
  have r16: "foldl round256
      [W 2279644150, W 3449964153, W 552665318, W 3391773512, W 3571729906, W 2212612187,
      W 3035527860, W 1942198037]
      [(W 3835390401, W 2918344864), (W 4022224774, W 2226646482), (W 264347078, W 1510305439),
      (W 604807628, W 1986630755), (W 770255983, W 1191035408), (W 1249150122, W 1143571452),
      (W 1555081692, W 1990207131), (W 1996064986, W 2141475302)] =
      [W 3577700810, W 2009902585, W 3962582585, W 1235252477, W 162971376, W 676749109,
      W 1673963817, W 1925691033]"
    by (simp add: round256_def Let_def rotr_def W_kit cong: let_weak_cong)
  have r24: "foldl round256
      [W 3577700810, W 2009902585, W 3962582585, W 1235252477, W 162971376, W 676749109,
      W 1673963817, W 1925691033]
      [(W 2554220882, W 3070660216), (W 2821834349, W 49012108), (W 2952996808, W 579787294),
      (W 3210313671, W 337857596), (W 3336571891, W 994540415), (W 3584528711, W 4186435837),
      (W 113926993, W 909865468), (W 338241895, W 204682048)] =
      [W 658711673, W 3752392951, W 1678960129, W 1570646215, W 2744875003, W 3176667484,
      W 66048453, W 3981580077]"
    by (simp add: round256_def Let_def rotr_def W_kit cong: let_weak_cong)
  have r32: "foldl round256
      [W 658711673, W 3752392951, W 1678960129, W 1570646215, W 2744875003, W 3176667484,
      W 66048453, W 3981580077]
      [(W 666307205, W 3600125054), (W 773529912, W 358958290), (W 1294757372, W 2464615444),
      (W 1396182291, W 360543146), (W 1695183700, W 958695531), (W 1986661051, W 3282675323),
      (W 2177026350, W 796682725), (W 2456956037, W 2181907262)] =
      [W 3511053066, W 2284895402, W 4029541020, W 3669728436, W 328973523, W 3461412433,
      W 3157036412, W 696976409]"
    by (simp add: round256_def Let_def rotr_def W_kit cong: let_weak_cong)
  have r40: "foldl round256
      [W 3511053066, W 2284895402, W 4029541020, W 3669728436, W 328973523, W 3461412433,
      W 3157036412, W 696976409]
      [(W 2730485921, W 1970105669), (W 2820302411, W 775834123), (W 3259730800, W 4240885535),
      (W 3345764771, W 1633222969), (W 3516065817, W 3544244707), (W 3600352804, W 3967564539),
      (W 4094571909, W 1922038828), (W 275423344, W 2686084214)] =
      [W 511700406, W 2744781242, W 3968610453, W 4138314982, W 3664715983, W 2416022205,
      W 4077253631, W 372419464]"
    by (simp add: round256_def Let_def rotr_def W_kit cong: let_weak_cong)
  have r48: "foldl round256
      [W 511700406, W 2744781242, W 3968610453, W 4138314982, W 3664715983, W 2416022205,
      W 4077253631, W 372419464]
      [(W 430227734, W 4262843068), (W 506948616, W 2303039915), (W 659060556, W 1374045398),
      (W 883997877, W 1540182221), (W 958139571, W 2532505133), (W 1322822218, W 241948322),
      (W 1537002063, W 857187799), (W 1747873779, W 4039121968)] =
      [W 3536280422, W 201698472, W 128629939, W 393930645, W 1756686858, W 3594545910,
      W 612263723, W 1678045129]"
    by (simp add: round256_def Let_def rotr_def W_kit cong: let_weak_cong)
  have r56: "foldl round256
      [W 3536280422, W 201698472, W 128629939, W 393930645, W 1756686858, W 3594545910,
      W 612263723, W 1678045129]
      [(W 1955562222, W 2787786570), (W 2024104815, W 527273916), (W 2227730452, W 4020334526),
      (W 2361852424, W 1412478925), (W 2428436474, W 1621720889), (W 2756734187, W 375253603),
      (W 3204031479, W 1410506426), (W 3329325298, W 2706297046)] =
      [W 3013911890, W 2088330644, W 3982415062, W 4252181404, W 3741825035, W 276030346,
      W 2675556386, W 1666409119]"
    by (simp add: round256_def Let_def rotr_def W_kit cong: let_weak_cong)
  have z: "zip K256
      [W 1448300320, W 1131376244, W 1701737504, W 1231316334, W 1953064553, W 1701978195,
      W 1701143779, W 2965652120, W 4229698714, W 4227123353, W 1874404391, W 2923553892,
      W 2610121892, W 2509839224, W 1387812097, W 2147483648, W 2918344864, W 2226646482,
      W 1510305439, W 1986630755, W 1191035408, W 1143571452, W 1990207131, W 2141475302,
      W 3070660216, W 49012108, W 579787294, W 337857596, W 994540415, W 4186435837,
      W 909865468, W 204682048, W 3600125054, W 358958290, W 2464615444, W 360543146,
      W 958695531, W 3282675323, W 796682725, W 2181907262, W 1970105669, W 775834123,
      W 4240885535, W 1633222969, W 3544244707, W 3967564539, W 1922038828, W 2686084214,
      W 4262843068, W 2303039915, W 1374045398, W 1540182221, W 2532505133, W 241948322,
      W 857187799, W 4039121968, W 2787786570, W 527273916, W 4020334526, W 1412478925,
      W 1621720889, W 375253603, W 1410506426, W 2706297046] =
      [(W 1116352408, W 1448300320), (W 1899447441, W 1131376244), (W 3049323471, W 1701737504),
      (W 3921009573, W 1231316334), (W 961987163, W 1953064553), (W 1508970993, W 1701978195),
      (W 2453635748, W 1701143779), (W 2870763221, W 2965652120)] @
      [(W 3624381080, W 4229698714), (W 310598401, W 4227123353), (W 607225278, W 1874404391),
      (W 1426881987, W 2923553892), (W 1925078388, W 2610121892), (W 2162078206, W 2509839224),
      (W 2614888103, W 1387812097), (W 3248222580, W 2147483648)] @
      [(W 3835390401, W 2918344864), (W 4022224774, W 2226646482), (W 264347078, W 1510305439),
      (W 604807628, W 1986630755), (W 770255983, W 1191035408), (W 1249150122, W 1143571452),
      (W 1555081692, W 1990207131), (W 1996064986, W 2141475302)] @
      [(W 2554220882, W 3070660216), (W 2821834349, W 49012108), (W 2952996808, W 579787294),
      (W 3210313671, W 337857596), (W 3336571891, W 994540415), (W 3584528711, W 4186435837),
      (W 113926993, W 909865468), (W 338241895, W 204682048)] @
      [(W 666307205, W 3600125054), (W 773529912, W 358958290), (W 1294757372, W 2464615444),
      (W 1396182291, W 360543146), (W 1695183700, W 958695531), (W 1986661051, W 3282675323),
      (W 2177026350, W 796682725), (W 2456956037, W 2181907262)] @
      [(W 2730485921, W 1970105669), (W 2820302411, W 775834123), (W 3259730800, W 4240885535),
      (W 3345764771, W 1633222969), (W 3516065817, W 3544244707), (W 3600352804, W 3967564539),
      (W 4094571909, W 1922038828), (W 275423344, W 2686084214)] @
      [(W 430227734, W 4262843068), (W 506948616, W 2303039915), (W 659060556, W 1374045398),
      (W 883997877, W 1540182221), (W 958139571, W 2532505133), (W 1322822218, W 241948322),
      (W 1537002063, W 857187799), (W 1747873779, W 4039121968)] @
      [(W 1955562222, W 2787786570), (W 2024104815, W 527273916), (W 2227730452, W 4020334526),
      (W 2361852424, W 1412478925), (W 2428436474, W 1621720889), (W 2756734187, W 375253603),
      (W 3204031479, W 1410506426), (W 3329325298, W 2706297046)]"
    by (simp add: K256_W)
  have rounds: "foldl round256
      [W 1779033703, W 3144134277, W 1013904242, W 2773480762, W 1359893119, W 2600822924,
      W 528734635, W 1541459225]
      (zip K256
      [W 1448300320, W 1131376244, W 1701737504, W 1231316334, W 1953064553, W 1701978195,
      W 1701143779, W 2965652120, W 4229698714, W 4227123353, W 1874404391, W 2923553892,
      W 2610121892, W 2509839224, W 1387812097, W 2147483648, W 2918344864, W 2226646482,
      W 1510305439, W 1986630755, W 1191035408, W 1143571452, W 1990207131, W 2141475302,
      W 3070660216, W 49012108, W 579787294, W 337857596, W 994540415, W 4186435837,
      W 909865468, W 204682048, W 3600125054, W 358958290, W 2464615444, W 360543146,
      W 958695531, W 3282675323, W 796682725, W 2181907262, W 1970105669, W 775834123,
      W 4240885535, W 1633222969, W 3544244707, W 3967564539, W 1922038828, W 2686084214,
      W 4262843068, W 2303039915, W 1374045398, W 1540182221, W 2532505133, W 241948322,
      W 857187799, W 4039121968, W 2787786570, W 527273916, W 4020334526, W 1412478925,
      W 1621720889, W 375253603, W 1410506426, W 2706297046]) =
      [W 3013911890, W 2088330644, W 3982415062, W 4252181404, W 3741825035, W 276030346,
      W 2675556386, W 1666409119]"
    by (simp only: z foldl_append r0 r8 r16 r24 r32 r40 r48 r56)
  have "rev (schedule256 48 (rev (words_of 16
      [B 86, B 83, B 79, B 32, B 67, B 111, B 110, B 116, B 101, B 110, B 116, B 32, B 73,
      B 100, B 101, B 110, B 116, B 105, B 102, B 105, B 101, B 114, B 32, B 83, B 101, B 101,
      B 100, B 227, B 176, B 196, B 66, B 152, B 252, B 28, B 20, B 154, B 251, B 244, B 200,
      B 153, B 111, B 185, B 36, B 39, B 174, B 65, B 228, B 100, B 155, B 147, B 76, B 164,
      B 149, B 153, B 27, B 120, B 82, B 184, B 85, B (Suc 0), B 128, B 0, B 0, B 0]))) =
      [W 1448300320, W 1131376244, W 1701737504, W 1231316334, W 1953064553, W 1701978195,
      W 1701143779, W 2965652120, W 4229698714, W 4227123353, W 1874404391, W 2923553892,
      W 2610121892, W 2509839224, W 1387812097, W 2147483648, W 2918344864, W 2226646482,
      W 1510305439, W 1986630755, W 1191035408, W 1143571452, W 1990207131, W 2141475302,
      W 3070660216, W 49012108, W 579787294, W 337857596, W 994540415, W 4186435837,
      W 909865468, W 204682048, W 3600125054, W 358958290, W 2464615444, W 360543146,
      W 958695531, W 3282675323, W 796682725, W 2181907262, W 1970105669, W 775834123,
      W 4240885535, W 1633222969, W 3544244707, W 3967564539, W 1922038828, W 2686084214,
      W 4262843068, W 2303039915, W 1374045398, W 1540182221, W 2532505133, W 241948322,
      W 857187799, W 4039121968, W 2787786570, W 527273916, W 4020334526, W 1412478925,
      W 1621720889, W 375253603, W 1410506426, W 2706297046]"
    by (simp add: ws sch)
  then show ?thesis
    by (simp add: block256_def Let_def rounds W_kit)
qed

lemma block256_first_2:
  "block256
     [W 497978297, W 937497625, W 701352008, W 2730694870, W 806750858, W 2876853270,
     W 3204291021, W 3207868344]
     [B 0, B 0, B 0, B 0, B 0, B 0, B 0, B 0, B 0, B 0, B 0, B 0, B 0, B 0, B 0, B 0, B 0, B 0,
     B 0, B 0, B 0, B 0, B 0, B 0, B 0, B 0, B 0, B 0, B 0, B 0, B 0, B 0, B 0, B 0, B 0, B 0,
     B 0, B 0, B 0, B 0, B 0, B 0, B 0, B 0, B 0, B 0, B 0, B 0, B 0, B 0, B 0, B 0, B 0, B 0,
     B 0, B 0, B 0, B 0, B 0, B 0, B 0, B 0, B (Suc 0), B 224] =
     [W 509071143, W 2460549328, W 1813831603, W 3293836123, W 3362747000, W 2326360652,
     W 2529765841, W 3429582186]"
proof -
  have ws: "words_of 16
      [B 0, B 0, B 0, B 0, B 0, B 0, B 0, B 0, B 0, B 0, B 0, B 0, B 0, B 0, B 0, B 0, B 0, B 0,
      B 0, B 0, B 0, B 0, B 0, B 0, B 0, B 0, B 0, B 0, B 0, B 0, B 0, B 0, B 0, B 0, B 0, B 0,
      B 0, B 0, B 0, B 0, B 0, B 0, B 0, B 0, B 0, B 0, B 0, B 0, B 0, B 0, B 0, B 0, B 0, B 0,
      B 0, B 0, B 0, B 0, B 0, B 0, B 0, B 0, B (Suc 0), B 224] =
      [W 0, W 0, W 0, W 0, W 0, W 0, W 0, W 0, W 0, W 0, W 0, W 0, W 0, W 0, W 0, W 480]"
    by (simp add: words_of_num be32_def W_kit)
  have sch: "schedule256 48
      [W 480, W 0, W 0, W 0, W 0, W 0, W 0, W 0, W 0, W 0, W 0, W 0, W 0, W 0, W 0, W 0] =
      [W 627572917, W 2848861887, W 171004917, W 4116153615, W 3784715725, W 3573960136,
      W 3020618656, W 3898826045, W 1095840247, W 1090207479, W 1139923421, W 4165732508,
      W 2261380193, W 231623475, W 2517038610, W 1403547688, W 1923461471, W 1501268232,
      W 4226767647, W 3417288276, W 1799962234, W 3541557276, W 195275929, W 2170650716,
      W 1286142092, W 432160673, W 1341491476, W 3426471652, W 4052052032, W 2797315907,
      W 3658165636, W 3099395254, W 1864745719, W 1450791201, W 219735012, W 2118172722,
      W 2683837746, W 2147523198, W 906218716, W 26738688, W 503345162, W 480, W 535834636, W 0,
      W 2147496831, W 0, W 13369344, W 0, W 480, W 0, W 0, W 0, W 0, W 0, W 0, W 0, W 0, W 0,
      W 0, W 0, W 0, W 0, W 0, W 0]"
    by (simp add: schedule256_num Let_def rotr_def W_kit cong: let_weak_cong)
  have r0: "foldl round256
      [W 497978297, W 937497625, W 701352008, W 2730694870, W 806750858, W 2876853270,
      W 3204291021, W 3207868344]
      [(W 1116352408, W 0), (W 1899447441, W 0), (W 3049323471, W 0), (W 3921009573, W 0),
      (W 961987163, W 0), (W 1508970993, W 0), (W 2453635748, W 0), (W 2870763221, W 0)] =
      [W 1346101130, W 600824234, W 2629184454, W 150776733, W 1206776564, W 2022491023,
      W 3790747659, W 3649663735]"
    by (simp add: round256_def Let_def rotr_def W_kit cong: let_weak_cong)
  have r8: "foldl round256
      [W 1346101130, W 600824234, W 2629184454, W 150776733, W 1206776564, W 2022491023,
      W 3790747659, W 3649663735]
      [(W 3624381080, W 0), (W 310598401, W 0), (W 607225278, W 0), (W 1426881987, W 0),
      (W 1925078388, W 0), (W 2162078206, W 0), (W 2614888103, W 0), (W 3248222580, W 480)] =
      [W 4182981724, W 1250936289, W 3178127569, W 2241976576, W 1075959642, W 691165025,
      W 2354810622, W 260170762]"
    by (simp add: round256_def Let_def rotr_def W_kit cong: let_weak_cong)
  have r16: "foldl round256
      [W 4182981724, W 1250936289, W 3178127569, W 2241976576, W 1075959642, W 691165025,
      W 2354810622, W 260170762]
      [(W 3835390401, W 0), (W 4022224774, W 13369344), (W 264347078, W 0),
      (W 604807628, W 2147496831), (W 770255983, W 0), (W 1249150122, W 535834636),
      (W 1555081692, W 480), (W 1996064986, W 503345162)] =
      [W 3625703971, W 3990805380, W 3330583505, W 3579597881, W 1400404303, W 2421356345,
      W 429945833, W 4026992370]"
    by (simp add: round256_def Let_def rotr_def W_kit cong: let_weak_cong)
  have r24: "foldl round256
      [W 3625703971, W 3990805380, W 3330583505, W 3579597881, W 1400404303, W 2421356345,
      W 429945833, W 4026992370]
      [(W 2554220882, W 26738688), (W 2821834349, W 906218716), (W 2952996808, W 2147523198),
      (W 3210313671, W 2683837746), (W 3336571891, W 2118172722), (W 3584528711, W 219735012),
      (W 113926993, W 1450791201), (W 338241895, W 1864745719)] =
      [W 3875007525, W 1450919767, W 3231067606, W 2315922103, W 3245556924, W 2557149799,
      W 3341307368, W 1966573334]"
    by (simp add: round256_def Let_def rotr_def W_kit cong: let_weak_cong)
  have r32: "foldl round256
      [W 3875007525, W 1450919767, W 3231067606, W 2315922103, W 3245556924, W 2557149799,
      W 3341307368, W 1966573334]
      [(W 666307205, W 3099395254), (W 773529912, W 3658165636), (W 1294757372, W 2797315907),
      (W 1396182291, W 4052052032), (W 1695183700, W 3426471652), (W 1986661051, W 1341491476),
      (W 2177026350, W 432160673), (W 2456956037, W 1286142092)] =
      [W 4173396885, W 2462462051, W 4000981561, W 1377199023, W 2873584952, W 2243908597,
      W 3464674895, W 2974268925]"
    by (simp add: round256_def Let_def rotr_def W_kit cong: let_weak_cong)
  have r40: "foldl round256
      [W 4173396885, W 2462462051, W 4000981561, W 1377199023, W 2873584952, W 2243908597,
      W 3464674895, W 2974268925]
      [(W 2730485921, W 2170650716), (W 2820302411, W 195275929), (W 3259730800, W 3541557276),
      (W 3345764771, W 1799962234), (W 3516065817, W 3417288276), (W 3600352804, W 4226767647),
      (W 4094571909, W 1501268232), (W 275423344, W 1923461471)] =
      [W 2639046910, W 1324900095, W 2978453766, W 1333627466, W 2881755797, W 3395253801,
      W 473254569, W 4023618349]"
    by (simp add: round256_def Let_def rotr_def W_kit cong: let_weak_cong)
  have r48: "foldl round256
      [W 2639046910, W 1324900095, W 2978453766, W 1333627466, W 2881755797, W 3395253801,
      W 473254569, W 4023618349]
      [(W 430227734, W 1403547688), (W 506948616, W 2517038610), (W 659060556, W 231623475),
      (W 883997877, W 2261380193), (W 958139571, W 4165732508), (W 1322822218, W 1139923421),
      (W 1537002063, W 1090207479), (W 1747873779, W 1095840247)] =
      [W 344466789, W 94557879, W 2644680899, W 3417707052, W 3431948507, W 1252392749,
      W 1040857860, W 3593206625]"
    by (simp add: round256_def Let_def rotr_def W_kit cong: let_weak_cong)
  have r56: "foldl round256
      [W 344466789, W 94557879, W 2644680899, W 3417707052, W 3431948507, W 1252392749,
      W 1040857860, W 3593206625]
      [(W 1955562222, W 3898826045), (W 2024104815, W 3020618656), (W 2227730452, W 3573960136),
      (W 2361852424, W 3784715725), (W 2428436474, W 4116153615), (W 2756734187, W 171004917),
      (W 3204031479, W 2848861887), (W 3329325298, W 627572917)] =
      [W 11092846, W 1523051703, W 1112479595, W 563141253, W 2555996142, W 3744474678,
      W 3620442116, W 221713842]"
    by (simp add: round256_def Let_def rotr_def W_kit cong: let_weak_cong)
  have z: "zip K256
      [W 0, W 0, W 0, W 0, W 0, W 0, W 0, W 0, W 0, W 0, W 0, W 0, W 0, W 0, W 0, W 480, W 0,
      W 13369344, W 0, W 2147496831, W 0, W 535834636, W 480, W 503345162, W 26738688,
      W 906218716, W 2147523198, W 2683837746, W 2118172722, W 219735012, W 1450791201,
      W 1864745719, W 3099395254, W 3658165636, W 2797315907, W 4052052032, W 3426471652,
      W 1341491476, W 432160673, W 1286142092, W 2170650716, W 195275929, W 3541557276,
      W 1799962234, W 3417288276, W 4226767647, W 1501268232, W 1923461471, W 1403547688,
      W 2517038610, W 231623475, W 2261380193, W 4165732508, W 1139923421, W 1090207479,
      W 1095840247, W 3898826045, W 3020618656, W 3573960136, W 3784715725, W 4116153615,
      W 171004917, W 2848861887, W 627572917] =
      [(W 1116352408, W 0), (W 1899447441, W 0), (W 3049323471, W 0), (W 3921009573, W 0),
      (W 961987163, W 0), (W 1508970993, W 0), (W 2453635748, W 0), (W 2870763221, W 0)] @
      [(W 3624381080, W 0), (W 310598401, W 0), (W 607225278, W 0), (W 1426881987, W 0),
      (W 1925078388, W 0), (W 2162078206, W 0), (W 2614888103, W 0), (W 3248222580, W 480)] @
      [(W 3835390401, W 0), (W 4022224774, W 13369344), (W 264347078, W 0),
      (W 604807628, W 2147496831), (W 770255983, W 0), (W 1249150122, W 535834636),
      (W 1555081692, W 480), (W 1996064986, W 503345162)] @
      [(W 2554220882, W 26738688), (W 2821834349, W 906218716), (W 2952996808, W 2147523198),
      (W 3210313671, W 2683837746), (W 3336571891, W 2118172722), (W 3584528711, W 219735012),
      (W 113926993, W 1450791201), (W 338241895, W 1864745719)] @
      [(W 666307205, W 3099395254), (W 773529912, W 3658165636), (W 1294757372, W 2797315907),
      (W 1396182291, W 4052052032), (W 1695183700, W 3426471652), (W 1986661051, W 1341491476),
      (W 2177026350, W 432160673), (W 2456956037, W 1286142092)] @
      [(W 2730485921, W 2170650716), (W 2820302411, W 195275929), (W 3259730800, W 3541557276),
      (W 3345764771, W 1799962234), (W 3516065817, W 3417288276), (W 3600352804, W 4226767647),
      (W 4094571909, W 1501268232), (W 275423344, W 1923461471)] @
      [(W 430227734, W 1403547688), (W 506948616, W 2517038610), (W 659060556, W 231623475),
      (W 883997877, W 2261380193), (W 958139571, W 4165732508), (W 1322822218, W 1139923421),
      (W 1537002063, W 1090207479), (W 1747873779, W 1095840247)] @
      [(W 1955562222, W 3898826045), (W 2024104815, W 3020618656), (W 2227730452, W 3573960136),
      (W 2361852424, W 3784715725), (W 2428436474, W 4116153615), (W 2756734187, W 171004917),
      (W 3204031479, W 2848861887), (W 3329325298, W 627572917)]"
    by (simp add: K256_W)
  have rounds: "foldl round256
      [W 497978297, W 937497625, W 701352008, W 2730694870, W 806750858, W 2876853270,
      W 3204291021, W 3207868344]
      (zip K256
      [W 0, W 0, W 0, W 0, W 0, W 0, W 0, W 0, W 0, W 0, W 0, W 0, W 0, W 0, W 0, W 480, W 0,
      W 13369344, W 0, W 2147496831, W 0, W 535834636, W 480, W 503345162, W 26738688,
      W 906218716, W 2147523198, W 2683837746, W 2118172722, W 219735012, W 1450791201,
      W 1864745719, W 3099395254, W 3658165636, W 2797315907, W 4052052032, W 3426471652,
      W 1341491476, W 432160673, W 1286142092, W 2170650716, W 195275929, W 3541557276,
      W 1799962234, W 3417288276, W 4226767647, W 1501268232, W 1923461471, W 1403547688,
      W 2517038610, W 231623475, W 2261380193, W 4165732508, W 1139923421, W 1090207479,
      W 1095840247, W 3898826045, W 3020618656, W 3573960136, W 3784715725, W 4116153615,
      W 171004917, W 2848861887, W 627572917]) =
      [W 11092846, W 1523051703, W 1112479595, W 563141253, W 2555996142, W 3744474678,
      W 3620442116, W 221713842]"
    by (simp only: z foldl_append r0 r8 r16 r24 r32 r40 r48 r56)
  have "rev (schedule256 48 (rev (words_of 16
      [B 0, B 0, B 0, B 0, B 0, B 0, B 0, B 0, B 0, B 0, B 0, B 0, B 0, B 0, B 0, B 0, B 0, B 0,
      B 0, B 0, B 0, B 0, B 0, B 0, B 0, B 0, B 0, B 0, B 0, B 0, B 0, B 0, B 0, B 0, B 0, B 0,
      B 0, B 0, B 0, B 0, B 0, B 0, B 0, B 0, B 0, B 0, B 0, B 0, B 0, B 0, B 0, B 0, B 0, B 0,
      B 0, B 0, B 0, B 0, B 0, B 0, B 0, B 0, B (Suc 0), B 224]))) =
      [W 0, W 0, W 0, W 0, W 0, W 0, W 0, W 0, W 0, W 0, W 0, W 0, W 0, W 0, W 0, W 480, W 0,
      W 13369344, W 0, W 2147496831, W 0, W 535834636, W 480, W 503345162, W 26738688,
      W 906218716, W 2147523198, W 2683837746, W 2118172722, W 219735012, W 1450791201,
      W 1864745719, W 3099395254, W 3658165636, W 2797315907, W 4052052032, W 3426471652,
      W 1341491476, W 432160673, W 1286142092, W 2170650716, W 195275929, W 3541557276,
      W 1799962234, W 3417288276, W 4226767647, W 1501268232, W 1923461471, W 1403547688,
      W 2517038610, W 231623475, W 2261380193, W 4165732508, W 1139923421, W 1090207479,
      W 1095840247, W 3898826045, W 3020618656, W 3573960136, W 3784715725, W 4116153615,
      W 171004917, W 2848861887, W 627572917]"
    by (simp add: ws sch)
  then show ?thesis
    by (simp add: block256_def Let_def rounds W_kit)
qed

lemma block256_second_1:
  "block256
     [W 1779033703, W 3144134277, W 1013904242, W 2773480762, W 1359893119, W 2600822924,
     W 528734635, W 1541459225]
     [B 86, B 83, B 79, B 32, B 67, B 111, B 110, B 116, B 101, B 110, B 116, B 32, B 73, B 100,
     B 101, B 110, B 116, B 105, B 102, B 105, B 101, B 114, B 32, B 83, B 101, B 101, B 100,
     B 227, B 176, B 196, B 66, B 152, B 252, B 28, B 20, B 154, B 251, B 244, B 200, B 153,
     B 111, B 185, B 36, B 39, B 174, B 65, B 228, B 100, B 155, B 147, B 76, B 164, B 149,
     B 153, B 27, B 120, B 82, B 184, B 85, B (Suc 0), B (Suc 0), B 128, B 0, B 0] =
     [W 960829701, W 3938487835, W 614201195, W 3782907925, W 1702870141, W 339759543,
     W 2217602508, W 2871802247]"
proof -
  have ws: "words_of 16
      [B 86, B 83, B 79, B 32, B 67, B 111, B 110, B 116, B 101, B 110, B 116, B 32, B 73,
      B 100, B 101, B 110, B 116, B 105, B 102, B 105, B 101, B 114, B 32, B 83, B 101, B 101,
      B 100, B 227, B 176, B 196, B 66, B 152, B 252, B 28, B 20, B 154, B 251, B 244, B 200,
      B 153, B 111, B 185, B 36, B 39, B 174, B 65, B 228, B 100, B 155, B 147, B 76, B 164,
      B 149, B 153, B 27, B 120, B 82, B 184, B 85, B (Suc 0), B (Suc 0), B 128, B 0, B 0] =
      [W 1448300320, W 1131376244, W 1701737504, W 1231316334, W 1953064553, W 1701978195,
      W 1701143779, W 2965652120, W 4229698714, W 4227123353, W 1874404391, W 2923553892,
      W 2610121892, W 2509839224, W 1387812097, W 25165824]"
    by (simp add: words_of_num be32_def W_kit)
  have sch: "schedule256 48
      [W 25165824, W 1387812097, W 2509839224, W 2610121892, W 2923553892, W 1874404391,
      W 4227123353, W 4229698714, W 2965652120, W 1701143779, W 1701978195, W 1953064553,
      W 1231316334, W 1701737504, W 1131376244, W 1448300320] =
      [W 4098690976, W 2260754499, W 3553582812, W 1794599230, W 2006040788, W 88972073,
      W 4033775400, W 3826592686, W 1924896512, W 3974009286, W 946423029, W 3924515824,
      W 3475570038, W 3631950065, W 1727945883, W 3869619044, W 301342470, W 814077857,
      W 3706289746, W 3521964244, W 1890416281, W 2755021276, W 515717027, W 3660846991,
      W 1746401, W 2830187953, W 1838270757, W 3868250580, W 2517283374, W 343901387,
      W 2160759022, W 228357516, W 2720154244, W 3112534898, W 2350214778, W 3076141194,
      W 3176333659, W 614781656, W 2206544218, W 3070471416, W 136335943, W 4162856603,
      W 2202169269, W 1191035408, W 1804569683, W 1510305439, W 2224553666, W 2918344864,
      W 25165824, W 1387812097, W 2509839224, W 2610121892, W 2923553892, W 1874404391,
      W 4227123353, W 4229698714, W 2965652120, W 1701143779, W 1701978195, W 1953064553,
      W 1231316334, W 1701737504, W 1131376244, W 1448300320]"
    by (simp add: schedule256_num Let_def rotr_def W_kit cong: let_weak_cong)
  have r0: "foldl round256
      [W 1779033703, W 3144134277, W 1013904242, W 2773480762, W 1359893119, W 2600822924,
      W 528734635, W 1541459225]
      [(W 1116352408, W 1448300320), (W 1899447441, W 1131376244), (W 3049323471, W 1701737504),
      (W 3921009573, W 1231316334), (W 961987163, W 1953064553), (W 1508970993, W 1701978195),
      (W 2453635748, W 1701143779), (W 2870763221, W 2965652120)] =
      [W 1525039554, W 3593132511, W 1630301930, W 2059839042, W 3279232616, W 44854131,
      W 248471894, W 3444626955]"
    by (simp add: round256_def Let_def rotr_def W_kit cong: let_weak_cong)
  have r8: "foldl round256
      [W 1525039554, W 3593132511, W 1630301930, W 2059839042, W 3279232616, W 44854131,
      W 248471894, W 3444626955]
      [(W 3624381080, W 4229698714), (W 310598401, W 4227123353), (W 607225278, W 1874404391),
      (W 1426881987, W 2923553892), (W 1925078388, W 2610121892), (W 2162078206, W 2509839224),
      (W 2614888103, W 1387812097), (W 3248222580, W 25165824)] =
      [W 157326326, W 3449964153, W 552665318, W 3391773512, W 1449412082, W 2212612187,
      W 3035527860, W 1942198037]"
    by (simp add: round256_def Let_def rotr_def W_kit cong: let_weak_cong)
  have r16: "foldl round256
      [W 157326326, W 3449964153, W 552665318, W 3391773512, W 1449412082, W 2212612187,
      W 3035527860, W 1942198037]
      [(W 3835390401, W 2918344864), (W 4022224774, W 2224553666), (W 264347078, W 1510305439),
      (W 604807628, W 1804569683), (W 770255983, W 1191035408), (W 1249150122, W 2202169269),
      (W 1555081692, W 4162856603), (W 1996064986, W 136335943)] =
      [W 2439698077, W 1475012170, W 1691536108, W 219387733, W 102479763, W 2056468922,
      W 1700640804, W 1277399428]"
    by (simp add: round256_def Let_def rotr_def W_kit cong: let_weak_cong)
  have r24: "foldl round256
      [W 2439698077, W 1475012170, W 1691536108, W 219387733, W 102479763, W 2056468922,
      W 1700640804, W 1277399428]
      [(W 2554220882, W 3070471416), (W 2821834349, W 2206544218), (W 2952996808, W 614781656),
      (W 3210313671, W 3176333659), (W 3336571891, W 3076141194), (W 3584528711, W 2350214778),
      (W 113926993, W 3112534898), (W 338241895, W 2720154244)] =
      [W 2581385217, W 3433748528, W 550552365, W 3246461530, W 2268247670, W 1811221055,
      W 3279070212, W 3157466211]"
    by (simp add: round256_def Let_def rotr_def W_kit cong: let_weak_cong)
  have r32: "foldl round256
      [W 2581385217, W 3433748528, W 550552365, W 3246461530, W 2268247670, W 1811221055,
      W 3279070212, W 3157466211]
      [(W 666307205, W 228357516), (W 773529912, W 2160759022), (W 1294757372, W 343901387),
      (W 1396182291, W 2517283374), (W 1695183700, W 3868250580), (W 1986661051, W 1838270757),
      (W 2177026350, W 2830187953), (W 2456956037, W 1746401)] =
      [W 2960515186, W 4080889116, W 71749600, W 46580373, W 473669012, W 4110267364,
      W 3670866162, W 3725177768]"
    by (simp add: round256_def Let_def rotr_def W_kit cong: let_weak_cong)
  have r40: "foldl round256
      [W 2960515186, W 4080889116, W 71749600, W 46580373, W 473669012, W 4110267364,
      W 3670866162, W 3725177768]
      [(W 2730485921, W 3660846991), (W 2820302411, W 515717027), (W 3259730800, W 2755021276),
      (W 3345764771, W 1890416281), (W 3516065817, W 3521964244), (W 3600352804, W 3706289746),
      (W 4094571909, W 814077857), (W 275423344, W 301342470)] =
      [W 4090240331, W 3506732159, W 1370151593, W 2708811758, W 3901908303, W 4001696244,
      W 1249578683, W 19051547]"
    by (simp add: round256_def Let_def rotr_def W_kit cong: let_weak_cong)
  have r48: "foldl round256
      [W 4090240331, W 3506732159, W 1370151593, W 2708811758, W 3901908303, W 4001696244,
      W 1249578683, W 19051547]
      [(W 430227734, W 3869619044), (W 506948616, W 1727945883), (W 659060556, W 3631950065),
      (W 883997877, W 3475570038), (W 958139571, W 3924515824), (W 1322822218, W 946423029),
      (W 1537002063, W 3974009286), (W 1747873779, W 1924896512)] =
      [W 4174530033, W 1918778990, W 2732618021, W 1823964135, W 143191401, W 2537936320,
      W 2048055169, W 3986481610]"
    by (simp add: round256_def Let_def rotr_def W_kit cong: let_weak_cong)
  have r56: "foldl round256
      [W 4174530033, W 1918778990, W 2732618021, W 1823964135, W 143191401, W 2537936320,
      W 2048055169, W 3986481610]
      [(W 1955562222, W 3826592686), (W 2024104815, W 4033775400), (W 2227730452, W 88972073),
      (W 2361852424, W 2006040788), (W 2428436474, W 1794599230), (W 2756734187, W 3553582812),
      (W 3204031479, W 2260754499), (W 3329325298, W 4098690976)] =
      [W 3476763294, W 794353558, W 3895264249, W 1009427163, W 342977022, W 2033903915,
      W 1688867873, W 1330343022]"
    by (simp add: round256_def Let_def rotr_def W_kit cong: let_weak_cong)
  have z: "zip K256
      [W 1448300320, W 1131376244, W 1701737504, W 1231316334, W 1953064553, W 1701978195,
      W 1701143779, W 2965652120, W 4229698714, W 4227123353, W 1874404391, W 2923553892,
      W 2610121892, W 2509839224, W 1387812097, W 25165824, W 2918344864, W 2224553666,
      W 1510305439, W 1804569683, W 1191035408, W 2202169269, W 4162856603, W 136335943,
      W 3070471416, W 2206544218, W 614781656, W 3176333659, W 3076141194, W 2350214778,
      W 3112534898, W 2720154244, W 228357516, W 2160759022, W 343901387, W 2517283374,
      W 3868250580, W 1838270757, W 2830187953, W 1746401, W 3660846991, W 515717027,
      W 2755021276, W 1890416281, W 3521964244, W 3706289746, W 814077857, W 301342470,
      W 3869619044, W 1727945883, W 3631950065, W 3475570038, W 3924515824, W 946423029,
      W 3974009286, W 1924896512, W 3826592686, W 4033775400, W 88972073, W 2006040788,
      W 1794599230, W 3553582812, W 2260754499, W 4098690976] =
      [(W 1116352408, W 1448300320), (W 1899447441, W 1131376244), (W 3049323471, W 1701737504),
      (W 3921009573, W 1231316334), (W 961987163, W 1953064553), (W 1508970993, W 1701978195),
      (W 2453635748, W 1701143779), (W 2870763221, W 2965652120)] @
      [(W 3624381080, W 4229698714), (W 310598401, W 4227123353), (W 607225278, W 1874404391),
      (W 1426881987, W 2923553892), (W 1925078388, W 2610121892), (W 2162078206, W 2509839224),
      (W 2614888103, W 1387812097), (W 3248222580, W 25165824)] @
      [(W 3835390401, W 2918344864), (W 4022224774, W 2224553666), (W 264347078, W 1510305439),
      (W 604807628, W 1804569683), (W 770255983, W 1191035408), (W 1249150122, W 2202169269),
      (W 1555081692, W 4162856603), (W 1996064986, W 136335943)] @
      [(W 2554220882, W 3070471416), (W 2821834349, W 2206544218), (W 2952996808, W 614781656),
      (W 3210313671, W 3176333659), (W 3336571891, W 3076141194), (W 3584528711, W 2350214778),
      (W 113926993, W 3112534898), (W 338241895, W 2720154244)] @
      [(W 666307205, W 228357516), (W 773529912, W 2160759022), (W 1294757372, W 343901387),
      (W 1396182291, W 2517283374), (W 1695183700, W 3868250580), (W 1986661051, W 1838270757),
      (W 2177026350, W 2830187953), (W 2456956037, W 1746401)] @
      [(W 2730485921, W 3660846991), (W 2820302411, W 515717027), (W 3259730800, W 2755021276),
      (W 3345764771, W 1890416281), (W 3516065817, W 3521964244), (W 3600352804, W 3706289746),
      (W 4094571909, W 814077857), (W 275423344, W 301342470)] @
      [(W 430227734, W 3869619044), (W 506948616, W 1727945883), (W 659060556, W 3631950065),
      (W 883997877, W 3475570038), (W 958139571, W 3924515824), (W 1322822218, W 946423029),
      (W 1537002063, W 3974009286), (W 1747873779, W 1924896512)] @
      [(W 1955562222, W 3826592686), (W 2024104815, W 4033775400), (W 2227730452, W 88972073),
      (W 2361852424, W 2006040788), (W 2428436474, W 1794599230), (W 2756734187, W 3553582812),
      (W 3204031479, W 2260754499), (W 3329325298, W 4098690976)]"
    by (simp add: K256_W)
  have rounds: "foldl round256
      [W 1779033703, W 3144134277, W 1013904242, W 2773480762, W 1359893119, W 2600822924,
      W 528734635, W 1541459225]
      (zip K256
      [W 1448300320, W 1131376244, W 1701737504, W 1231316334, W 1953064553, W 1701978195,
      W 1701143779, W 2965652120, W 4229698714, W 4227123353, W 1874404391, W 2923553892,
      W 2610121892, W 2509839224, W 1387812097, W 25165824, W 2918344864, W 2224553666,
      W 1510305439, W 1804569683, W 1191035408, W 2202169269, W 4162856603, W 136335943,
      W 3070471416, W 2206544218, W 614781656, W 3176333659, W 3076141194, W 2350214778,
      W 3112534898, W 2720154244, W 228357516, W 2160759022, W 343901387, W 2517283374,
      W 3868250580, W 1838270757, W 2830187953, W 1746401, W 3660846991, W 515717027,
      W 2755021276, W 1890416281, W 3521964244, W 3706289746, W 814077857, W 301342470,
      W 3869619044, W 1727945883, W 3631950065, W 3475570038, W 3924515824, W 946423029,
      W 3974009286, W 1924896512, W 3826592686, W 4033775400, W 88972073, W 2006040788,
      W 1794599230, W 3553582812, W 2260754499, W 4098690976]) =
      [W 3476763294, W 794353558, W 3895264249, W 1009427163, W 342977022, W 2033903915,
      W 1688867873, W 1330343022]"
    by (simp only: z foldl_append r0 r8 r16 r24 r32 r40 r48 r56)
  have "rev (schedule256 48 (rev (words_of 16
      [B 86, B 83, B 79, B 32, B 67, B 111, B 110, B 116, B 101, B 110, B 116, B 32, B 73,
      B 100, B 101, B 110, B 116, B 105, B 102, B 105, B 101, B 114, B 32, B 83, B 101, B 101,
      B 100, B 227, B 176, B 196, B 66, B 152, B 252, B 28, B 20, B 154, B 251, B 244, B 200,
      B 153, B 111, B 185, B 36, B 39, B 174, B 65, B 228, B 100, B 155, B 147, B 76, B 164,
      B 149, B 153, B 27, B 120, B 82, B 184, B 85, B (Suc 0), B (Suc 0), B 128, B 0, B 0]))) =
      [W 1448300320, W 1131376244, W 1701737504, W 1231316334, W 1953064553, W 1701978195,
      W 1701143779, W 2965652120, W 4229698714, W 4227123353, W 1874404391, W 2923553892,
      W 2610121892, W 2509839224, W 1387812097, W 25165824, W 2918344864, W 2224553666,
      W 1510305439, W 1804569683, W 1191035408, W 2202169269, W 4162856603, W 136335943,
      W 3070471416, W 2206544218, W 614781656, W 3176333659, W 3076141194, W 2350214778,
      W 3112534898, W 2720154244, W 228357516, W 2160759022, W 343901387, W 2517283374,
      W 3868250580, W 1838270757, W 2830187953, W 1746401, W 3660846991, W 515717027,
      W 2755021276, W 1890416281, W 3521964244, W 3706289746, W 814077857, W 301342470,
      W 3869619044, W 1727945883, W 3631950065, W 3475570038, W 3924515824, W 946423029,
      W 3974009286, W 1924896512, W 3826592686, W 4033775400, W 88972073, W 2006040788,
      W 1794599230, W 3553582812, W 2260754499, W 4098690976]"
    by (simp add: ws sch)
  then show ?thesis
    by (simp add: block256_def Let_def rounds W_kit)
qed

lemma block256_second_2:
  "block256
     [W 960829701, W 3938487835, W 614201195, W 3782907925, W 1702870141, W 339759543,
     W 2217602508, W 2871802247]
     [B 0, B 0, B 0, B 0, B 0, B 0, B 0, B 0, B 0, B 0, B 0, B 0, B 0, B 0, B 0, B 0, B 0, B 0,
     B 0, B 0, B 0, B 0, B 0, B 0, B 0, B 0, B 0, B 0, B 0, B 0, B 0, B 0, B 0, B 0, B 0, B 0,
     B 0, B 0, B 0, B 0, B 0, B 0, B 0, B 0, B 0, B 0, B 0, B 0, B 0, B 0, B 0, B 0, B 0, B 0,
     B 0, B 0, B 0, B 0, B 0, B 0, B 0, B 0, B (Suc 0), B 232] =
     [W 1170405046, W 3854561706, W 1450878323, W 4051274287, W 2809339353, W 638267181,
     W 387863648, W 3555886927]"
proof -
  have ws: "words_of 16
      [B 0, B 0, B 0, B 0, B 0, B 0, B 0, B 0, B 0, B 0, B 0, B 0, B 0, B 0, B 0, B 0, B 0, B 0,
      B 0, B 0, B 0, B 0, B 0, B 0, B 0, B 0, B 0, B 0, B 0, B 0, B 0, B 0, B 0, B 0, B 0, B 0,
      B 0, B 0, B 0, B 0, B 0, B 0, B 0, B 0, B 0, B 0, B 0, B 0, B 0, B 0, B 0, B 0, B 0, B 0,
      B 0, B 0, B 0, B 0, B 0, B 0, B 0, B 0, B (Suc 0), B 232] =
      [W 0, W 0, W 0, W 0, W 0, W 0, W 0, W 0, W 0, W 0, W 0, W 0, W 0, W 0, W 0, W 488]"
    by (simp add: words_of_num be32_def W_kit)
  have sch: "schedule256 48
      [W 488, W 0, W 0, W 0, W 0, W 0, W 0, W 0, W 0, W 0, W 0, W 0, W 0, W 0, W 0, W 0] =
      [W 724751596, W 1151785421, W 1088225945, W 2700918060, W 2369208577, W 4063474381,
      W 1659599101, W 3394536396, W 3310572016, W 700170692, W 3197371686, W 600455725,
      W 357804503, W 2427563859, W 4247646058, W 2039771297, W 3991181659, W 705030959,
      W 2898135478, W 952227401, W 3036112777, W 790442163, W 3752936227, W 668194874,
      W 1122721395, W 2822173583, W 1006928755, W 3548398569, W 3103583532, W 2956592806,
      W 327431032, W 1382068574, W 1703596294, W 1627073231, W 1291909561, W 2032455729,
      W 4258929971, W 3758134968, W 572628100, W 26345472, W 2659209231, W 488, W 527524876,
      W 0, W 2684367421, W 0, W 13172736, W 0, W 488, W 0, W 0, W 0, W 0, W 0, W 0, W 0, W 0,
      W 0, W 0, W 0, W 0, W 0, W 0, W 0]"
    by (simp add: schedule256_num Let_def rotr_def W_kit cong: let_weak_cong)
  have r0: "foldl round256
      [W 960829701, W 3938487835, W 614201195, W 3782907925, W 1702870141, W 339759543,
      W 2217602508, W 2871802247]
      [(W 1116352408, W 0), (W 1899447441, W 0), (W 3049323471, W 0), (W 3921009573, W 0),
      (W 961987163, W 0), (W 1508970993, W 0), (W 2453635748, W 0), (W 2870763221, W 0)] =
      [W 2337105481, W 759245025, W 3168276014, W 2938416956, W 1963133364, W 2092331475,
      W 191381159, W 1795665622]"
    by (simp add: round256_def Let_def rotr_def W_kit cong: let_weak_cong)
  have r8: "foldl round256
      [W 2337105481, W 759245025, W 3168276014, W 2938416956, W 1963133364, W 2092331475,
      W 191381159, W 1795665622]
      [(W 3624381080, W 0), (W 310598401, W 0), (W 607225278, W 0), (W 1426881987, W 0),
      (W 1925078388, W 0), (W 2162078206, W 0), (W 2614888103, W 0), (W 3248222580, W 488)] =
      [W 2234389032, W 3401333967, W 2146649685, W 3385221475, W 3392635347, W 445372055,
      W 2301948293, W 307411572]"
    by (simp add: round256_def Let_def rotr_def W_kit cong: let_weak_cong)
  have r16: "foldl round256
      [W 2234389032, W 3401333967, W 2146649685, W 3385221475, W 3392635347, W 445372055,
      W 2301948293, W 307411572]
      [(W 3835390401, W 0), (W 4022224774, W 13172736), (W 264347078, W 0),
      (W 604807628, W 2684367421), (W 770255983, W 0), (W 1249150122, W 527524876),
      (W 1555081692, W 488), (W 1996064986, W 2659209231)] =
      [W 3429526998, W 1055962535, W 863433795, W 790518347, W 3851387273, W 2483189522,
      W 2320615142, W 1586861378]"
    by (simp add: round256_def Let_def rotr_def W_kit cong: let_weak_cong)
  have r24: "foldl round256
      [W 3429526998, W 1055962535, W 863433795, W 790518347, W 3851387273, W 2483189522,
      W 2320615142, W 1586861378]
      [(W 2554220882, W 26345472), (W 2821834349, W 572628100), (W 2952996808, W 3758134968),
      (W 3210313671, W 4258929971), (W 3336571891, W 2032455729), (W 3584528711, W 1291909561),
      (W 113926993, W 1627073231), (W 338241895, W 1703596294)] =
      [W 4014400404, W 1921745822, W 2552985252, W 2248868979, W 2582381904, W 1937996181,
      W 250918934, W 1003046465]"
    by (simp add: round256_def Let_def rotr_def W_kit cong: let_weak_cong)
  have r32: "foldl round256
      [W 4014400404, W 1921745822, W 2552985252, W 2248868979, W 2582381904, W 1937996181,
      W 250918934, W 1003046465]
      [(W 666307205, W 1382068574), (W 773529912, W 327431032), (W 1294757372, W 2956592806),
      (W 1396182291, W 3103583532), (W 1695183700, W 3548398569), (W 1986661051, W 1006928755),
      (W 2177026350, W 2822173583), (W 2456956037, W 1122721395)] =
      [W 262658351, W 1363988325, W 2455330388, W 997232776, W 3862734219, W 2735570902,
      W 3541722938, W 1562991507]"
    by (simp add: round256_def Let_def rotr_def W_kit cong: let_weak_cong)
  have r40: "foldl round256
      [W 262658351, W 1363988325, W 2455330388, W 997232776, W 3862734219, W 2735570902,
      W 3541722938, W 1562991507]
      [(W 2730485921, W 668194874), (W 2820302411, W 3752936227), (W 3259730800, W 790442163),
      (W 3345764771, W 3036112777), (W 3516065817, W 952227401), (W 3600352804, W 2898135478),
      (W 4094571909, W 705030959), (W 275423344, W 3991181659)] =
      [W 3526267, W 3968826291, W 822943604, W 2451764572, W 1183121080, W 3798380360,
      W 1451923574, W 2531638217]"
    by (simp add: round256_def Let_def rotr_def W_kit cong: let_weak_cong)
  have r48: "foldl round256
      [W 3526267, W 3968826291, W 822943604, W 2451764572, W 1183121080, W 3798380360,
      W 1451923574, W 2531638217]
      [(W 430227734, W 2039771297), (W 506948616, W 4247646058), (W 659060556, W 2427563859),
      (W 883997877, W 357804503), (W 958139571, W 600455725), (W 1322822218, W 3197371686),
      (W 1537002063, W 700170692), (W 1747873779, W 3310572016)] =
      [W 938423549, W 3382549988, W 4007759600, W 1103184143, W 1029171337, W 4204897054,
      W 3363524066, W 2986504949]"
    by (simp add: round256_def Let_def rotr_def W_kit cong: let_weak_cong)
  have r56: "foldl round256
      [W 938423549, W 3382549988, W 4007759600, W 1103184143, W 1029171337, W 4204897054,
      W 3363524066, W 2986504949]
      [(W 1955562222, W 3394536396), (W 2024104815, W 1659599101), (W 2227730452, W 4063474381),
      (W 2361852424, W 2369208577), (W 2428436474, W 2700918060), (W 2756734187, W 1088225945),
      (W 3204031479, W 1151785421), (W 3329325298, W 724751596)] =
      [W 209575345, W 4211041167, W 836677128, W 268366362, W 1106469212, W 298507638,
      W 2465228436, W 684084680]"
    by (simp add: round256_def Let_def rotr_def W_kit cong: let_weak_cong)
  have z: "zip K256
      [W 0, W 0, W 0, W 0, W 0, W 0, W 0, W 0, W 0, W 0, W 0, W 0, W 0, W 0, W 0, W 488, W 0,
      W 13172736, W 0, W 2684367421, W 0, W 527524876, W 488, W 2659209231, W 26345472,
      W 572628100, W 3758134968, W 4258929971, W 2032455729, W 1291909561, W 1627073231,
      W 1703596294, W 1382068574, W 327431032, W 2956592806, W 3103583532, W 3548398569,
      W 1006928755, W 2822173583, W 1122721395, W 668194874, W 3752936227, W 790442163,
      W 3036112777, W 952227401, W 2898135478, W 705030959, W 3991181659, W 2039771297,
      W 4247646058, W 2427563859, W 357804503, W 600455725, W 3197371686, W 700170692,
      W 3310572016, W 3394536396, W 1659599101, W 4063474381, W 2369208577, W 2700918060,
      W 1088225945, W 1151785421, W 724751596] =
      [(W 1116352408, W 0), (W 1899447441, W 0), (W 3049323471, W 0), (W 3921009573, W 0),
      (W 961987163, W 0), (W 1508970993, W 0), (W 2453635748, W 0), (W 2870763221, W 0)] @
      [(W 3624381080, W 0), (W 310598401, W 0), (W 607225278, W 0), (W 1426881987, W 0),
      (W 1925078388, W 0), (W 2162078206, W 0), (W 2614888103, W 0), (W 3248222580, W 488)] @
      [(W 3835390401, W 0), (W 4022224774, W 13172736), (W 264347078, W 0),
      (W 604807628, W 2684367421), (W 770255983, W 0), (W 1249150122, W 527524876),
      (W 1555081692, W 488), (W 1996064986, W 2659209231)] @
      [(W 2554220882, W 26345472), (W 2821834349, W 572628100), (W 2952996808, W 3758134968),
      (W 3210313671, W 4258929971), (W 3336571891, W 2032455729), (W 3584528711, W 1291909561),
      (W 113926993, W 1627073231), (W 338241895, W 1703596294)] @
      [(W 666307205, W 1382068574), (W 773529912, W 327431032), (W 1294757372, W 2956592806),
      (W 1396182291, W 3103583532), (W 1695183700, W 3548398569), (W 1986661051, W 1006928755),
      (W 2177026350, W 2822173583), (W 2456956037, W 1122721395)] @
      [(W 2730485921, W 668194874), (W 2820302411, W 3752936227), (W 3259730800, W 790442163),
      (W 3345764771, W 3036112777), (W 3516065817, W 952227401), (W 3600352804, W 2898135478),
      (W 4094571909, W 705030959), (W 275423344, W 3991181659)] @
      [(W 430227734, W 2039771297), (W 506948616, W 4247646058), (W 659060556, W 2427563859),
      (W 883997877, W 357804503), (W 958139571, W 600455725), (W 1322822218, W 3197371686),
      (W 1537002063, W 700170692), (W 1747873779, W 3310572016)] @
      [(W 1955562222, W 3394536396), (W 2024104815, W 1659599101), (W 2227730452, W 4063474381),
      (W 2361852424, W 2369208577), (W 2428436474, W 2700918060), (W 2756734187, W 1088225945),
      (W 3204031479, W 1151785421), (W 3329325298, W 724751596)]"
    by (simp add: K256_W)
  have rounds: "foldl round256
      [W 960829701, W 3938487835, W 614201195, W 3782907925, W 1702870141, W 339759543,
      W 2217602508, W 2871802247]
      (zip K256
      [W 0, W 0, W 0, W 0, W 0, W 0, W 0, W 0, W 0, W 0, W 0, W 0, W 0, W 0, W 0, W 488, W 0,
      W 13172736, W 0, W 2684367421, W 0, W 527524876, W 488, W 2659209231, W 26345472,
      W 572628100, W 3758134968, W 4258929971, W 2032455729, W 1291909561, W 1627073231,
      W 1703596294, W 1382068574, W 327431032, W 2956592806, W 3103583532, W 3548398569,
      W 1006928755, W 2822173583, W 1122721395, W 668194874, W 3752936227, W 790442163,
      W 3036112777, W 952227401, W 2898135478, W 705030959, W 3991181659, W 2039771297,
      W 4247646058, W 2427563859, W 357804503, W 600455725, W 3197371686, W 700170692,
      W 3310572016, W 3394536396, W 1659599101, W 4063474381, W 2369208577, W 2700918060,
      W 1088225945, W 1151785421, W 724751596]) =
      [W 209575345, W 4211041167, W 836677128, W 268366362, W 1106469212, W 298507638,
      W 2465228436, W 684084680]"
    by (simp only: z foldl_append r0 r8 r16 r24 r32 r40 r48 r56)
  have "rev (schedule256 48 (rev (words_of 16
      [B 0, B 0, B 0, B 0, B 0, B 0, B 0, B 0, B 0, B 0, B 0, B 0, B 0, B 0, B 0, B 0, B 0, B 0,
      B 0, B 0, B 0, B 0, B 0, B 0, B 0, B 0, B 0, B 0, B 0, B 0, B 0, B 0, B 0, B 0, B 0, B 0,
      B 0, B 0, B 0, B 0, B 0, B 0, B 0, B 0, B 0, B 0, B 0, B 0, B 0, B 0, B 0, B 0, B 0, B 0,
      B 0, B 0, B 0, B 0, B 0, B 0, B 0, B 0, B (Suc 0), B 232]))) =
      [W 0, W 0, W 0, W 0, W 0, W 0, W 0, W 0, W 0, W 0, W 0, W 0, W 0, W 0, W 0, W 488, W 0,
      W 13172736, W 0, W 2684367421, W 0, W 527524876, W 488, W 2659209231, W 26345472,
      W 572628100, W 3758134968, W 4258929971, W 2032455729, W 1291909561, W 1627073231,
      W 1703596294, W 1382068574, W 327431032, W 2956592806, W 3103583532, W 3548398569,
      W 1006928755, W 2822173583, W 1122721395, W 668194874, W 3752936227, W 790442163,
      W 3036112777, W 952227401, W 2898135478, W 705030959, W 3991181659, W 2039771297,
      W 4247646058, W 2427563859, W 357804503, W 600455725, W 3197371686, W 700170692,
      W 3310572016, W 3394536396, W 1659599101, W 4063474381, W 2369208577, W 2700918060,
      W 1088225945, W 1151785421, W 724751596]"
    by (simp add: ws sch)
  then show ?thesis
    by (simp add: block256_def Let_def rounds W_kit)
qed

text \<open>The digest of the empty string, and the two digests that finishing an empty hasher takes.\<close>

lemma Sum256_empty:
  "Sum256 [] =
     [0xe3, 0xb0, 0xc4, 0x42, 0x98, 0xfc, 0x1c, 0x14, 0x9a, 0xfb, 0xf4, 0xc8, 0x99, 0x6f, 0xb9,
     0x24, 0x27, 0xae, 0x41, 0xe4, 0x64, 0x9b, 0x93, 0x4c, 0xa4, 0x95, 0x99, 0x1b, 0x78, 0x52,
     0xb8, 0x55]"
proof -
  have p: "pad256
      [] =
      [B 128, B 0, B 0, B 0, B 0, B 0, B 0, B 0, B 0, B 0, B 0, B 0, B 0, B 0, B 0, B 0, B 0,
      B 0, B 0, B 0, B 0, B 0, B 0, B 0, B 0, B 0, B 0, B 0, B 0, B 0, B 0, B 0, B 0, B 0, B 0,
      B 0, B 0, B 0, B 0, B 0, B 0, B 0, B 0, B 0, B 0, B 0, B 0, B 0, B 0, B 0, B 0, B 0, B 0,
      B 0, B 0, B 0, B 0, B 0, B 0, B 0, B 0, B 0, B 0, B 0]"
    by (simp add: pad256_def be_bytes_8 replicate_num B_def)
  have "blocks256 init256 (pad256
      []) =
      [W 3820012610, W 2566659092, W 2600203464, W 2574235940, W 665731556, W 1687917388,
      W 2761267483, W 2018687061]"
    by (simp add: p blocks256_one init256_W block256_empty)
  then show ?thesis
    by (simp add: Sum256_def be_bytes_4 W_kit B_def)
qed

lemma Sum256_first:
  "Sum256 (seed @ Sum256 [] @ [0x01]) =
     [0x1e, 0x57, 0xcf, 0x27, 0x92, 0xa9, 0x00, 0xd0, 0x6c, 0x1c, 0xdf, 0xb3, 0xc4, 0x53, 0xf3,
     0x5b, 0xc8, 0x6f, 0x72, 0x78, 0x8a, 0xa9, 0x72, 0x4c, 0x96, 0xc9, 0x29, 0xd1, 0xcc, 0x6b,
     0x45, 0x6a]"
proof -
  have m: "seed @ Sum256 [] @ [0x01] =
      [0x56, 0x53, 0x4f, 0x20, 0x43, 0x6f, 0x6e, 0x74, 0x65, 0x6e, 0x74, 0x20, 0x49, 0x64, 0x65,
      0x6e, 0x74, 0x69, 0x66, 0x69, 0x65, 0x72, 0x20, 0x53, 0x65, 0x65, 0x64, 0xe3, 0xb0, 0xc4,
      0x42, 0x98, 0xfc, 0x1c, 0x14, 0x9a, 0xfb, 0xf4, 0xc8, 0x99, 0x6f, 0xb9, 0x24, 0x27, 0xae,
      0x41, 0xe4, 0x64, 0x9b, 0x93, 0x4c, 0xa4, 0x95, 0x99, 0x1b, 0x78, 0x52, 0xb8, 0x55, 0x01]"
    by (simp add: seed_def Sum256_empty)
  have p: "pad256
      [0x56, 0x53, 0x4f, 0x20, 0x43, 0x6f, 0x6e, 0x74, 0x65, 0x6e, 0x74, 0x20, 0x49, 0x64, 0x65,
      0x6e, 0x74, 0x69, 0x66, 0x69, 0x65, 0x72, 0x20, 0x53, 0x65, 0x65, 0x64, 0xe3, 0xb0, 0xc4,
      0x42, 0x98, 0xfc, 0x1c, 0x14, 0x9a, 0xfb, 0xf4, 0xc8, 0x99, 0x6f, 0xb9, 0x24, 0x27, 0xae,
      0x41, 0xe4, 0x64, 0x9b, 0x93, 0x4c, 0xa4, 0x95, 0x99, 0x1b, 0x78, 0x52, 0xb8, 0x55, 0x01] =
      [B 86, B 83, B 79, B 32, B 67, B 111, B 110, B 116, B 101, B 110, B 116, B 32, B 73,
      B 100, B 101, B 110, B 116, B 105, B 102, B 105, B 101, B 114, B 32, B 83, B 101, B 101,
      B 100, B 227, B 176, B 196, B 66, B 152, B 252, B 28, B 20, B 154, B 251, B 244, B 200,
      B 153, B 111, B 185, B 36, B 39, B 174, B 65, B 228, B 100, B 155, B 147, B 76, B 164,
      B 149, B 153, B 27, B 120, B 82, B 184, B 85, B (Suc 0), B 128, B 0, B 0, B 0, B 0, B 0,
      B 0, B 0, B 0, B 0, B 0, B 0, B 0, B 0, B 0, B 0, B 0, B 0, B 0, B 0, B 0, B 0, B 0, B 0,
      B 0, B 0, B 0, B 0, B 0, B 0, B 0, B 0, B 0, B 0, B 0, B 0, B 0, B 0, B 0, B 0, B 0, B 0,
      B 0, B 0, B 0, B 0, B 0, B 0, B 0, B 0, B 0, B 0, B 0, B 0, B 0, B 0, B 0, B 0, B 0, B 0,
      B 0, B 0, B 0, B 0, B 0, B 0, B (Suc 0), B 224]"
    by (simp add: pad256_def be_bytes_8 replicate_num B_def)
  have "blocks256 init256 (pad256
      [0x56, 0x53, 0x4f, 0x20, 0x43, 0x6f, 0x6e, 0x74, 0x65, 0x6e, 0x74, 0x20, 0x49, 0x64, 0x65,
      0x6e, 0x74, 0x69, 0x66, 0x69, 0x65, 0x72, 0x20, 0x53, 0x65, 0x65, 0x64, 0xe3, 0xb0, 0xc4,
      0x42, 0x98, 0xfc, 0x1c, 0x14, 0x9a, 0xfb, 0xf4, 0xc8, 0x99, 0x6f, 0xb9, 0x24, 0x27, 0xae,
      0x41, 0xe4, 0x64, 0x9b, 0x93, 0x4c, 0xa4, 0x95, 0x99, 0x1b, 0x78, 0x52, 0xb8, 0x55, 0x01]) =
      [W 509071143, W 2460549328, W 1813831603, W 3293836123, W 3362747000, W 2326360652,
      W 2529765841, W 3429582186]"
    by (simp add: p blocks256_two init256_W block256_first_1 block256_first_2)
  then show ?thesis
    by (simp only: m) (simp add: Sum256_def be_bytes_4 W_kit B_def)
qed

lemma Sum256_second:
  "Sum256 (seed @ Sum256 [] @ [0x01, 0x01]) =
     [0x45, 0xc2, 0xf6, 0xb6, 0xe5, 0xbf, 0xf1, 0xaa, 0x56, 0x7a, 0xa5, 0x73, 0xf1, 0x79, 0x8a,
     0x2f, 0xa7, 0x73, 0x1d, 0xd9, 0x26, 0x0b, 0x2f, 0x2d, 0x17, 0x1e, 0x54, 0x60, 0xd3, 0xf2,
     0x87, 0x4f]"
proof -
  have m: "seed @ Sum256 [] @ [0x01, 0x01] =
      [0x56, 0x53, 0x4f, 0x20, 0x43, 0x6f, 0x6e, 0x74, 0x65, 0x6e, 0x74, 0x20, 0x49, 0x64, 0x65,
      0x6e, 0x74, 0x69, 0x66, 0x69, 0x65, 0x72, 0x20, 0x53, 0x65, 0x65, 0x64, 0xe3, 0xb0, 0xc4,
      0x42, 0x98, 0xfc, 0x1c, 0x14, 0x9a, 0xfb, 0xf4, 0xc8, 0x99, 0x6f, 0xb9, 0x24, 0x27, 0xae,
      0x41, 0xe4, 0x64, 0x9b, 0x93, 0x4c, 0xa4, 0x95, 0x99, 0x1b, 0x78, 0x52, 0xb8, 0x55, 0x01,
      0x01]"
    by (simp add: seed_def Sum256_empty)
  have p: "pad256
      [0x56, 0x53, 0x4f, 0x20, 0x43, 0x6f, 0x6e, 0x74, 0x65, 0x6e, 0x74, 0x20, 0x49, 0x64, 0x65,
      0x6e, 0x74, 0x69, 0x66, 0x69, 0x65, 0x72, 0x20, 0x53, 0x65, 0x65, 0x64, 0xe3, 0xb0, 0xc4,
      0x42, 0x98, 0xfc, 0x1c, 0x14, 0x9a, 0xfb, 0xf4, 0xc8, 0x99, 0x6f, 0xb9, 0x24, 0x27, 0xae,
      0x41, 0xe4, 0x64, 0x9b, 0x93, 0x4c, 0xa4, 0x95, 0x99, 0x1b, 0x78, 0x52, 0xb8, 0x55, 0x01,
      0x01] =
      [B 86, B 83, B 79, B 32, B 67, B 111, B 110, B 116, B 101, B 110, B 116, B 32, B 73,
      B 100, B 101, B 110, B 116, B 105, B 102, B 105, B 101, B 114, B 32, B 83, B 101, B 101,
      B 100, B 227, B 176, B 196, B 66, B 152, B 252, B 28, B 20, B 154, B 251, B 244, B 200,
      B 153, B 111, B 185, B 36, B 39, B 174, B 65, B 228, B 100, B 155, B 147, B 76, B 164,
      B 149, B 153, B 27, B 120, B 82, B 184, B 85, B (Suc 0), B (Suc 0), B 128, B 0, B 0, B 0,
      B 0, B 0, B 0, B 0, B 0, B 0, B 0, B 0, B 0, B 0, B 0, B 0, B 0, B 0, B 0, B 0, B 0, B 0,
      B 0, B 0, B 0, B 0, B 0, B 0, B 0, B 0, B 0, B 0, B 0, B 0, B 0, B 0, B 0, B 0, B 0, B 0,
      B 0, B 0, B 0, B 0, B 0, B 0, B 0, B 0, B 0, B 0, B 0, B 0, B 0, B 0, B 0, B 0, B 0, B 0,
      B 0, B 0, B 0, B 0, B 0, B 0, B 0, B (Suc 0), B 232]"
    by (simp add: pad256_def be_bytes_8 replicate_num B_def)
  have "blocks256 init256 (pad256
      [0x56, 0x53, 0x4f, 0x20, 0x43, 0x6f, 0x6e, 0x74, 0x65, 0x6e, 0x74, 0x20, 0x49, 0x64, 0x65,
      0x6e, 0x74, 0x69, 0x66, 0x69, 0x65, 0x72, 0x20, 0x53, 0x65, 0x65, 0x64, 0xe3, 0xb0, 0xc4,
      0x42, 0x98, 0xfc, 0x1c, 0x14, 0x9a, 0xfb, 0xf4, 0xc8, 0x99, 0x6f, 0xb9, 0x24, 0x27, 0xae,
      0x41, 0xe4, 0x64, 0x9b, 0x93, 0x4c, 0xa4, 0x95, 0x99, 0x1b, 0x78, 0x52, 0xb8, 0x55, 0x01,
      0x01]) =
      [W 1170405046, W 3854561706, W 1450878323, W 4051274287, W 2809339353, W 638267181,
      W 387863648, W 3555886927]"
    by (simp add: p blocks256_two init256_W block256_second_1 block256_second_2)
  then show ?thesis
    by (simp only: m) (simp add: Sum256_def be_bytes_4 W_kit B_def)
qed

section \<open>The empty input\<close>

lemma sum_vso_empty:
  "sum_vso \<lparr>buffer = [], pageHashes = [], blobID = []\<rparr> =
     (Sum256 (seed @ Sum256 [] @ [0x01]) @ [0x00],
      \<lparr>buffer = [], pageHashes = [], blobID = seed @ Sum256 [] @ [0x01]\<rparr>)"
  by (simp add: sum_vso_def finishBlock_def updateBlobID_def Let_def copy_Size [simplified])

lemma sum_vso_again:
  "sum_vso \<lparr>buffer = [], pageHashes = [], blobID = seed @ Sum256 [] @ [0x01]\<rparr> =
     (Sum256 (seed @ Sum256 [] @ [0x01, 0x01]) @ [0x00],
      \<lparr>buffer = [], pageHashes = [], blobID = seed @ Sum256 [] @ [0x01, 0x01]\<rparr>)"
  by (simp add: sum_vso_def Let_def copy_Size [simplified] seed_def)

lemma Sum_empty: "0 < gomaxprocs \<and> gomaxprocs \<le> maxChanCap \<Longrightarrow>
    Sum gomaxprocs [] = Inr (Sum256 (seed @ Sum256 [] @ [0x01]) @ [0x00])"
  by (simp add: Sum_def New_def NewParallel_eq Write_small sum_vso_empty)

text \<open>
  C5 (empty input, empty block). \<open>finishBlock\<close> with no pending page handle folds the
  digest of the empty string, whose bytes are e3b0c442...7852b855. \<open>Sum\<close> of the empty input
  is the digest of the seed, that digest and one 0x01 byte, followed by 0x00: the 33 bytes
  1e57cf2792a900d06c1cdfb3c453f35bc86f72788aa9724c96c929d1cc6b456a00. \<open>Sum\<close> constructs its
  hasher with \<open>gomaxprocs\<close>, the value of \<^verbatim>\<open>runtime.GOMAXPROCS(0)\<close>, which the runtime
  keeps between 1 and the largest \<^verbatim>\<open>int32\<close>, below \<open>maxChanCap\<close>.
\<close>

theorem empty_input:
  "finishBlock (v\<lparr>pageHashes := []\<rparr>) = updateBlobID (v\<lparr>pageHashes := []\<rparr>) (Sum256 [])
   \<and> Sum256 [] =
       [0xe3, 0xb0, 0xc4, 0x42, 0x98, 0xfc, 0x1c, 0x14, 0x9a, 0xfb, 0xf4, 0xc8, 0x99, 0x6f,
       0xb9, 0x24, 0x27, 0xae, 0x41, 0xe4, 0x64, 0x9b, 0x93, 0x4c, 0xa4, 0x95, 0x99, 0x1b, 0x78,
       0x52, 0xb8, 0x55]
   \<and> (0 < gomaxprocs \<and> gomaxprocs \<le> maxChanCap \<longrightarrow>
        Sum gomaxprocs [] = Inr (Sum256 (seed @ Sum256 [] @ [0x01]) @ [0x00]))
   \<and> (0 < gomaxprocs \<and> gomaxprocs \<le> maxChanCap \<longrightarrow>
        Sum gomaxprocs [] = Inr
          [0x1e, 0x57, 0xcf, 0x27, 0x92, 0xa9, 0x00, 0xd0, 0x6c, 0x1c, 0xdf, 0xb3, 0xc4, 0x53,
          0xf3, 0x5b, 0xc8, 0x6f, 0x72, 0x78, 0x8a, 0xa9, 0x72, 0x4c, 0x96, 0xc9, 0x29, 0xd1,
          0xcc, 0x6b, 0x45, 0x6a, 0x00])"
proof (intro conjI impI)
  show "finishBlock (v\<lparr>pageHashes := []\<rparr>) = updateBlobID (v\<lparr>pageHashes := []\<rparr>) (Sum256 [])"
    by (simp add: finishBlock_def)
  show "Sum256 [] =
       [0xe3, 0xb0, 0xc4, 0x42, 0x98, 0xfc, 0x1c, 0x14, 0x9a, 0xfb, 0xf4, 0xc8, 0x99, 0x6f,
       0xb9, 0x24, 0x27, 0xae, 0x41, 0xe4, 0x64, 0x9b, 0x93, 0x4c, 0xa4, 0x95, 0x99, 0x1b, 0x78,
       0x52, 0xb8, 0x55]"
    by (rule Sum256_empty)
  assume "0 < gomaxprocs \<and> gomaxprocs \<le> maxChanCap"
  then show s: "Sum gomaxprocs [] = Inr (Sum256 (seed @ Sum256 [] @ [0x01]) @ [0x00])"
    by (rule Sum_empty)
  show "Sum gomaxprocs [] = Inr
          [0x1e, 0x57, 0xcf, 0x27, 0x92, 0xa9, 0x00, 0xd0, 0x6c, 0x1c, 0xdf, 0xb3, 0xc4, 0x53,
          0xf3, 0x5b, 0xc8, 0x6f, 0x72, 0x78, 0x8a, 0xa9, 0x72, 0x4c, 0x96, 0xc9, 0x29, 0xd1,
          0xcc, 0x6b, 0x45, 0x6a, 0x00]"
    by (simp only: s Sum256_first) simp
qed

theorem empty_input_witness:
  "Sum 8 [] = Inr (Sum256 (seed @ Sum256 [] @ [0x01]) @ [0x00])
   \<and> Sum 8 [] = Inr
          [0x1e, 0x57, 0xcf, 0x27, 0x92, 0xa9, 0x00, 0xd0, 0x6c, 0x1c, 0xdf, 0xb3, 0xc4, 0x53,
          0xf3, 0x5b, 0xc8, 0x6f, 0x72, 0x78, 0x8a, 0xa9, 0x72, 0x4c, 0x96, 0xc9, 0x29, 0xd1,
          0xcc, 0x6b, 0x45, 0x6a, 0x00]"
proof -
  have "(0 :: int) < 8 \<and> 8 \<le> maxChanCap"
    by (simp add: maxChanCap_eq)
  with empty_input [of "\<lparr>buffer = [], pageHashes = [], blobID = []\<rparr>" 8] show ?thesis
    by blast
qed

section \<open>What \<open>Write\<close> returns\<close>

text \<open>
  C6 (write reports the bytes consumed) fails on the code. A fresh hasher that is written
  one full page of 65536 bytes consumes all of it (the page is submitted) and returns 0:
  the loop of \<^verbatim>\<open>Write\<close> re-slices its parameter and the final
  \<^verbatim>\<open>return len(in), nil\<close> reports the length of what is left of it.
\<close>

theorem Write_short_count:
  "Write \<lparr>buffer = [], pageHashes = [], blobID = []\<rparr> (replicate 65536 0) =
     Inr (0, \<lparr>buffer = [], pageHashes = [Sum256 (replicate 65536 0)], blobID = []\<rparr>)
   \<and> length (replicate 65536 (0 :: byte)) = 65536"
proof -
  let ?h = "\<lparr>buffer = [], pageHashes = [], blobID = []\<rparr>"
  have "Write ?h (replicate 65536 0) =
      Write (writePage ?h (take PageSize (replicate 65536 0))) (drop PageSize (replicate 65536 0))"
    by (rule Write_direct) (simp_all add: PageSize_def)
  also have "\<dots> = Write \<lparr>buffer = [], pageHashes = [Sum256 (replicate 65536 0)], blobID = []\<rparr> []"
    by (simp add: PageSize_def writePage_def pagesPerBlock_eq)
  also have "\<dots> = Inr (0, \<lparr>buffer = [], pageHashes = [Sum256 (replicate 65536 0)], blobID = []\<rparr>)"
    by (simp add: Write_small)
  finally show ?thesis by simp
qed

section \<open>After finishing\<close>

lemma Write_after_sum:
  "Write (snd (sum_vso \<lparr>buffer = [], pageHashes = [], blobID = []\<rparr>)) [0x2a] =
     Inr (1, \<lparr>buffer = [0x2a], pageHashes = [], blobID = seed @ Sum256 [] @ [0x01]\<rparr>)"
  by (simp add: sum_vso_empty Write_small PageSize_def)

lemma buffer_after_sum: "buffer (snd (sum_vso v)) = buffer v"
  by (simp add: sum_vso_def Let_def)

lemma blobID_after_sum: "\<exists>x. blobID (snd (sum_vso v)) = x @ [0x01]"
  by (simp add: sum_vso_def Let_def)

lemma pageHashes_after_sum: "buffer v = [] \<Longrightarrow> pageHashes (snd (sum_vso v)) = []"
  by (simp add: sum_vso_def Let_def finishBlock_def updateBlobID_def)

lemma sum_vso_idle:
  "buffer s = [] \<Longrightarrow> pageHashes s = [] \<Longrightarrow> blobID s \<noteq> [] \<Longrightarrow>
     fst (sum_vso s) = Sum256 (blobID s @ [0x01]) @ [0x00]"
  by (simp add: sum_vso_def Let_def copy_Size [simplified])

text \<open>
  C7 (lifecycle enforcement) fails on the code, which keeps no lifecycle state. On a
  fresh hasher that has been finished once, a further write succeeds and changes the
  state, and a second finish returns another identifier than the first.
\<close>

theorem finish_not_final:
  "Write (snd (sum_vso \<lparr>buffer = [], pageHashes = [], blobID = []\<rparr>)) [0x2a] =
     Inr (1, \<lparr>buffer = [0x2a], pageHashes = [], blobID = seed @ Sum256 [] @ [0x01]\<rparr>)
   \<and> fst (sum_vso \<lparr>buffer = [], pageHashes = [], blobID = []\<rparr>) =
       [0x1e, 0x57, 0xcf, 0x27, 0x92, 0xa9, 0x00, 0xd0, 0x6c, 0x1c, 0xdf, 0xb3, 0xc4, 0x53,
       0xf3, 0x5b, 0xc8, 0x6f, 0x72, 0x78, 0x8a, 0xa9, 0x72, 0x4c, 0x96, 0xc9, 0x29, 0xd1, 0xcc,
       0x6b, 0x45, 0x6a, 0x00]
   \<and> fst (sum_vso (snd (sum_vso \<lparr>buffer = [], pageHashes = [], blobID = []\<rparr>))) =
       [0x45, 0xc2, 0xf6, 0xb6, 0xe5, 0xbf, 0xf1, 0xaa, 0x56, 0x7a, 0xa5, 0x73, 0xf1, 0x79,
       0x8a, 0x2f, 0xa7, 0x73, 0x1d, 0xd9, 0x26, 0x0b, 0x2f, 0x2d, 0x17, 0x1e, 0x54, 0x60, 0xd3,
       0xf2, 0x87, 0x4f, 0x00]
   \<and> fst (sum_vso (snd (sum_vso \<lparr>buffer = [], pageHashes = [], blobID = []\<rparr>))) \<noteq>
       fst (sum_vso \<lparr>buffer = [], pageHashes = [], blobID = []\<rparr>)"
proof -
  let ?h = "\<lparr>buffer = [], pageHashes = [], blobID = []\<rparr>"
  have first: "fst (sum_vso ?h) =
       [0x1e, 0x57, 0xcf, 0x27, 0x92, 0xa9, 0x00, 0xd0, 0x6c, 0x1c, 0xdf, 0xb3, 0xc4, 0x53,
       0xf3, 0x5b, 0xc8, 0x6f, 0x72, 0x78, 0x8a, 0xa9, 0x72, 0x4c, 0x96, 0xc9, 0x29, 0xd1, 0xcc,
       0x6b, 0x45, 0x6a, 0x00]"
    by (simp only: sum_vso_empty fst_conv Sum256_first) simp
  have second: "fst (sum_vso (snd (sum_vso ?h))) =
       [0x45, 0xc2, 0xf6, 0xb6, 0xe5, 0xbf, 0xf1, 0xaa, 0x56, 0x7a, 0xa5, 0x73, 0xf1, 0x79,
       0x8a, 0x2f, 0xa7, 0x73, 0x1d, 0xd9, 0x26, 0x0b, 0x2f, 0x2d, 0x17, 0x1e, 0x54, 0x60, 0xd3,
       0xf2, 0x87, 0x4f, 0x00]"
    by (simp only: sum_vso_empty snd_conv sum_vso_again fst_conv Sum256_second) simp
  have "fst (sum_vso (snd (sum_vso ?h))) \<noteq> fst (sum_vso ?h)"
    by (simp only: first second) simp
  with first second Write_after_sum show ?thesis
    by (intro conjI)
qed

text \<open>
  C7 as the code has it. \<open>sum_vso\<close> appends the 0x01 marker to the accumulator and leaves
  the hasher usable: a write after it does not fail, whatever the input, and a second
  \<open>sum_vso\<close> returns 33 bytes again, computed from the accumulator the first one left,
  which ends with the first marker.
\<close>

theorem finish_leaves_writable:
  assumes "length (buffer v) < PageSize"
  shows "(\<exists>n v1. Write (snd (sum_vso v)) inp = Inr (n, v1))
    \<and> blobID (snd (sum_vso v)) \<noteq> [] \<and> last (blobID (snd (sum_vso v))) = 0x01
    \<and> length (fst (sum_vso (snd (sum_vso v)))) = 33
    \<and> (buffer v = [] \<longrightarrow>
          fst (sum_vso (snd (sum_vso v))) = Sum256 (blobID (snd (sum_vso v)) @ [0x01]) @ [0x00])"
proof -
  define s where "s = snd (sum_vso v)"
  obtain x where x: "blobID s = x @ [0x01]"
    unfolding s_def using blobID_after_sum [of v] by blast
  have "length (buffer s) \<le> PageSize"
    unfolding s_def using assms by (simp add: buffer_after_sum)
  then have w: "\<exists>n v1. Write s inp = Inr (n, v1)"
    using Write_ok [of s inp] by blast
  have l: "length (fst (sum_vso s)) = 33"
    by (rule length_sum_vso)
  have "fst (sum_vso s) = Sum256 (blobID s @ [0x01]) @ [0x00]" if "buffer v = []"
  proof (rule sum_vso_idle)
    show "buffer s = []"
      unfolding s_def using that by (simp add: buffer_after_sum)
    show "pageHashes s = []"
      unfolding s_def using that by (rule pageHashes_after_sum)
    show "blobID s \<noteq> []"
      using x by simp
  qed
  with w l x show ?thesis
    unfolding s_def [symmetric] by simp
qed

theorem finish_leaves_writable_witness:
  "(\<exists>n v1. Write (snd (sum_vso \<lparr>buffer = [], pageHashes = [], blobID = []\<rparr>)) [0x2a] = Inr (n, v1))
    \<and> blobID (snd (sum_vso \<lparr>buffer = [], pageHashes = [], blobID = []\<rparr>)) \<noteq> []
    \<and> last (blobID (snd (sum_vso \<lparr>buffer = [], pageHashes = [], blobID = []\<rparr>))) = 0x01
    \<and> length (fst (sum_vso (snd (sum_vso \<lparr>buffer = [], pageHashes = [], blobID = []\<rparr>)))) = 33
    \<and> fst (sum_vso (snd (sum_vso \<lparr>buffer = [], pageHashes = [], blobID = []\<rparr>))) =
        Sum256 (blobID (snd (sum_vso \<lparr>buffer = [], pageHashes = [], blobID = []\<rparr>)) @ [0x01]) @ [0x00]"
  using finish_leaves_writable [of "\<lparr>buffer = [], pageHashes = [], blobID = []\<rparr>" "[0x2a]"]
  by simp

end
